theory Spec2Isabelle
  imports Main
begin

section \<open>JavaScript values\<close>

text \<open>
  The orchestrator of \<^verbatim>\<open>js/components/application.js\<close> handles values it did not
  create: the modules that the loader resolves, the instances built from them, and what a
  component's \<^verbatim>\<open>activate\<close> hands back. They are modelled by the part of a JavaScript
  value that the orchestrator looks at:
  \<^item> the primitives (numbers are integers here; \<^verbatim>\<open>NaN\<close> is left out);
  \<^item> a plain object, one whose prototype is \<^verbatim>\<open>Object.prototype\<close>, as the list of the
    properties it has of its own, in insertion order;
  \<^item> an instance of a class, as the list of the properties it has of its own and the
    list of the members it gets from its class, that is, from its prototype chain short
    of \<^verbatim>\<open>Object.prototype\<close>;
  \<^item> a function, as the list of the properties it has of its own (\<^verbatim>\<open>length\<close> and
    \<^verbatim>\<open>name\<close>, the statics the program gave it, and \<^verbatim>\<open>prototype\<close> when it has one: a
    bound function, an arrow function and a method have none), what \<^verbatim>\<open>new f()\<close> does
    (\<open>None\<close> when the function is not a constructor; otherwise the constructor throws, or
    the expression yields the given object) and what a call of it does (it throws,
    returns something falsy, or returns a collection of children);
  \<^item> the values that every object inherits from \<^verbatim>\<open>Object.prototype\<close> and every function
    from \<^verbatim>\<open>Function.prototype\<close>: \<open>Builtin h n\<close> is what \<^verbatim>\<open>x[n]\<close> gives for a plain
    object \<open>x\<close> (\<open>h\<close> is \<open>Object\<close>) or a function \<open>x\<close> (\<open>h\<close> is \<open>Function\<close>) that
    has no property \<open>n\<close> of its own. So \<open>Builtin h ''__proto__''\<close> is the prototype
    object itself and \<open>Builtin h ''constructor''\<close> the constructor \<open>h\<close>.
  Object identity is outside the model: two values are the same when they have the same
  shape.

  What a call returns is either falsy (\<open>NoChildren\<close>) or a collection of children,
  listed with the key under which \<^verbatim>\<open>_.each\<close> visits each of them (the property name, or
  the index of an array written in decimal). Of a child the orchestrator reads
  \<^verbatim>\<open>child.name\<close> (\<open>None\<close> when it is falsy, otherwise its string form),
  \<^verbatim>\<open>child.object\<close>, and the token
  \<^verbatim>\<open>child.beehive.getService('PubSub').getCurrentPubSubKey().getId()\<close>, an expression
  that throws when a link of the chain is missing.
\<close>

datatype error =
    Error string      \<comment> \<open>\<^verbatim>\<open>throw new Error(msg)\<close> of the source\<close>
  | TypeError         \<comment> \<open>raised by the language: \<^verbatim>\<open>in\<close> on a primitive, a call of a non-function, ...\<close>
  | Thrown            \<comment> \<open>raised by code of a component or of a collaborator\<close>

datatype jsval =
    Undefined
  | Null
  | Bool bool
  | Num int
  | Str string
  | Obj "(string \<times> jsval) list"
  | Instance "(string \<times> jsval) list" "(string \<times> jsval) list"
  | Fun "(string \<times> jsval) list" "(error + jsval) option" "error + children"
  | Builtin string string
and children =
    NoChildren
  | Children "(string \<times> child) list"
and child =
    Child "string option" jsval "error + string"

fun truthy :: "jsval \<Rightarrow> bool" where
  "truthy Undefined = False"
| "truthy Null = False"
| "truthy (Bool b) = b"
| "truthy (Num n) = (n \<noteq> 0)"
| "truthy (Str s) = (s \<noteq> [])"
| "truthy (Obj ps) = True"
| "truthy (Instance ps cls) = True"
| "truthy (Fun st mk call) = True"
| "truthy (Builtin h n) = True"

text \<open>Objects and functions, as opposed to primitives.\<close>

fun is_object :: "jsval \<Rightarrow> bool" where
  "is_object (Obj ps) = True"
| "is_object (Instance ps cls) = True"
| "is_object (Fun st mk call) = True"
| "is_object (Builtin h n) = True"
| "is_object v = False"

text \<open>Decimal form of an index, for the own properties of a string.\<close>

definition digit :: "nat \<Rightarrow> char" where
  "digit n = ''0123456789'' ! n"

fun decimal_fuel :: "nat \<Rightarrow> nat \<Rightarrow> string" where
  "decimal_fuel 0 n = [digit (n mod 10)]"
| "decimal_fuel (Suc f) n =
     (if n < 10 then [digit n] else decimal_fuel f (n div 10) @ [digit (n mod 10)])"

definition decimal :: "nat \<Rightarrow> string" where
  "decimal n = decimal_fuel n n"

subsection \<open>What every object and every function inherits\<close>

text \<open>
  The methods of \<^verbatim>\<open>Object.prototype\<close> and of \<^verbatim>\<open>Function.prototype\<close>, each with the
  number of its parameters. Besides them \<^verbatim>\<open>Object.prototype\<close> holds \<^verbatim>\<open>constructor\<close> and
  the accessor \<^verbatim>\<open>__proto__\<close>; \<^verbatim>\<open>Function.prototype\<close> holds \<^verbatim>\<open>constructor\<close>, \<^verbatim>\<open>length\<close>,
  \<^verbatim>\<open>name\<close> and the accessors \<^verbatim>\<open>arguments\<close> and \<^verbatim>\<open>caller\<close>, which throw when they are
  read on a function that does not have these two of its own.
\<close>

definition object_methods :: "(string \<times> nat) list" where
  "object_methods =
     [(''hasOwnProperty'', 1), (''isPrototypeOf'', 1), (''propertyIsEnumerable'', 1),
      (''toLocaleString'', 0), (''toString'', 0), (''valueOf'', 0),
      (''__defineGetter__'', 2), (''__defineSetter__'', 2),
      (''__lookupGetter__'', 1), (''__lookupSetter__'', 1)]"

definition function_methods :: "(string \<times> nat) list" where
  "function_methods = [(''apply'', 2), (''bind'', 1), (''call'', 1), (''toString'', 0)]"

text \<open>The names that a plain object answers to without having them of its own.\<close>

definition object_prototype_names :: "string list" where
  "object_prototype_names = ''constructor'' # ''__proto__'' # map fst object_methods"

text \<open>\<^verbatim>\<open>x[k]\<close> for a plain object \<open>x\<close> without a property \<open>k\<close> of its own, and the
  same for a function.\<close>

definition object_inherited :: "string \<Rightarrow> jsval" where
  "object_inherited k =
     (if k \<in> set object_prototype_names then Builtin ''Object'' k else Undefined)"

definition function_inherited :: "string \<Rightarrow> error + jsval" where
  "function_inherited k =
     (if k = ''arguments'' \<or> k = ''caller'' then Inl TypeError
      else if k = ''constructor'' \<or> k = ''__proto__'' \<or> map_of function_methods k \<noteq> None
        then Inr (Builtin ''Function'' k)
      else if k = ''length'' then Inr (Num 0)
      else if k = ''name'' then Inr (Str [])
      else Inr (object_inherited k))"

text \<open>
  The own properties of a built-in value: a prototype object holds what it hands down;
  a constructor has \<^verbatim>\<open>prototype\<close>, \<^verbatim>\<open>length\<close> and \<^verbatim>\<open>name\<close> (its further statics, such as
  \<^verbatim>\<open>Object.keys\<close>, are not listed); a method has \<^verbatim>\<open>length\<close> and \<^verbatim>\<open>name\<close>.
\<close>

definition builtin_methods :: "string \<Rightarrow> (string \<times> nat) list" where
  "builtin_methods h = (if h = ''Function'' then function_methods else object_methods)"

definition builtin_own :: "string \<Rightarrow> string \<Rightarrow> string \<Rightarrow> jsval option" where
  "builtin_own h n k =
     (if n = ''__proto__''
      then (if k = ''constructor'' \<or> map_of (builtin_methods h) k \<noteq> None then Some (Builtin h k)
            else if h = ''Function'' \<and> k = ''length'' then Some (Num 0)
            else if h = ''Function'' \<and> k = ''name'' then Some (Str [])
            else if h \<noteq> ''Function'' \<and> k = ''__proto__'' then Some Null
            else None)
      else if n = ''constructor''
      then (if k = ''prototype'' then Some (Builtin h ''__proto__'')
            else if k = ''length'' then Some (Num 1)
            else if k = ''name'' then Some (Str h)
            else None)
      else (if k = ''length''
              then (case map_of (builtin_methods h) n of Some a \<Rightarrow> Some (Num (int a)) | None \<Rightarrow> None)
            else if k = ''name'' then Some (Str n)
            else None))"

subsection \<open>Properties of a value\<close>

text \<open>The property \<open>k\<close> that a value has of its own, if any; the member \<open>k\<close> that an
  instance gets from its class; and the first of the two that there is, which is what a
  read of \<open>k\<close> finds before it turns to the prototypes of the language.\<close>

fun own_property :: "jsval \<Rightarrow> string \<Rightarrow> jsval option" where
  "own_property (Obj ps) k = map_of ps k"
| "own_property (Instance ps cls) k = map_of ps k"
| "own_property (Fun st mk call) k = map_of st k"
| "own_property (Str s) k =
     (if k = ''length'' then Some (Num (int (length s)))
      else case filter (\<lambda>i. decimal i = k) [0..<length s] of
             i # _ \<Rightarrow> Some (Str [s ! i])
           | [] \<Rightarrow> None)"
| "own_property (Builtin h n) k = builtin_own h n k"
| "own_property v k = None"

fun class_property :: "jsval \<Rightarrow> string \<Rightarrow> jsval option" where
  "class_property (Instance ps cls) k = map_of cls k"
| "class_property v k = None"

definition found :: "jsval \<Rightarrow> string \<Rightarrow> jsval option" where
  "found v k = (case own_property v k of Some x \<Rightarrow> Some x | None \<Rightarrow> class_property v k)"

text \<open>
  \<^verbatim>\<open>v[k]\<close>, for a truthy \<open>v\<close>: the own property, else what the prototype chain gives.
  The source reads \<^verbatim>\<open>module.prototype\<close>, which no prototype of the language hands down,
  and \<^verbatim>\<open>module[key]\<close> after \<^verbatim>\<open>module.hasOwnProperty(key)\<close>; for a primitive that test is
  the language's own, so the chain of a primitive is never reached and is left empty
  here.
\<close>

fun inherited :: "jsval \<Rightarrow> string \<Rightarrow> error + jsval" where
  "inherited (Obj ps) k = Inr (object_inherited k)"
| "inherited (Instance ps cls) k =
     (case map_of cls k of Some x \<Rightarrow> Inr x | None \<Rightarrow> Inr (object_inherited k))"
| "inherited (Fun st mk call) k = function_inherited k"
| "inherited (Builtin h n) k =
     (if n = ''__proto__''
      then (if h = ''Function'' then Inr (object_inherited k) else Inr Undefined)
      else function_inherited k)"
| "inherited v k = Inr Undefined"

definition get_prop :: "jsval \<Rightarrow> string \<Rightarrow> error + jsval" where
  "get_prop v k = (case own_property v k of Some x \<Rightarrow> Inr x | None \<Rightarrow> inherited v k)"

text \<open>
  \<^verbatim>\<open>f.call(x, key)\<close> read as a condition, for the value \<open>f\<close> found under the name
  \<^verbatim>\<open>hasOwnProperty\<close> of an object \<open>x\<close> that is not itself a function; \<open>owns\<close> tells
  whether \<open>x\<close> has \<open>key\<close> of its own. A function of the program does what its calls do.
  Of the built-ins, \<^verbatim>\<open>hasOwnProperty\<close> and \<^verbatim>\<open>propertyIsEnumerable\<close> answer \<open>owns\<close>;
  \<^verbatim>\<open>isPrototypeOf\<close> answers no for a string; \<^verbatim>\<open>toString\<close>, \<^verbatim>\<open>toLocaleString\<close>,
  \<^verbatim>\<open>valueOf\<close> and \<^verbatim>\<open>Object\<close> return something truthy; \<^verbatim>\<open>__lookupGetter__\<close> and
  \<^verbatim>\<open>__lookupSetter__\<close> find an accessor only under \<^verbatim>\<open>__proto__\<close>;
  \<^verbatim>\<open>Function.prototype\<close>, itself a function, returns \<^verbatim>\<open>undefined\<close>; the others throw
  (\<^verbatim>\<open>__defineGetter__\<close> for want of a getter, the methods of \<^verbatim>\<open>Function.prototype\<close>
  because \<open>x\<close> cannot be called; the constructor \<^verbatim>\<open>Function\<close>, which compiles what it
  is given, is taken to throw as well). Anything else is not a function.
\<close>

definition builtin_test :: "string \<Rightarrow> string \<Rightarrow> bool \<Rightarrow> string \<Rightarrow> error + bool" where
  "builtin_test h n owns key =
     (if n = ''__proto__'' then (if h = ''Function'' then Inr False else Inl TypeError)
      else if h = ''Function'' then Inl TypeError
      else if n = ''hasOwnProperty'' \<or> n = ''propertyIsEnumerable'' then Inr owns
      else if n = ''isPrototypeOf'' then Inr False
      else if n = ''toString'' \<or> n = ''toLocaleString'' \<or> n = ''valueOf'' \<or> n = ''constructor''
        then Inr True
      else if n = ''__lookupGetter__'' \<or> n = ''__lookupSetter__''
        then Inr (key = ''__proto__'' \<and> \<not> owns)
      else Inl TypeError)"

fun call_test :: "jsval \<Rightarrow> bool \<Rightarrow> string \<Rightarrow> error + bool" where
  "call_test (Fun st mk call) owns key =
     (case call of
        Inl e \<Rightarrow> Inl e
      | Inr NoChildren \<Rightarrow> Inr False
      | Inr (Children cs) \<Rightarrow> Inr True)"
| "call_test (Builtin h n) owns key = builtin_test h n owns key"
| "call_test v owns key = Inl TypeError"

text \<open>
  \<^verbatim>\<open>v.hasOwnProperty(k)\<close>, for a truthy \<open>v\<close>: the method is looked up on \<open>v\<close> like any
  property, so a property \<^verbatim>\<open>hasOwnProperty\<close> that \<open>v\<close> has of its own, or gets from its
  class, is what gets called.
\<close>

definition hasOwnProperty :: "jsval \<Rightarrow> string \<Rightarrow> error + bool" where
  "hasOwnProperty v k =
     (case found v ''hasOwnProperty'' of
        None \<Rightarrow> Inr (own_property v k \<noteq> None)
      | Some f \<Rightarrow> call_test f (own_property v k \<noteq> None) k)"

text \<open>\<^verbatim>\<open>module.prototype\<close> is truthy.\<close>

definition has_prototype :: "jsval \<Rightarrow> bool" where
  "has_prototype v = (case found v ''prototype'' of Some p \<Rightarrow> truthy p | None \<Rightarrow> False)"

text \<open>\<^verbatim>\<open>new module()\<close>: a \<^verbatim>\<open>TypeError\<close> unless the value is a constructor.\<close>

fun construct :: "jsval \<Rightarrow> error + jsval" where
  "construct (Fun st mk call) =
     (case mk of
        None \<Rightarrow> Inl TypeError
      | Some (Inl e) \<Rightarrow> Inl e
      | Some (Inr inst) \<Rightarrow> Inr inst)"
| "construct (Builtin h n) =
     (if n \<noteq> ''constructor'' then Inl TypeError
      else if h = ''Function''
        then Inr (Fun [(''length'', Num 0), (''name'', Str ''anonymous''), (''prototype'', Obj [])]
                    (Some (Inr (Obj []))) (Inr NoChildren))
      else Inr (Obj []))"
| "construct v = Inl TypeError"

text \<open>\<^verbatim>\<open>'activate' in v\<close>: a \<^verbatim>\<open>TypeError\<close> on a primitive. No prototype of the language
  has a property of that name.\<close>

fun in_activate :: "jsval \<Rightarrow> error + bool" where
  "in_activate (Obj ps) = Inr (map_of ps ''activate'' \<noteq> None)"
| "in_activate (Instance ps cls) =
     Inr (map_of ps ''activate'' \<noteq> None \<or> map_of cls ''activate'' \<noteq> None)"
| "in_activate (Fun st mk call) = Inr (map_of st ''activate'' \<noteq> None)"
| "in_activate (Builtin h n) = Inr False"
| "in_activate v = Inl TypeError"

text \<open>
  \<^verbatim>\<open>v.activate(...)\<close>, once \<^verbatim>\<open>'activate' in v\<close> holds: \<open>None\<close> when the property
  is not a function (the call is a \<^verbatim>\<open>TypeError\<close> and nothing is invoked), otherwise
  what the invoked function does. A built-in function put there is invoked with a
  registry as its argument: those that test a property return false, as
  \<^verbatim>\<open>Function.prototype\<close> returns \<^verbatim>\<open>undefined\<close>; those that define an accessor throw, and
  so do the methods of \<^verbatim>\<open>Function.prototype\<close> and the constructor \<^verbatim>\<open>Function\<close>; the
  others return a truthy value whose first element has no \<^verbatim>\<open>beehive\<close>.
\<close>

definition builtin_activate :: "string \<Rightarrow> string \<Rightarrow> (error + children) option" where
  "builtin_activate h n =
     (if n = ''__proto__'' then (if h = ''Function'' then Some (Inr NoChildren) else None)
      else if h = ''Function'' then Some (Inl TypeError)
      else if n = ''__defineGetter__'' \<or> n = ''__defineSetter__'' then Some (Inl TypeError)
      else if n = ''toString'' \<or> n = ''toLocaleString'' \<or> n = ''valueOf'' \<or> n = ''constructor''
        then Some (Inr (Children [(''0'', Child None Undefined (Inl TypeError))]))
      else Some (Inr NoChildren))"

definition activate_method :: "jsval \<Rightarrow> (error + children) option" where
  "activate_method v =
     (case found v ''activate'' of
        Some (Fun st mk call) \<Rightarrow> Some call
      | Some (Builtin h n) \<Rightarrow> builtin_activate h n
      | _ \<Rightarrow> None)"

section \<open>Container\<close>

text \<open>
  A \<^verbatim>\<open>Container\<close> wraps a plain object, \<^verbatim>\<open>this.container = {}\<close>. It is modelled by the
  list of the properties that object has of its own, in the order \<^verbatim>\<open>_.pairs\<close>
  enumerates them (insertion order, an assignment to an existing name keeping its place;
  names that are array indices, which the language enumerates first, are not treated
  apart), together with the prototype the object has at the moment: the one every plain
  object starts with, another object put in its place by an assignment to
  \<^verbatim>\<open>__proto__\<close>, or none after an assignment of \<^verbatim>\<open>null\<close>.
\<close>

type_synonym container = "(string \<times> jsval) list"

datatype proto =
    ObjectPrototype
  | Replaced jsval
  | NoPrototype

text \<open>\<^verbatim>\<open>this.container[name]\<close>.\<close>

definition get :: "proto \<Rightarrow> container \<Rightarrow> string \<Rightarrow> error + jsval" where
  "get pr c name =
     (case map_of c name of
        Some v \<Rightarrow> Inr v
      | None \<Rightarrow>
          (case pr of
             ObjectPrototype \<Rightarrow> Inr (object_inherited name)
           | Replaced p \<Rightarrow>
               (if name = ''__proto__'' \<and> found p name = None then Inr p
                else get_prop p name)
           | NoPrototype \<Rightarrow> Inr Undefined))"

text \<open>\<^verbatim>\<open>this.container.hasOwnProperty(name)\<close>, read as a condition: the method is
  whatever the wrapped object gives under the name \<^verbatim>\<open>hasOwnProperty\<close>, a component
  stored under that name included.\<close>

definition has :: "proto \<Rightarrow> container \<Rightarrow> string \<Rightarrow> error + bool" where
  "has pr c name =
     (case get pr c ''hasOwnProperty'' of
        Inl e \<Rightarrow> Inl e
      | Inr f \<Rightarrow> call_test f (map_of c name \<noteq> None) name)"

text \<open>\<^verbatim>\<open>delete this.container[name]\<close>.\<close>

definition remove :: "string \<Rightarrow> container \<Rightarrow> container" where
  "remove name c = filter (\<lambda>e. fst e \<noteq> name) c"

text \<open>
  \<^verbatim>\<open>this.container[name] = obj\<close>. Under the name \<^verbatim>\<open>__proto__\<close> the assignment reaches
  the accessor of \<^verbatim>\<open>Object.prototype\<close> as long as the chain leads there and nothing on
  the way has a property of that name: it then replaces the prototype when \<open>obj\<close> is an
  object (\<^verbatim>\<open>Object.prototype\<close> itself gives back the original one), removes it when \<open>obj\<close> is \<^verbatim>\<open>null\<close>, and does nothing otherwise. In every other
  case the value is stored as a property of the wrapped object.
\<close>

definition put :: "string \<Rightarrow> jsval \<Rightarrow> container \<Rightarrow> container" where
  "put name obj c =
     (if map_of c name \<noteq> None then map (\<lambda>e. if fst e = name then (name, obj) else e) c
      else c @ [(name, obj)])"

definition reaches_accessor :: "proto \<Rightarrow> container \<Rightarrow> bool" where
  "reaches_accessor pr c =
     (map_of c ''__proto__'' = None \<and>
      (case pr of
         ObjectPrototype \<Rightarrow> True
       | Replaced p \<Rightarrow> found p ''__proto__'' = None
       | NoPrototype \<Rightarrow> False))"

definition add :: "string \<Rightarrow> jsval \<Rightarrow> proto \<times> container \<Rightarrow> proto \<times> container" where
  "add name obj pc =
     (if name = ''__proto__'' \<and> reaches_accessor (fst pc) (snd pc)
      then (if obj = Builtin ''Object'' ''__proto__'' then (ObjectPrototype, snd pc)
            else if is_object obj then (Replaced obj, snd pc)
            else if obj = Null then (NoPrototype, snd pc)
            else pc)
      else (fst pc, put name obj (snd pc)))"

section \<open>The application\<close>

text \<open>
  Modelled from the spec: the Elevated Registry (\<^verbatim>\<open>js/components/beehive\<close>, not part of
  the sources at hand). It keeps services and objects with has/get/add/remove of its
  own, which behave as a Container does; its \<^verbatim>\<open>activate\<close> may fail;
  \<^verbatim>\<open>getHardenedInstance()\<close> creates a fresh Hardened Registry View each time, here the
  view numbered by how many were issued before it; and the pub/sub collaborator of the
  \<open>n\<close>-th view reports the token \<open>pubsub_id n\<close>, or the chain
  \<^verbatim>\<open>getService('PubSub').getCurrentPubSubKey().getId()\<close> throws.
\<close>

record beehive =
  services :: container
  services_proto :: proto
  objects :: container
  objects_proto :: proto
  on_activate :: "error option"
  issued :: nat
  pubsub_id :: "nat \<Rightarrow> error + string"

text \<open>What the application does to its collaborators, in the order it does it.\<close>

datatype arg =
    ElevatedAndApp     \<comment> \<open>\<^verbatim>\<open>activate(beehive, self)\<close>\<close>
  | Elevated           \<comment> \<open>\<^verbatim>\<open>activate(beehive)\<close>\<close>
  | Hardened nat       \<comment> \<open>\<^verbatim>\<open>activate(hardenedBee)\<close>, with the view's number\<close>

datatype call =
    Require string "jsval list"     \<comment> \<open>\<^verbatim>\<open>require(impls, callback, errback)\<close> of a section, and its timer\<close>
  | BeehiveActivate                 \<comment> \<open>\<^verbatim>\<open>beehive.activate(beehive)\<close>\<close>
  | GetHardenedInstance nat         \<comment> \<open>\<^verbatim>\<open>beehive.getHardenedInstance()\<close>, returning that view\<close>
  | Activate string string arg      \<comment> \<open>\<^verbatim>\<open>activate\<close> of the named entry of a Container\<close>

text \<open>
  \<^verbatim>\<open>console.warn\<close> and \<^verbatim>\<open>console.error\<close>. The \<^verbatim>\<open>console.log\<close> lines printed under
  \<^verbatim>\<open>debug\<close> are not modelled, nor are two lines whose place among the others depends on
  when the resolver answers: the warning \<^verbatim>\<open>Error loading impl=...\<close> of a section's
  errback, and the second \<^verbatim>\<open>console.error\<close> of a failed load, which prints the reason
  of the rejection when there is one (the timer's).
\<close>

datatype msg =
    Warn string
  | Err string
  | ErrExn error

text \<open>The Containers of the application, each with the prototype of the object it
  wraps, and the barbarian registry, by the entries it has of its own.\<close>

record application =
  a_beehive :: beehive
  a_modules :: container
  a_modules_proto :: proto
  a_controllers :: container
  a_controllers_proto :: proto
  a_widgets :: container
  a_widgets_proto :: proto
  a_plugins :: container
  a_plugins_proto :: proto
  a_barbarianRegistry :: "string \<rightharpoonup> string"
  a_activated :: bool
  calls :: "call list"
  console :: "msg list"

definition did :: "call \<Rightarrow> application \<Rightarrow> application" where
  "did c app = app\<lparr>calls := calls app @ [c]\<rparr>"

definition say :: "msg list \<Rightarrow> application \<Rightarrow> application" where
  "say ms app = app\<lparr>console := console app @ ms\<rparr>"

definition hasController :: "application \<Rightarrow> string \<Rightarrow> error + bool" where
  "hasController app name = has (a_controllers_proto app) (a_controllers app) name"

definition getController :: "application \<Rightarrow> string \<Rightarrow> error + jsval" where
  "getController app name = get (a_controllers_proto app) (a_controllers app) name"



definition hasWidget :: "application \<Rightarrow> string \<Rightarrow> error + bool" where
  "hasWidget app name = has (a_widgets_proto app) (a_widgets app) name"

definition getWidget :: "application \<Rightarrow> string \<Rightarrow> error + jsval" where
  "getWidget app name = get (a_widgets_proto app) (a_widgets app) name"

definition hasPlugin :: "application \<Rightarrow> string \<Rightarrow> error + bool" where
  "hasPlugin app name = has (a_plugins_proto app) (a_plugins app) name"

definition getPlugin :: "application \<Rightarrow> string \<Rightarrow> error + jsval" where
  "getPlugin app name = get (a_plugins_proto app) (a_plugins app) name"



definition hasObject :: "application \<Rightarrow> string \<Rightarrow> error + bool" where
  "hasObject app name = has (objects_proto (a_beehive app)) (objects (a_beehive app)) name"

definition getObject :: "application \<Rightarrow> string \<Rightarrow> error + jsval" where
  "getObject app name = get (objects_proto (a_beehive app)) (objects (a_beehive app)) name"

definition getAllControllers :: "application \<Rightarrow> (string \<times> jsval) list" where
  "getAllControllers app = a_controllers app"

definition getAllModules :: "application \<Rightarrow> (string \<times> jsval) list" where
  "getAllModules app = a_modules app"

definition getAllPlugins :: "application \<Rightarrow> (string \<times> jsval) list" where
  "getAllPlugins app = a_plugins app"

definition getAllWidgets :: "application \<Rightarrow> (string \<times> jsval) list" where
  "getAllWidgets app = a_widgets app"

definition isActivated :: "application \<Rightarrow> bool" where
  "isActivated app = a_activated app"

section \<open>Registering loaded modules\<close>

text \<open>
  \<^verbatim>\<open>createInstance(key, module)\<close> of \<^verbatim>\<open>_registerLoadedModules\<close>, in the form used for
  every section but \<open>modules\<close>: the warnings it prints, and what it returns or throws.
\<close>

definition createInstance :: "string \<Rightarrow> jsval \<Rightarrow> msg list \<times> (error + jsval)" where
  "createInstance key module =
     (if \<not> truthy module
        then ([Warn (''Object '' @ key @ '' is empty, cannot instantiate it!'')], Inr Undefined)
      else if has_prototype module then ([], construct module)
      else (case hasOwnProperty module key of
              Inl e \<Rightarrow> ([], Inl e)
            | Inr True \<Rightarrow> ([], get_prop module key)
            | Inr False \<Rightarrow> ([], Inr module)))"

text \<open>The section \<open>modules\<close> replaces it by \<^verbatim>\<open>function(key, module) {return module}\<close>.\<close>

definition createInstance_modules :: "string \<Rightarrow> jsval \<Rightarrow> msg list \<times> (error + jsval)" where
  "createInstance_modules key module = ([], Inr module)"

definition createInstance_of :: "string \<Rightarrow> string \<Rightarrow> jsval \<Rightarrow> msg list \<times> (error + jsval)" where
  "createInstance_of section =
     (if section = ''modules'' then createInstance_modules else createInstance)"

text \<open>
  The chain of \<^verbatim>\<open>if (section == ...)\<close> binds \<^verbatim>\<open>hasKey\<close>, \<^verbatim>\<open>removeKey\<close> and \<^verbatim>\<open>addKey\<close>
  to one Container each: the application's own for controllers, modules, widgets and
  plugins, the registry's for services and objects. Any other section throws.
\<close>

definition known_section :: "string \<Rightarrow> bool" where
  "known_section section =
     (section = ''controllers'' \<or> section = ''services'' \<or> section = ''objects'' \<or>
      section = ''modules'' \<or> section = ''widgets'' \<or> section = ''plugins'')"

definition section_container :: "string \<Rightarrow> application \<Rightarrow> container" where
  "section_container section app =
     (if section = ''controllers'' then a_controllers app
      else if section = ''services'' then services (a_beehive app)
      else if section = ''objects'' then objects (a_beehive app)
      else if section = ''modules'' then a_modules app
      else if section = ''widgets'' then a_widgets app
      else a_plugins app)"

definition section_proto :: "string \<Rightarrow> application \<Rightarrow> proto" where
  "section_proto section app =
     (if section = ''controllers'' then a_controllers_proto app
      else if section = ''services'' then services_proto (a_beehive app)
      else if section = ''objects'' then objects_proto (a_beehive app)
      else if section = ''modules'' then a_modules_proto app
      else if section = ''widgets'' then a_widgets_proto app
      else a_plugins_proto app)"

definition section_set :: "string \<Rightarrow> proto \<times> container \<Rightarrow> application \<Rightarrow> application" where
  "section_set section pc app =
     (if section = ''controllers'' then app\<lparr>a_controllers_proto := fst pc, a_controllers := snd pc\<rparr>
      else if section = ''services''
        then app\<lparr>a_beehive := (a_beehive app)\<lparr>services_proto := fst pc, services := snd pc\<rparr>\<rparr>
      else if section = ''objects''
        then app\<lparr>a_beehive := (a_beehive app)\<lparr>objects_proto := fst pc, objects := snd pc\<rparr>\<rparr>
      else if section = ''modules'' then app\<lparr>a_modules_proto := fst pc, a_modules := snd pc\<rparr>
      else if section = ''widgets'' then app\<lparr>a_widgets_proto := fst pc, a_widgets := snd pc\<rparr>
      else app\<lparr>a_plugins_proto := fst pc, a_plugins := snd pc\<rparr>)"

definition hasKey :: "string \<Rightarrow> application \<Rightarrow> string \<Rightarrow> error + bool" where
  "hasKey section app key = has (section_proto section app) (section_container section app) key"

definition removeKey :: "string \<Rightarrow> string \<Rightarrow> application \<Rightarrow> application" where
  "removeKey section key app =
     section_set section (section_proto section app, remove key (section_container section app)) app"

definition addKey :: "string \<Rightarrow> string \<Rightarrow> jsval \<Rightarrow> application \<Rightarrow> application" where
  "addKey section key inst app =
     section_set section (add key inst (section_proto section app, section_container section app)) app"

text \<open>One round of the loop \<^verbatim>\<open>_.each(_.pairs(modules), ...)\<close>. A throw leaves the
  application as it is at that moment.\<close>

definition register_entry ::
  "string \<Rightarrow> string \<times> jsval \<Rightarrow> application \<Rightarrow> (error \<times> application) + application" where
  "register_entry section m app =
     (let key = fst m; module = snd m
      in case hasKey section app key of
           Inl e \<Rightarrow> Inl (e, app)
         | Inr existing \<Rightarrow>
             (let app1 = (if existing
                          then removeKey section key
                                 (say [Warn (''Removing (existing) object into ['' @ section @ '']: '' @ key)] app)
                          else app);
                  app2 = say (fst (createInstance_of section key module)) app1
              in case snd (createInstance_of section key module) of
                   Inl e \<Rightarrow> Inl (e, app2)
                 | Inr inst \<Rightarrow>
                     if \<not> truthy inst
                     then Inr (say [Warn (''Removing '' @ key @ ''(because it is null!)'')] app2)
                     else Inr (addKey section key inst app2)))"

fun register_pairs ::
  "string \<Rightarrow> (string \<times> jsval) list \<Rightarrow> application \<Rightarrow> (error \<times> application) + application" where
  "register_pairs section [] app = Inr app"
| "register_pairs section (m # ms) app =
     (case register_entry section m app of
        Inl x \<Rightarrow> Inl x
      | Inr app' \<Rightarrow> register_pairs section ms app')"

text \<open>\<^verbatim>\<open>_registerLoadedModules(section, modules)\<close>, with \<open>modules\<close> given by the
  properties it has of its own, as \<^verbatim>\<open>_.pairs\<close> lists them.\<close>

definition registerLoadedModules ::
  "string \<Rightarrow> (string \<times> jsval) list \<Rightarrow> application \<Rightarrow> (error \<times> application) + application" where
  "registerLoadedModules section modules app =
     (if known_section section then register_pairs section modules app
      else Inl (Error (''Unknown section: '' @ section), app))"

section \<open>Loading a manifest\<close>

text \<open>
  A group of the manifest maps symbolic names (property names, so strings) to
  identifiers (any value: \<^verbatim>\<open>_checkPrescription\<close> is there to refuse those that are not
  strings). A group that is absent or falsy is \<open>None\<close>.
\<close>

type_synonym prescription = "(string \<times> jsval) list"

record core =
  core_controllers :: "prescription option"
  core_modules :: "prescription option"
  core_services :: "prescription option"
  core_objects :: "prescription option"

record config =
  config_core :: "core option"
  config_plugins :: "prescription option"
  config_widgets :: "prescription option"

fun isString :: "jsval \<Rightarrow> bool" where
  "isString (Str s) = True"
| "isString v = False"

definition checkPrescription :: "prescription \<Rightarrow> error + unit" where
  "checkPrescription modulePrescription =
     (if list_all (\<lambda>module. isString (snd module)) modulePrescription then Inr ()
      else Inl (Error ''You are kidding me, the key/implementation must be string values''))"

text \<open>
  \<^verbatim>\<open>_loadModules\<close> validates the group, hands its identifiers to \<^verbatim>\<open>require\<close>, starts the
  timer and returns the promise of its deferred. The promise is identified by what the
  callback closes over: the section's name and the symbolic names.
\<close>

type_synonym promise = "string \<times> string list"

definition loadModules_section ::
  "string \<Rightarrow> prescription \<Rightarrow> application \<Rightarrow> (error \<times> application) + (promise \<times> application)" where
  "loadModules_section sectionName modulePrescription app =
     (case checkPrescription modulePrescription of
        Inl e \<Rightarrow> Inl (e, app)
      | Inr u \<Rightarrow>
          Inr ((sectionName, map fst modulePrescription),
               did (Require sectionName (map snd modulePrescription)) app))"

text \<open>
  What the resolver does with one request, up to the timer: it calls back with the
  resolved values, it reports an error, or it does neither in time.
\<close>

datatype resolution =
    Resolves "jsval list"
  | Errs
  | Stalls

text \<open>
  How the deferred of a section settles. The callback fills a fresh object \<^verbatim>\<open>ret\<close> by
  \<^verbatim>\<open>ret[name] = modules[idx]\<close>, name after name, and resolves with the section's name
  and \<^verbatim>\<open>ret\<close>; what registration later sees of \<^verbatim>\<open>ret\<close> are the properties it has of
  its own. The errback rejects, or with \<^verbatim>\<open>ignoreErrors\<close> does nothing, and then the
  timer rejects, as it does when the resolver stalls.
\<close>

definition callback_ret :: "string list \<Rightarrow> jsval list \<Rightarrow> (string \<times> jsval) list" where
  "callback_ret implNames modules =
     snd (fold (\<lambda>nm. add (fst nm) (snd nm))
            (zip implNames (modules @ replicate (length implNames - length modules) Undefined))
            (ObjectPrototype, []))"

fun settle :: "bool \<Rightarrow> promise \<Rightarrow> resolution \<Rightarrow> (string \<times> (string \<times> jsval) list) option" where
  "settle ignoreErrors p (Resolves modules) = Some (fst p, callback_ret (snd p) modules)"
| "settle ignoreErrors p Errs = None"
| "settle ignoreErrors p Stalls = None"

text \<open>The groups that \<^verbatim>\<open>loadModules\<close> finds in the manifest, in the order it visits them.\<close>

definition core_sections :: "core \<Rightarrow> (string \<times> prescription) list" where
  "core_sections c =
     concat (map (\<lambda>g. case snd g of None \<Rightarrow> [] | Some p \<Rightarrow> [(fst g, p)])
       [(''controllers'', core_controllers c), (''modules'', core_modules c),
        (''services'', core_services c), (''objects'', core_objects c)])"

definition config_sections :: "config \<Rightarrow> (string \<times> prescription) list" where
  "config_sections cfg =
     (case config_core cfg of None \<Rightarrow> [] | Some c \<Rightarrow> core_sections c) @
     (case config_plugins cfg of None \<Rightarrow> [] | Some p \<Rightarrow> [(''plugins'', p)]) @
     (case config_widgets cfg of None \<Rightarrow> [] | Some p \<Rightarrow> [(''widgets'', p)])"

fun dispatch ::
  "(string \<times> prescription) list \<Rightarrow> application \<Rightarrow>
     (error \<times> application) + (promise list \<times> application)" where
  "dispatch [] app = Inr ([], app)"
| "dispatch (g # gs) app =
     (case loadModules_section (fst g) (snd g) app of
        Inl x \<Rightarrow> Inl x
      | Inr pa \<Rightarrow>
          (case dispatch gs (snd pa) of
             Inl x \<Rightarrow> Inl x
           | Inr qa \<Rightarrow> Inr (fst pa # fst qa, snd qa)))"

text \<open>
  \<^verbatim>\<open>$.when\<close> (jQuery) resolves once every promise has resolved and rejects as soon as one
  rejects. What it resolves with depends on how many promises it was given: with none,
  nothing; with exactly one, that promise stands for the whole and the callback receives
  its two arguments, the section's name and \<^verbatim>\<open>ret\<close>, each on its own; with two or more,
  one array \<^verbatim>\<open>[sectionName, ret]\<close> for each promise, in their order.
\<close>

datatype promised =
    Single jsval
  | Array string "(string \<times> jsval) list"

fun when_arguments :: "(string \<times> (string \<times> jsval) list) list \<Rightarrow> promised list" where
  "when_arguments [] = []"
| "when_arguments [r] = [Single (Str (fst r)), Single (Obj (snd r))]"
| "when_arguments rs = map (\<lambda>r. Array (fst r) (snd r)) rs"

text \<open>The callback of \<^verbatim>\<open>.then\<close>: it registers what came as an array.\<close>

fun register_promised ::
  "promised list \<Rightarrow> application \<Rightarrow> (error \<times> application) + application" where
  "register_promised [] app = Inr app"
| "register_promised (Single v # ps) app = register_promised ps app"
| "register_promised (Array section ret # ps) app =
     (case registerLoadedModules section ret app of
        Inl x \<Rightarrow> Inl x
      | Inr app' \<Rightarrow> register_promised ps app')"

text \<open>
  The outcome of a call of \<^verbatim>\<open>loadModules\<close>, seen once every deferred has settled: the
  call threw before returning; the promise it returned resolved; it rejected; or the
  callback that registers threw. No other code is taken to run in between.
\<close>

datatype load_outcome =
    Threw error
  | Resolved
  | Rejected
  | CallbackThrew error

definition all_settled ::
  "(string \<times> (string \<times> jsval) list) option list \<Rightarrow> (string \<times> (string \<times> jsval) list) list option" where
  "all_settled ss = (if list_all (\<lambda>s. s \<noteq> None) ss then Some (map the ss) else None)"

definition loadModules ::
  "application \<Rightarrow> config \<Rightarrow> (string \<Rightarrow> resolution) \<Rightarrow> load_outcome \<times> application" where
  "loadModules app cfg resolver =
     (case dispatch (config_sections cfg) app of
        Inl x \<Rightarrow> (Threw (fst x), snd x)
      | Inr pa \<Rightarrow>
          (case all_settled (map (\<lambda>p. settle False p (resolver (fst p))) (fst pa)) of
             None \<Rightarrow>
               (Rejected,
                say [Err ''Generic error - we were not successul in loading all modules for config'']
                  (snd pa))
           | Some rs \<Rightarrow>
               (case register_promised (when_arguments rs) (snd pa) of
                  Inl x \<Rightarrow> (CallbackThrew (fst x), snd x)
                | Inr app' \<Rightarrow> (Resolved, app'))))"

section \<open>Activation\<close>

text \<open>
  A component's \<^verbatim>\<open>activate\<close> is taken to act on the application only through what it
  throws or returns: it does not reach into the Containers or the barbarian registry.
\<close>

definition log_activation_error :: "string \<Rightarrow> error \<Rightarrow> application \<Rightarrow> application" where
  "log_activation_error name e app = say [Err (''Error activating:'' @ name), ErrExn e] app"

text \<open>Controllers: no \<^verbatim>\<open>try\<close> around the body of the loop.\<close>

definition activate_controller ::
  "string \<times> jsval \<Rightarrow> application \<Rightarrow> (error \<times> application) + application" where
  "activate_controller el app =
     (case in_activate (snd el) of
        Inl e \<Rightarrow> Inl (e, app)
      | Inr False \<Rightarrow> Inr app
      | Inr True \<Rightarrow>
          (case activate_method (snd el) of
             None \<Rightarrow> Inl (TypeError, app)
           | Some r \<Rightarrow>
               (case r of
                  Inl e \<Rightarrow> Inl (e, did (Activate ''controller'' (fst el) ElevatedAndApp) app)
                | Inr children \<Rightarrow> Inr (did (Activate ''controller'' (fst el) ElevatedAndApp) app))))"

fun activate_controllers ::
  "(string \<times> jsval) list \<Rightarrow> application \<Rightarrow> (error \<times> application) + application" where
  "activate_controllers [] app = Inr app"
| "activate_controllers (el # els) app =
     (case activate_controller el app of
        Inl x \<Rightarrow> Inl x
      | Inr app' \<Rightarrow> activate_controllers els app')"

text \<open>Modules: whatever is thrown in the body is caught and logged.\<close>

definition activate_module :: "string \<times> jsval \<Rightarrow> application \<Rightarrow> application" where
  "activate_module el app =
     (case in_activate (snd el) of
        Inl e \<Rightarrow> log_activation_error (fst el) e app
      | Inr False \<Rightarrow> app
      | Inr True \<Rightarrow>
          (case activate_method (snd el) of
             None \<Rightarrow> log_activation_error (fst el) TypeError app
           | Some r \<Rightarrow>
               (case r of
                  Inl e \<Rightarrow> log_activation_error (fst el) e
                             (did (Activate ''module'' (fst el) Elevated) app)
                | Inr children \<Rightarrow> did (Activate ''module'' (fst el) Elevated) app)))"

text \<open>
  \<^verbatim>\<open>this.__barbarianRegistry[token] = name\<close>, the registry being a plain object and the
  name a string: under the token \<^verbatim>\<open>__proto__\<close> the assignment reaches the accessor of
  \<^verbatim>\<open>Object.prototype\<close>, which ignores a string.
\<close>

definition record_barbarian :: "string \<Rightarrow> string \<Rightarrow> application \<Rightarrow> application" where
  "record_barbarian token name app =
     (if token = ''__proto__'' then app
      else app\<lparr>a_barbarianRegistry := (a_barbarianRegistry app)(token \<mapsto> name)\<rparr>)"

text \<open>
  \<^verbatim>\<open>_registerBarbarianChildren(category, prefix, children)\<close>: for each child the entry of
  the barbarian registry is written first, then the name is looked up in the Container
  of the category, and the child is added unless that throws.
\<close>

fun registerBarbarianChildren ::
  "string \<Rightarrow> string \<Rightarrow> (string \<times> child) list \<Rightarrow> application \<Rightarrow>
     (error \<times> application) + application" where
  "registerBarbarianChildren category prefix [] app = Inr app"
| "registerBarbarianChildren category prefix ((key, Child nm obj tok) # cs) app =
     (let name = prefix @ ''-'' @ (case nm of Some n \<Rightarrow> n | None \<Rightarrow> key)
      in case tok of
           Inl e \<Rightarrow> Inl (e, app)
         | Inr t \<Rightarrow>
             (let app1 = record_barbarian t (category @ '':'' @ name) app
              in if category = ''widget''
                 then (case hasWidget app1 name of
                         Inl e \<Rightarrow> Inl (e, app1)
                       | Inr True \<Rightarrow>
                           Inl (Error (''There already exists a widget with name: '' @ name), app1)
                       | Inr False \<Rightarrow>
                           registerBarbarianChildren category prefix cs
                             (addKey ''widgets'' name obj app1))
                 else (case hasPlugin app1 name of
                         Inl e \<Rightarrow> Inl (e, app1)
                       | Inr True \<Rightarrow>
                           Inl (Error (''There already exists a plugin with name: '' @ name), app1)
                       | Inr False \<Rightarrow>
                           registerBarbarianChildren category prefix cs
                             (addKey ''plugins'' name obj app1))))"

text \<open>
  Plugins (category \<open>plugin\<close>) and widgets (category \<open>widget\<close>): the two loops of the
  source have the same body up to the category. The whole body stands in a \<^verbatim>\<open>try\<close>.
  The view is created while the arguments of the call are evaluated, so before the
  language finds out whether \<^verbatim>\<open>activate\<close> can be called.
\<close>

definition getHardenedInstance :: "application \<Rightarrow> application" where
  "getHardenedInstance app =
     did (GetHardenedInstance (issued (a_beehive app)))
       (app\<lparr>a_beehive := (a_beehive app)\<lparr>issued := Suc (issued (a_beehive app))\<rparr>\<rparr>)"

definition activate_barbarian :: "string \<Rightarrow> string \<times> jsval \<Rightarrow> application \<Rightarrow> application" where
  "activate_barbarian category el app =
     (case in_activate (snd el) of
        Inl e \<Rightarrow> log_activation_error (fst el) e app
      | Inr False \<Rightarrow> app
      | Inr True \<Rightarrow>
          (let n = issued (a_beehive app); app1 = getHardenedInstance app
           in case activate_method (snd el) of
                None \<Rightarrow> log_activation_error (fst el) TypeError app1
              | Some r \<Rightarrow>
                  (let app2 = did (Activate category (fst el) (Hardened n)) app1
                   in case r of
                        Inl e \<Rightarrow> log_activation_error (fst el) e app2
                      | Inr children \<Rightarrow>
                          (case pubsub_id (a_beehive app2) n of
                             Inl e \<Rightarrow> log_activation_error (fst el) e app2
                           | Inr token \<Rightarrow>
                               (let app3 = record_barbarian token (category @ '':'' @ fst el) app2
                                in case children of
                                     NoChildren \<Rightarrow> app3
                                   | Children cs \<Rightarrow>
                                       (case registerBarbarianChildren category (fst el) cs app3 of
                                          Inl x \<Rightarrow> log_activation_error (fst el) (fst x) (snd x)
                                        | Inr app4 \<Rightarrow> app4))))))"

text \<open>
  The cascade. Each \<^verbatim>\<open>getAll...\<close> is read when its loop starts, and the loop runs over
  that list: what a loop adds to a Container is not visited by it.
\<close>

definition activate :: "application \<Rightarrow> (error \<times> application) + application" where
  "activate app =
     (let app0 = did BeehiveActivate app
      in case on_activate (a_beehive app0) of
           Some e \<Rightarrow> Inl (e, app0)
         | None \<Rightarrow>
             (case activate_controllers (getAllControllers app0) app0 of
                Inl x \<Rightarrow> Inl x
              | Inr app1 \<Rightarrow>
                  (let app2 = fold activate_module (getAllModules app1) app1;
                       app3 = fold (activate_barbarian ''plugin'') (getAllPlugins app2) app2;
                       app4 = fold (activate_barbarian ''widget'') (getAllWidgets app3) app3
                   in Inr (app4\<lparr>a_activated := True\<rparr>))))"

section \<open>Looking a barbarian up by its token\<close>

text \<open>
  \<^verbatim>\<open>getPluginOrWidgetName\<close> reads \<^verbatim>\<open>this.__barbarianRegistry[psk]\<close>: the entry recorded
  under the token, or, when there is none, what the registry inherits under that name
  as the plain object it is. A falsy result is turned into \<^verbatim>\<open>undefined\<close>.
\<close>

definition getPluginOrWidgetName :: "application \<Rightarrow> string \<Rightarrow> jsval" where
  "getPluginOrWidgetName app psk =
     (let k = (case a_barbarianRegistry app psk of
                 Some q \<Rightarrow> Str q
               | None \<Rightarrow> object_inherited psk)
      in if truthy k then k else Undefined)"

text \<open>\<^verbatim>\<open>k.split(':')\<close>, and \<^verbatim>\<open>key[1]\<close> as the property name it is used as
  (\<^verbatim>\<open>undefined\<close> names the property \<open>undefined\<close>).\<close>

fun split_colon :: "string \<Rightarrow> string list" where
  "split_colon [] = [[]]"
| "split_colon (c # cs) =
     (if c = CHR '':'' then [] # split_colon cs
      else (c # hd (split_colon cs)) # tl (split_colon cs))"

definition key1 :: "string \<Rightarrow> string" where
  "key1 k = (case split_colon k of a # b # rest \<Rightarrow> b | _ \<Rightarrow> ''undefined'')"

text \<open>The two Containers are asked in turn, the widgets first. A name that is not a
  string has no \<^verbatim>\<open>split\<close> to call.\<close>

definition lookup_name :: "application \<Rightarrow> string \<Rightarrow> string \<Rightarrow> error + jsval" where
  "lookup_name app psk name =
     (case has (a_widgets_proto app) (a_widgets app) name of
        Inl e \<Rightarrow> Inl e
      | Inr True \<Rightarrow> get (a_widgets_proto app) (a_widgets app) name
      | Inr False \<Rightarrow>
          (case has (a_plugins_proto app) (a_plugins app) name of
             Inl e \<Rightarrow> Inl e
           | Inr True \<Rightarrow> get (a_plugins_proto app) (a_plugins app) name
           | Inr False \<Rightarrow>
               Inl (Error (''Eeeek, thisis unexpectEED bEhAvjor! Cant find barbarian with ID: '' @ psk))))"

definition getPluginOrWidgetByPubSubKey :: "application \<Rightarrow> string \<Rightarrow> error + jsval" where
  "getPluginOrWidgetByPubSubKey app psk =
     (case getPluginOrWidgetName app psk of
        Undefined \<Rightarrow> Inr Undefined
      | Str k \<Rightarrow> lookup_name app psk (key1 k)
      | _ \<Rightarrow> Inl TypeError)"

section \<open>A new application\<close>

text \<open>\<^verbatim>\<open>initialize\<close>: empty Containers and an empty barbarian registry around a new
  registry.\<close>

definition initialize :: "beehive \<Rightarrow> application" where
  "initialize bh =
     \<lparr>a_beehive = bh,
      a_modules = [], a_modules_proto = ObjectPrototype,
      a_controllers = [], a_controllers_proto = ObjectPrototype,
      a_widgets = [], a_widgets_proto = ObjectPrototype,
      a_plugins = [], a_plugins_proto = ObjectPrototype,
      a_barbarianRegistry = Map.empty, a_activated = False, calls = [], console = []\<rparr>"

section \<open>Notions used to state the properties\<close>

subsection \<open>Registration and loading\<close>

text \<open>
  The instance policy in the words of the specification: a value of the section
  \<open>modules\<close> is taken as it is; any other value is constructed when it is instantiable,
  that is, when it is a constructor; else unwrapped when it has a property of its own
  under the symbolic name; else taken as it is.
\<close>

fun instantiable :: "jsval \<Rightarrow> bool" where
  "instantiable (Fun st mk call) = (mk \<noteq> None)"
| "instantiable (Builtin h n) = (n = ''constructor'')"
| "instantiable v = False"

definition spec_instance_policy :: "string \<Rightarrow> string \<Rightarrow> jsval \<Rightarrow> error + jsval" where
  "spec_instance_policy section key v =
     (if section = ''modules'' then Inr v
      else if instantiable v then construct v
      else case own_property v key of Some x \<Rightarrow> Inr x | None \<Rightarrow> Inr v)"

text \<open>
  The policy with the test of the source: what decides for the construction is a truthy
  \<^verbatim>\<open>prototype\<close> property, whether or not the value can be constructed. (Of a falsy
  value the source makes \<^verbatim>\<open>undefined\<close>, with a warning, where this policy has the value
  itself: the one is as falsy as the other, and an instance that is falsy is not
  stored.)
\<close>

definition instance_policy :: "string \<Rightarrow> string \<Rightarrow> jsval \<Rightarrow> error + jsval" where
  "instance_policy section key v =
     (if section = ''modules'' then Inr v
      else if has_prototype v then construct v
      else case own_property v key of Some x \<Rightarrow> Inr x | None \<Rightarrow> Inr v)"


definition plain :: "proto \<Rightarrow> container \<Rightarrow> bool" where
  "plain pr c = (pr = ObjectPrototype \<and> map_of c ''hasOwnProperty'' = None)"

definition ordinary_name :: "string \<Rightarrow> bool" where
  "ordinary_name n = (n \<noteq> ''hasOwnProperty'' \<and> n \<noteq> ''__proto__'')"

definition plain_section :: "string \<Rightarrow> application \<Rightarrow> bool" where
  "plain_section section app = plain (section_proto section app) (section_container section app)"

definition plain_barbarians :: "application \<Rightarrow> bool" where
  "plain_barbarians app =
     (plain (a_widgets_proto app) (a_widgets app) \<and> plain (a_plugins_proto app) (a_plugins app))"



text \<open>The request and the promise that \<^verbatim>\<open>_loadModules\<close> makes of a group.\<close>

definition require_of :: "string \<times> prescription \<Rightarrow> call" where
  "require_of g = Require (fst g) (map snd (snd g))"

definition promise_of :: "string \<times> prescription \<Rightarrow> promise" where
  "promise_of g = (fst g, map fst (snd g))"

subsection \<open>Activation\<close>

text \<open>
  What reaching a component with \<^verbatim>\<open>if ('activate' in el) el.activate(...)\<close> throws, if
  anything; whether its \<^verbatim>\<open>activate\<close> is invoked at all; and what the loops that catch
  print for the components that throw.
\<close>

definition failure :: "jsval \<Rightarrow> error option" where
  "failure v =
     (case in_activate v of
        Inl e \<Rightarrow> Some e
      | Inr False \<Rightarrow> None
      | Inr True \<Rightarrow>
          (case activate_method v of
             None \<Rightarrow> Some TypeError
           | Some (Inl e) \<Rightarrow> Some e
           | Some (Inr children) \<Rightarrow> None))"

definition invoked :: "jsval \<Rightarrow> bool" where
  "invoked v = (in_activate v = Inr True \<and> activate_method v \<noteq> None)"

definition activation_errors :: "(string \<times> jsval) list \<Rightarrow> msg list" where
  "activation_errors els =
     concat (map (\<lambda>el. case failure (snd el) of
                          None \<Rightarrow> []
                        | Some e \<Rightarrow> [Err (''Error activating:'' @ fst el), ErrExn e]) els)"

text \<open>
  The calls that a tier makes, whatever its components do: one call of \<^verbatim>\<open>activate\<close> for
  each controller and for each module whose \<^verbatim>\<open>activate\<close> can be called; for each plugin
  or widget that exposes \<^verbatim>\<open>activate\<close> a view of its own, the views numbered from \<open>n\<close>
  on, followed by the call that receives it when there is something to call. The last
  function counts the views that a tier asks for.
\<close>

definition controller_calls :: "(string \<times> jsval) list \<Rightarrow> call list" where
  "controller_calls els =
     map (\<lambda>el. Activate ''controller'' (fst el) ElevatedAndApp) (filter (\<lambda>el. invoked (snd el)) els)"

definition module_calls :: "(string \<times> jsval) list \<Rightarrow> call list" where
  "module_calls els =
     map (\<lambda>el. Activate ''module'' (fst el) Elevated) (filter (\<lambda>el. invoked (snd el)) els)"

fun barbarian_calls :: "string \<Rightarrow> nat \<Rightarrow> (string \<times> jsval) list \<Rightarrow> call list" where
  "barbarian_calls category n [] = []"
| "barbarian_calls category n (el # els) =
     (if in_activate (snd el) = Inr True
      then GetHardenedInstance n #
           (if activate_method (snd el) \<noteq> None then [Activate category (fst el) (Hardened n)] else []) @
           barbarian_calls category (Suc n) els
      else barbarian_calls category n els)"

definition views_for :: "(string \<times> jsval) list \<Rightarrow> nat" where
  "views_for els = length (filter (\<lambda>el. in_activate (snd el) = Inr True) els)"

text \<open>
  The same order in closed form, for a run without failures: the names of the entries
  that expose \<^verbatim>\<open>activate\<close>, in the order of the Container; and the calls for the plugins
  or widgets of those names when the views are numbered from \<open>n\<close> on, for each a view
  of its own and then its \<^verbatim>\<open>activate\<close> with that view.
\<close>

definition activating :: "(string \<times> jsval) list \<Rightarrow> string list" where
  "activating els = map fst (filter (\<lambda>el. in_activate (snd el) = Inr True) els)"

definition hardened_calls :: "string \<Rightarrow> nat \<Rightarrow> string list \<Rightarrow> call list" where
  "hardened_calls category n names =
     concat (map (\<lambda>p. [GetHardenedInstance (fst p), Activate category (snd p) (Hardened (fst p))])
               (zip [n ..< n + length names] names))"

text \<open>The application as a call leaves it, whether the call throws or returns.\<close>

definition final_state :: "(error \<times> application) + application \<Rightarrow> application" where
  "final_state r = (case r of Inl x \<Rightarrow> snd x | Inr app \<Rightarrow> app)"

text \<open>A Container grows: what it held, it still holds.\<close>

definition grows :: "container \<Rightarrow> container \<Rightarrow> bool" where
  "grows c c' = (\<forall>k v. map_of c k = Some v \<longrightarrow> map_of c' k = Some v)"

text \<open>The Container that \<^verbatim>\<open>_registerBarbarianChildren\<close> consults for a category, the
  word that its error message uses for it, and the name it derives for a child.\<close>

definition category_container :: "string \<Rightarrow> application \<Rightarrow> container" where
  "category_container category app =
     (if category = ''widget'' then a_widgets app else a_plugins app)"

definition category_proto :: "string \<Rightarrow> application \<Rightarrow> proto" where
  "category_proto category app =
     (if category = ''widget'' then a_widgets_proto app else a_plugins_proto app)"

definition category_word :: "string \<Rightarrow> string" where
  "category_word category = (if category = ''widget'' then ''widget'' else ''plugin'')"

definition child_name :: "string \<Rightarrow> string \<Rightarrow> string option \<Rightarrow> string" where
  "child_name prefix key nm = prefix @ ''-'' @ (case nm of Some n \<Rightarrow> n | None \<Rightarrow> key)"

text \<open>The tokens that the children returned by a component's \<^verbatim>\<open>activate\<close> report.\<close>

definition tokens_of :: "(string \<times> child) list \<Rightarrow> string list" where
  "tokens_of cs =
     concat (map (\<lambda>c. case snd c of Child nm obj tok \<Rightarrow> (case tok of Inl e \<Rightarrow> [] | Inr t \<Rightarrow> [t])) cs)"

definition child_tokens :: "jsval \<Rightarrow> string list" where
  "child_tokens v =
     (case activate_method v of
        Some (Inr (Children cs)) \<Rightarrow> tokens_of cs
      | _ \<Rightarrow> [])"

text \<open>
  The application as a cascade that is not stopped by the registry or a controller has
  it when it reaches an entry of the plugins, or of the widgets, having gone through
  the entries \<open>before\<close> it in that Container; and the application at the moment the
  children of an entry are handed to \<^verbatim>\<open>_registerBarbarianChildren\<close>, the view asked for,
  the entry activated and its own token recorded.
\<close>

definition reached :: "string \<Rightarrow> application \<Rightarrow> (string \<times> jsval) list \<Rightarrow> application" where
  "reached category app before =
     (let app1 = app\<lparr>calls := calls app @ BeehiveActivate # controller_calls (a_controllers app)\<rparr>;
          app2 = fold activate_module (a_modules app) app1
      in if category = ''widget''
         then fold (activate_barbarian ''widget'') before
                (fold (activate_barbarian ''plugin'') (a_plugins app) app2)
         else fold (activate_barbarian ''plugin'') before app2)"

definition with_children :: "string \<Rightarrow> string \<Rightarrow> string \<Rightarrow> application \<Rightarrow> application" where
  "with_children category name token app =
     record_barbarian token (category @ '':'' @ name)
       (did (Activate category name (Hardened (issued (a_beehive app)))) (getHardenedInstance app))"

section \<open>Examples\<close>

text \<open>A registry as \<^verbatim>\<open>new BeeHive()\<close> may leave it: no services, no objects, an
  \<^verbatim>\<open>activate\<close> that does not throw, and views that report the tokens \<open>key\<close>, \<open>key+\<close>,
  \<open>key++\<close>, ...\<close>

definition new_BeeHive :: beehive where
  "new_BeeHive = \<lparr>services = [], services_proto = ObjectPrototype,
     objects = [], objects_proto = ObjectPrototype, on_activate = None, issued = 0,
     pubsub_id = (\<lambda>n. Inr (''key'' @ replicate n CHR ''+''))\<rparr>"

text \<open>Manifests and resolvers: two groups of which only the widgets resolve; a manifest
  whose plugins have an identifier that is not a string; a manifest of a module and a
  widget, with a resolver that answers the module's request with a given value.\<close>

definition two_groups :: config where
  "two_groups = \<lparr>config_core = None, config_plugins = Some [(''P'', Str ''js/p'')],
     config_widgets = Some [(''W'', Str ''js/w'')]\<rparr>"

definition widgets_only :: "string \<Rightarrow> resolution" where
  "widgets_only s = (if s = ''widgets'' then Resolves [Obj [(''id'', Num 1)]] else Stalls)"

definition bad_plugins :: config where
  "bad_plugins =
     \<lparr>config_core = Some \<lparr>core_controllers = Some [(''C'', Str ''js/c'')], core_modules = None,
        core_services = None, core_objects = None\<rparr>,
      config_plugins = Some [(''P'', Num 5)],
      config_widgets = Some [(''W'', Str ''js/w'')]\<rparr>"








text \<open>Components: without \<^verbatim>\<open>activate\<close>; with one that returns nothing; with one that
  throws; with one that returns children.\<close>

definition activate_function :: "error + children \<Rightarrow> jsval" where
  "activate_function call =
     Fun [(''length'', Num 1), (''name'', Str ''activate''), (''prototype'', Obj [])]
       (Some (Inr (Obj []))) call"

definition inert :: jsval where
  "inert = Obj [(''id'', Num 0)]"

definition quiet :: "int \<Rightarrow> jsval" where
  "quiet i = Obj [(''id'', Num i), (''activate'', activate_function (Inr NoChildren))]"

definition throwing :: "int \<Rightarrow> jsval" where
  "throwing i = Obj [(''id'', Num i), (''activate'', activate_function (Inl Thrown))]"

definition spawning :: "int \<Rightarrow> (string \<times> child) list \<Rightarrow> jsval" where
  "spawning i cs = Obj [(''id'', Num i), (''activate'', activate_function (Inr (Children cs)))]"

text \<open>Applications ready to be activated: with a module and a widget that throw and a
  plugin that spawns a child; without any failure; with a controller that throws; with
  a plugin already registered under the name of the child to come; with a plugin whose
  second child derives the name of its first; with a plugin and a widget under one
  name; with a plugin and a widget whose common name has a colon in it.\<close>

definition loaded :: application where
  "loaded = (initialize new_BeeHive)
     \<lparr>a_controllers := [(''QueryMediator'', quiet 1)],
      a_modules := [(''A'', quiet 2), (''B'', throwing 3), (''C'', quiet 4)],
      a_plugins := [(''P'', spawning 5 [(''x'', Child None (Obj [(''id'', Num 6)]) (Inr ''child-x''))]),
                    (''Q'', inert)],
      a_widgets := [(''W'', throwing 7), (''Y'', quiet 8)]\<rparr>"

definition all_quiet :: application where
  "all_quiet = (initialize new_BeeHive)
     \<lparr>a_controllers := [(''QueryMediator'', quiet 1)],
      a_modules := [(''A'', quiet 2), (''C'', inert)],
      a_plugins := [(''P'', quiet 5), (''Q'', inert)],
      a_widgets := [(''W'', quiet 7), (''Y'', quiet 8)]\<rparr>"

definition controller_throws :: application where
  "controller_throws =
     loaded\<lparr>a_controllers := [(''X'', quiet 0), (''Z'', throwing 1), (''U'', quiet 2)]\<rparr>"

definition collides :: application where
  "collides = loaded\<lparr>a_plugins := a_plugins loaded @ [(''P-x'', inert)]\<rparr>"

definition twins :: "(string \<times> child) list" where
  "twins = [(''x'', Child None (Obj [(''id'', Num 6)]) (Inr ''child-x'')),
            (''y'', Child (Some ''x'') (Obj [(''id'', Num 7)]) (Inr ''child-y'')),
            (''z'', Child None (Obj [(''id'', Num 8)]) (Inr ''child-z''))]"

definition with_twins :: application where
  "with_twins = (initialize new_BeeHive)
     \<lparr>a_plugins := [(''Q'', quiet 1), (''P'', spawning 5 twins)],
      a_widgets := [(''Y'', quiet 8)]\<rparr>"

definition same_name :: application where
  "same_name = (initialize new_BeeHive)
     \<lparr>a_plugins := [(''N'', quiet 1)], a_widgets := [(''N'', quiet 2)]\<rparr>"

definition colon_name :: application where
  "colon_name = (initialize new_BeeHive)
     \<lparr>a_plugins := [(''a:b'', quiet 1)], a_widgets := [(''a:b'', quiet 2)]\<rparr>"

section \<open>Properties: Containers\<close>

text \<open>The operations of a Container, seen through \<open>map_of\<close>.\<close>

lemma map_of_put:
  "map_of (put n v c) k = (if k = n then Some v else map_of c k)"
proof (cases "map_of c n \<noteq> None")
  case True
  have "map_of (map (\<lambda>e. if fst e = n then (n, v) else e) c) k =
        (if k = n \<and> map_of c n \<noteq> None then Some v else map_of c k)"
    by (induction c) auto
  with True show ?thesis by (auto simp: put_def)
next
  case False
  then show ?thesis by (auto simp: put_def map_add_def split: option.splits)
qed









lemma add_ordinary:
  "n \<noteq> ''__proto__'' \<Longrightarrow> add n v pc = (fst pc, put n v (snd pc))"
  by (simp add: add_def)

text \<open>A Container in the usual case answers by what it holds.\<close>

lemma inherited_hasOwnProperty:
  "object_inherited ''hasOwnProperty'' = Builtin ''Object'' ''hasOwnProperty''"
  by (simp add: object_inherited_def object_prototype_names_def object_methods_def)

lemma has_plain: "plain pr c \<Longrightarrow> has pr c n = Inr (map_of c n \<noteq> None)"
  by (simp add: plain_def has_def get_def inherited_hasOwnProperty builtin_test_def)

lemma get_own: "map_of c n = Some v \<Longrightarrow> get pr c n = Inr v"
  by (simp add: get_def)

lemma plain_put: "plain pr c \<Longrightarrow> n \<noteq> ''hasOwnProperty'' \<Longrightarrow> plain pr (put n v c)"
  by (simp add: plain_def map_of_put)


lemma plain_add:
  "plain (fst pc) (snd pc) \<Longrightarrow> ordinary_name n \<Longrightarrow>
   add n v pc = (fst pc, put n v (snd pc)) \<and> plain (fst pc) (put n v (snd pc))"
  by (simp add: ordinary_name_def add_ordinary plain_put)

section \<open>Properties: registration\<close>

lemma section_container_set [simp]:
  "section_container s (section_set s pc app) = snd pc"
  by (simp add: section_container_def section_set_def)

lemma section_proto_set [simp]:
  "section_proto s (section_set s pc app) = fst pc"
  by (simp add: section_proto_def section_set_def)


lemma section_say [simp]:
  "section_container s (say ms app) = section_container s app"
  "section_proto s (say ms app) = section_proto s app"
  by (simp_all add: section_container_def section_proto_def say_def)

lemma console_section_set [simp]:
  "console (section_set s pc app) = console app"
  by (simp add: section_set_def)

lemma console_say [simp]: "console (say ms app) = console app @ ms"
  by (simp add: say_def)

lemma plain_section_say [simp]: "plain_section s (say ms app) = plain_section s app"
  by (simp add: plain_section_def)

















section \<open>Properties: loading\<close>

lemma checkPrescription_iff:
  "(checkPrescription p = Inr ()) = list_all (\<lambda>m. isString (snd m)) p"
  by (simp add: checkPrescription_def)

lemma dispatch_valid:
  "list_all (\<lambda>g. list_all (\<lambda>m. isString (snd m)) (snd g)) gs \<Longrightarrow>
   dispatch gs app = Inr (map promise_of gs, app\<lparr>calls := calls app @ map require_of gs\<rparr>)"
proof (induction gs arbitrary: app)
  case Nil
  then show ?case by simp
next
  case (Cons g gs)
  then show ?case
    by (simp add: loadModules_section_def checkPrescription_def did_def promise_of_def require_of_def)
qed

lemma dispatch_invalid:
  "list_all (\<lambda>g. list_all (\<lambda>m. isString (snd m)) (snd g)) pre \<Longrightarrow>
   \<not> list_all (\<lambda>m. isString (snd m)) (snd g) \<Longrightarrow>
   dispatch (pre @ g # post) app =
     Inl (Error ''You are kidding me, the key/implementation must be string values'',
          app\<lparr>calls := calls app @ map require_of pre\<rparr>)"
proof (induction pre arbitrary: app)
  case Nil
  then show ?case by (simp add: loadModules_section_def checkPrescription_def)
next
  case (Cons h pre)
  then show ?case
    by (simp add: loadModules_section_def checkPrescription_def did_def require_of_def)
qed


lemma all_settled_None:
  "None \<in> set ss \<Longrightarrow> all_settled ss = None"
  by (auto simp: all_settled_def list_all_iff)

text \<open>
  A manifest with a single group: the aggregate promise is the group's own, the callback
  receives the section's name and the resolved map as two plain arguments, finds no
  array among them and registers nothing, though the load resolves.
\<close>

lemma single_group_resolves_unregistered:
  "loadModules (initialize new_BeeHive)
     \<lparr>config_core = None, config_plugins = None,
        config_widgets = Some [(''W'', Str ''js/w'')]\<rparr> widgets_only =
   (Resolved, (initialize new_BeeHive)\<lparr>calls := [Require ''widgets'' [Str ''js/w'']]\<rparr>)"
  by (simp add: loadModules_def config_sections_def loadModules_section_def
      checkPrescription_def all_settled_def widgets_only_def did_def
      initialize_def)

text \<open>
  Claim C1, as amended. When every group of the manifest validates and one dispatched
  group fails (the resolver reports an error, or the timer elapses first),
  \<^verbatim>\<open>loadModules\<close> yields a rejected aggregate outcome and registers nothing: registration
  happens only in the callback of the aggregate promise, which a rejection skips. The
  application is left as it was, up to the requests sent and the error logged, so every
  Container (here the one of any section \<open>s\<close>) holds what it held before the call, and
  the names of a sibling group that did resolve are not registered by it.
\<close>

theorem loadModules_rejected_registers_nothing:
  assumes valid: "list_all (\<lambda>g. list_all (\<lambda>m. isString (snd m)) (snd g)) (config_sections cfg)"
    and g: "g \<in> set (config_sections cfg)"
    and fails: "resolver (fst g) = Errs \<or> resolver (fst g) = Stalls"
  shows "loadModules app cfg resolver =
           (Rejected,
            say [Err ''Generic error - we were not successul in loading all modules for config'']
              (app\<lparr>calls := calls app @ map require_of (config_sections cfg)\<rparr>)) \<and>
         section_container s (snd (loadModules app cfg resolver)) = section_container s app"
proof -
  let ?ps = "map promise_of (config_sections cfg)"
  from fails have "settle False (promise_of g) (resolver (fst (promise_of g))) = None"
    by (auto simp: promise_of_def)
  with g have "None \<in> set (map (\<lambda>p. settle False p (resolver (fst p))) ?ps)"
    by force
  then have "all_settled (map (\<lambda>p. settle False p (resolver (fst p))) ?ps) = None"
    by (rule all_settled_None)
  with dispatch_valid [OF valid, of app]
  have eq: "loadModules app cfg resolver =
           (Rejected,
            say [Err ''Generic error - we were not successul in loading all modules for config'']
              (app\<lparr>calls := calls app @ map require_of (config_sections cfg)\<rparr>))"
    by (simp add: loadModules_def)
  then show ?thesis
    by (simp add: section_container_def say_def)
qed

theorem loadModules_rejected_registers_nothing_witness:
  "list_all (\<lambda>g. list_all (\<lambda>m. isString (snd m)) (snd g)) (config_sections two_groups) \<and>
   (''plugins'', [(''P'', Str ''js/p'')]) \<in> set (config_sections two_groups) \<and>
   widgets_only ''plugins'' = Stalls \<and>
   fst (loadModules (initialize new_BeeHive) two_groups widgets_only) = Rejected \<and>
   section_container ''widgets'' (snd (loadModules (initialize new_BeeHive) two_groups widgets_only)) = []"
proof -
  have v: "list_all (\<lambda>g. list_all (\<lambda>m. isString (snd m)) (snd g)) (config_sections two_groups)"
    by (simp add: config_sections_def two_groups_def)
  have g: "(''plugins'', [(''P'', Str ''js/p'')]) \<in> set (config_sections two_groups)"
    by (simp add: config_sections_def two_groups_def)
  have f: "widgets_only (fst (''plugins'', [(''P'', Str ''js/p'')])) = Errs \<or>
           widgets_only (fst (''plugins'', [(''P'', Str ''js/p'')])) = Stalls"
    by (simp add: widgets_only_def)
  from loadModules_rejected_registers_nothing
         [where cfg = two_groups and resolver = widgets_only and app = "initialize new_BeeHive"
            and s = "''widgets''", OF v g f]
  show ?thesis using v g
    by (simp add: widgets_only_def section_container_def initialize_def say_def)
qed


lemma get_absent_ordinary:
  "map_of c n = None \<Longrightarrow> n \<notin> set object_prototype_names \<Longrightarrow> get ObjectPrototype c n = Inr Undefined"
  by (simp add: get_def object_inherited_def)

lemma ordinary_examples:
  "''W'' \<notin> set object_prototype_names" "''A'' \<notin> set object_prototype_names"
  "''Api'' \<notin> set object_prototype_names" "''Empty'' \<notin> set object_prototype_names"
  by (simp_all add: object_prototype_names_def object_methods_def)

text \<open>
  Claim C1 as stated fails: with the groups \<open>plugins\<close> (which stalls) and \<open>widgets\<close>
  (which resolves), the load is rejected and the widget \<open>W\<close> of the group that resolved
  is not registered.
\<close>

theorem sibling_group_not_registered:
  "fst (loadModules (initialize new_BeeHive) two_groups widgets_only) = Rejected \<and>
   hasWidget (snd (loadModules (initialize new_BeeHive) two_groups widgets_only)) ''W'' = Inr False \<and>
   getWidget (snd (loadModules (initialize new_BeeHive) two_groups widgets_only)) ''W'' = Inr Undefined"
proof -
  have e: "loadModules (initialize new_BeeHive) two_groups widgets_only =
     (Rejected,
      say [Err ''Generic error - we were not successul in loading all modules for config'']
        ((initialize new_BeeHive)\<lparr>calls := [Require ''plugins'' [Str ''js/p''],
                                            Require ''widgets'' [Str ''js/w'']]\<rparr>))"
    by (simp add: loadModules_def config_sections_def two_groups_def widgets_only_def
        loadModules_section_def checkPrescription_def all_settled_def did_def initialize_def)
  have p: "plain ObjectPrototype []" by (simp add: plain_def)
  show ?thesis
    unfolding e
    by (simp add: hasWidget_def getWidget_def initialize_def say_def has_plain [OF p]
        get_absent_ordinary ordinary_examples)
qed

text \<open>
  Claim C5, as amended. When a group of the manifest has an identifier that is not a
  string, the first such group in the order of dispatch makes \<^verbatim>\<open>loadModules\<close> throw
  synchronously: no promise is returned, nothing is registered, and no request is sent
  for that group or a later one. The groups before it, all valid, have been dispatched
  already: their requests are the only trace the call leaves. (A symbolic name is a
  property name, so always a string.)
\<close>

theorem loadModules_invalid_group_throws:
  assumes sections: "config_sections cfg = pre @ g # post"
    and valid: "list_all (\<lambda>h. list_all (\<lambda>m. isString (snd m)) (snd h)) pre"
    and m: "m \<in> set (snd g)" and bad: "\<not> isString (snd m)"
  shows "loadModules app cfg resolver =
           (Threw (Error ''You are kidding me, the key/implementation must be string values''),
            app\<lparr>calls := calls app @ map require_of pre\<rparr>)"
proof -
  from m bad have "\<not> list_all (\<lambda>m. isString (snd m)) (snd g)"
    by (auto simp: list_all_iff)
  from dispatch_invalid [OF valid this, of post app] sections show ?thesis
    by (simp add: loadModules_def)
qed

theorem loadModules_invalid_group_throws_witness:
  "config_sections bad_plugins =
     [(''controllers'', [(''C'', Str ''js/c'')])] @ (''plugins'', [(''P'', Num 5)]) #
     [(''widgets'', [(''W'', Str ''js/w'')])] \<and>
   \<not> isString (Num 5) \<and>
   loadModules (initialize new_BeeHive) bad_plugins widgets_only =
     (Threw (Error ''You are kidding me, the key/implementation must be string values''),
      (initialize new_BeeHive)\<lparr>calls := [Require ''controllers'' [Str ''js/c'']]\<rparr>)"
proof -
  have s: "config_sections bad_plugins =
     [(''controllers'', [(''C'', Str ''js/c'')])] @ (''plugins'', [(''P'', Num 5)]) #
     [(''widgets'', [(''W'', Str ''js/w'')])]"
    by (simp add: config_sections_def core_sections_def bad_plugins_def)
  have v: "list_all (\<lambda>h. list_all (\<lambda>m. isString (snd m)) (snd h)) [(''controllers'', [(''C'', Str ''js/c'')])]"
    by simp
  have m: "(''P'', Num 5) \<in> set (snd (''plugins'', [(''P'', Num 5)]))" by simp
  have b: "\<not> isString (snd (''P'', Num 5))" by simp
  from loadModules_invalid_group_throws
         [where app = "initialize new_BeeHive" and resolver = widgets_only, OF s v m b]
  show ?thesis using s
    by (simp add: require_of_def initialize_def)
qed

text \<open>
  Claim C5 as stated fails: the group \<open>plugins\<close> has the identifier \<open>5\<close>, the call
  throws, and the request for the valid group \<open>controllers\<close>, which comes earlier, has
  been sent.
\<close>

theorem earlier_group_already_dispatched:
  "fst (loadModules (initialize new_BeeHive) bad_plugins widgets_only) =
     Threw (Error ''You are kidding me, the key/implementation must be string values'') \<and>
   calls (snd (loadModules (initialize new_BeeHive) bad_plugins widgets_only)) =
     [Require ''controllers'' [Str ''js/c'']]"
  by (simp add: loadModules_def config_sections_def core_sections_def bad_plugins_def
      loadModules_section_def checkPrescription_def did_def initialize_def)










text \<open>Where instantiable values are those with a \<^verbatim>\<open>prototype\<close> property, the two
  policies agree.\<close>

lemma policies_agree:
  "instantiable v = has_prototype v \<Longrightarrow> spec_instance_policy s key v = instance_policy s key v"
  by (simp add: spec_instance_policy_def instance_policy_def)

subsection \<open>A load that resolves\<close>















lemmas container_eval =
  has_def get_def inherited_hasOwnProperty builtin_test_def add_def put_def remove_def







section \<open>Properties: activation\<close>

lemma did_simps [simp]:
  "calls (did c app) = calls app @ [c]"
  "console (did c app) = console app"
  "a_beehive (did c app) = a_beehive app"
  "a_modules (did c app) = a_modules app"
  "a_controllers (did c app) = a_controllers app"
  "a_widgets (did c app) = a_widgets app"
  "a_plugins (did c app) = a_plugins app"
  "a_widgets_proto (did c app) = a_widgets_proto app"
  "a_plugins_proto (did c app) = a_plugins_proto app"
  "a_barbarianRegistry (did c app) = a_barbarianRegistry app"
  "a_activated (did c app) = a_activated app"
  by (simp_all add: did_def)

lemma say_simps [simp]:
  "calls (say ms app) = calls app"
  "a_beehive (say ms app) = a_beehive app"
  "a_modules (say ms app) = a_modules app"
  "a_controllers (say ms app) = a_controllers app"
  "a_widgets (say ms app) = a_widgets app"
  "a_plugins (say ms app) = a_plugins app"
  "a_widgets_proto (say ms app) = a_widgets_proto app"
  "a_plugins_proto (say ms app) = a_plugins_proto app"
  "a_barbarianRegistry (say ms app) = a_barbarianRegistry app"
  "a_activated (say ms app) = a_activated app"
  by (simp_all add: say_def)

lemma log_activation_error_simps [simp]:
  "calls (log_activation_error name e app) = calls app"
  "console (log_activation_error name e app) =
     console app @ [Err (''Error activating:'' @ name), ErrExn e]"
  "a_beehive (log_activation_error name e app) = a_beehive app"
  "a_modules (log_activation_error name e app) = a_modules app"
  "a_controllers (log_activation_error name e app) = a_controllers app"
  "a_widgets (log_activation_error name e app) = a_widgets app"
  "a_plugins (log_activation_error name e app) = a_plugins app"
  "a_widgets_proto (log_activation_error name e app) = a_widgets_proto app"
  "a_plugins_proto (log_activation_error name e app) = a_plugins_proto app"
  "a_barbarianRegistry (log_activation_error name e app) = a_barbarianRegistry app"
  "a_activated (log_activation_error name e app) = a_activated app"
  by (simp_all add: log_activation_error_def)

lemma getHardenedInstance_simps [simp]:
  "calls (getHardenedInstance app) = calls app @ [GetHardenedInstance (issued (a_beehive app))]"
  "console (getHardenedInstance app) = console app"
  "a_beehive (getHardenedInstance app) = (a_beehive app)\<lparr>issued := Suc (issued (a_beehive app))\<rparr>"
  "a_modules (getHardenedInstance app) = a_modules app"
  "a_controllers (getHardenedInstance app) = a_controllers app"
  "a_widgets (getHardenedInstance app) = a_widgets app"
  "a_plugins (getHardenedInstance app) = a_plugins app"
  "a_widgets_proto (getHardenedInstance app) = a_widgets_proto app"
  "a_plugins_proto (getHardenedInstance app) = a_plugins_proto app"
  "a_barbarianRegistry (getHardenedInstance app) = a_barbarianRegistry app"
  "a_activated (getHardenedInstance app) = a_activated app"
  by (simp_all add: getHardenedInstance_def)

lemma record_barbarian_simps [simp]:
  "calls (record_barbarian t q app) = calls app"
  "console (record_barbarian t q app) = console app"
  "a_beehive (record_barbarian t q app) = a_beehive app"
  "a_modules (record_barbarian t q app) = a_modules app"
  "a_controllers (record_barbarian t q app) = a_controllers app"
  "a_widgets (record_barbarian t q app) = a_widgets app"
  "a_plugins (record_barbarian t q app) = a_plugins app"
  "a_widgets_proto (record_barbarian t q app) = a_widgets_proto app"
  "a_plugins_proto (record_barbarian t q app) = a_plugins_proto app"
  "a_activated (record_barbarian t q app) = a_activated app"
  "a_barbarianRegistry (record_barbarian t q app) k =
     (if t = k \<and> t \<noteq> ''__proto__'' then Some q else a_barbarianRegistry app k)"
  by (simp_all add: record_barbarian_def)

lemma addKey_simps [simp]:
  "calls (addKey s k v app) = calls app"
  "console (addKey s k v app) = console app"
  "a_activated (addKey s k v app) = a_activated app"
  "a_barbarianRegistry (addKey s k v app) = a_barbarianRegistry app"
  by (simp_all add: addKey_def section_set_def)

lemma addKey_widgets [simp]:
  "a_beehive (addKey ''widgets'' k v app) = a_beehive app"
  "a_modules (addKey ''widgets'' k v app) = a_modules app"
  "a_controllers (addKey ''widgets'' k v app) = a_controllers app"
  "a_plugins (addKey ''widgets'' k v app) = a_plugins app"
  "a_plugins_proto (addKey ''widgets'' k v app) = a_plugins_proto app"
  "a_widgets (addKey ''widgets'' k v app) = snd (add k v (a_widgets_proto app, a_widgets app))"
  "a_widgets_proto (addKey ''widgets'' k v app) = fst (add k v (a_widgets_proto app, a_widgets app))"
  by (simp_all add: addKey_def section_set_def section_proto_def section_container_def)

lemma addKey_plugins [simp]:
  "a_beehive (addKey ''plugins'' k v app) = a_beehive app"
  "a_modules (addKey ''plugins'' k v app) = a_modules app"
  "a_controllers (addKey ''plugins'' k v app) = a_controllers app"
  "a_widgets (addKey ''plugins'' k v app) = a_widgets app"
  "a_widgets_proto (addKey ''plugins'' k v app) = a_widgets_proto app"
  "a_plugins (addKey ''plugins'' k v app) = snd (add k v (a_plugins_proto app, a_plugins app))"
  "a_plugins_proto (addKey ''plugins'' k v app) = fst (add k v (a_plugins_proto app, a_plugins app))"
  by (simp_all add: addKey_def section_set_def section_proto_def section_container_def)

lemma failure_cases:
  obtains (skip) "in_activate v = Inr False" "failure v = None" "\<not> invoked v"
  | (typeerror) e where "in_activate v = Inl e" "failure v = Some e" "\<not> invoked v"
  | (notfun) "in_activate v = Inr True" "activate_method v = None"
      "failure v = Some TypeError" "\<not> invoked v"
  | (threw) e where "in_activate v = Inr True" "activate_method v = Some (Inl e)"
      "failure v = Some e" "invoked v"
  | (returned) ch where "in_activate v = Inr True" "activate_method v = Some (Inr ch)"
      "failure v = None" "invoked v"
proof (cases "in_activate v")
  case (Inl e)
  then show ?thesis using typeerror by (simp add: failure_def invoked_def)
next
  case (Inr b)
  show ?thesis
  proof (cases b)
    case False
    with Inr show ?thesis using skip by (simp add: failure_def invoked_def)
  next
    case True
    show ?thesis
    proof (cases "activate_method v")
      case None
      with Inr True show ?thesis using notfun by (simp add: failure_def invoked_def)
    next
      case (Some r)
      with Inr True show ?thesis using threw returned
        by (cases r) (simp_all add: failure_def invoked_def)
    qed
  qed
qed

subsection \<open>Controllers\<close>

lemma controller_calls_append [simp]:
  "controller_calls (xs @ ys) = controller_calls xs @ controller_calls ys"
  by (simp add: controller_calls_def)

lemma activate_controller_ok:
  "failure (snd el) = None \<Longrightarrow>
   activate_controller el app = Inr (app\<lparr>calls := calls app @ controller_calls [el]\<rparr>)"
  by (cases "snd el" rule: failure_cases)
     (simp_all add: activate_controller_def controller_calls_def did_def)

lemma activate_controller_fails:
  "failure (snd el) = Some e \<Longrightarrow>
   activate_controller el app = Inl (e, app\<lparr>calls := calls app @ controller_calls [el]\<rparr>)"
  by (cases "snd el" rule: failure_cases)
     (simp_all add: activate_controller_def controller_calls_def did_def)

lemma activate_controllers_ok:
  "list_all (\<lambda>el. failure (snd el) = None) els \<Longrightarrow>
   activate_controllers els app = Inr (app\<lparr>calls := calls app @ controller_calls els\<rparr>)"
proof (induction els arbitrary: app)
  case Nil
  then show ?case by (simp add: controller_calls_def)
next
  case (Cons el els)
  then have "failure (snd el) = None" and "list_all (\<lambda>el. failure (snd el) = None) els"
    by simp_all
  with Cons.IH show ?case
    using controller_calls_append [of "[el]" els]
    by (simp add: activate_controller_ok del: controller_calls_append)
qed

lemma activate_controllers_fails:
  "list_all (\<lambda>el. failure (snd el) = None) pre \<Longrightarrow> failure (snd el) = Some e \<Longrightarrow>
   activate_controllers (pre @ el # post) app =
     Inl (e, app\<lparr>calls := calls app @ controller_calls (pre @ [el])\<rparr>)"
proof (induction pre arbitrary: app)
  case Nil
  then show ?case by (simp add: activate_controller_fails)
next
  case (Cons c pre)
  then have "failure (snd c) = None" and "list_all (\<lambda>el. failure (snd el) = None) pre"
    by simp_all
  with Cons.IH Cons.prems(2) show ?case
    using controller_calls_append [of "[c]" "pre @ [el]"]
    by (simp add: activate_controller_ok del: controller_calls_append)
qed

subsection \<open>Modules\<close>

lemma module_calls_append [simp]:
  "module_calls (xs @ ys) = module_calls xs @ module_calls ys"
  by (simp add: module_calls_def)

lemma activation_errors_append [simp]:
  "activation_errors (xs @ ys) = activation_errors xs @ activation_errors ys"
  by (simp add: activation_errors_def)

lemma activate_module_eq:
  "activate_module el app =
     app\<lparr>calls := calls app @ module_calls [el],
         console := console app @ activation_errors [el]\<rparr>"
  by (cases "snd el" rule: failure_cases)
     (simp_all add: activate_module_def module_calls_def activation_errors_def did_def
        log_activation_error_def say_def)

lemma fold_activate_module:
  "fold activate_module els app =
     app\<lparr>calls := calls app @ module_calls els,
         console := console app @ activation_errors els\<rparr>"
proof (induction els arbitrary: app)
  case Nil
  then show ?case by (simp add: module_calls_def activation_errors_def)
next
  case (Cons el els)
  have "fold activate_module (el # els) app = fold activate_module els (activate_module el app)"
    by simp
  also have "\<dots> = (activate_module el app)
      \<lparr>calls := calls (activate_module el app) @ module_calls els,
        console := console (activate_module el app) @ activation_errors els\<rparr>"
    by (rule Cons.IH)
  also have "\<dots> = app\<lparr>calls := calls app @ module_calls (el # els),
         console := console app @ activation_errors (el # els)\<rparr>"
    using module_calls_append [of "[el]" els] activation_errors_append [of "[el]" els]
    by (simp add: activate_module_eq del: module_calls_append activation_errors_append)
  finally show ?case .
qed

subsection \<open>Children\<close>

lemma grows_refl [simp]: "grows c c"
  by (simp add: grows_def)

lemma grows_trans: "grows a b \<Longrightarrow> grows b c \<Longrightarrow> grows a c"
  by (simp add: grows_def)

lemma grows_put: "map_of c n = None \<Longrightarrow> grows c (put n x c)"
  by (auto simp: grows_def map_of_put)

text \<open>The name derived for a child has a dash in it.\<close>

lemma child_name_ordinary: "ordinary_name (prefix @ ''-'' @ rest)"
proof -
  have "CHR ''-'' \<in> set (prefix @ ''-'' @ rest)" by simp
  moreover have "CHR ''-'' \<notin> set ''hasOwnProperty''" "CHR ''-'' \<notin> set ''__proto__''"
    by simp_all
  ultimately show ?thesis unfolding ordinary_name_def by metis
qed

text \<open>The ways through one round of \<^verbatim>\<open>_registerBarbarianChildren\<close>.\<close>

lemma registerBarbarianChildren_step:
  obtains
    (notoken) e where "tok = Inl e"
      "registerBarbarianChildren cat prefix ((key, Child nm obj tok) # cs) app = Inl (e, app)"
  | (threw) t e where "tok = Inr t"
      "has (category_proto cat app) (category_container cat app) (child_name prefix key nm) = Inl e"
      "registerBarbarianChildren cat prefix ((key, Child nm obj tok) # cs) app =
         Inl (e, record_barbarian t (cat @ '':'' @ child_name prefix key nm) app)"
  | (collide) t where "tok = Inr t"
      "has (category_proto cat app) (category_container cat app) (child_name prefix key nm) = Inr True"
      "registerBarbarianChildren cat prefix ((key, Child nm obj tok) # cs) app =
         Inl (Error (''There already exists a '' @ category_word cat @ '' with name: '' @
                     child_name prefix key nm),
              record_barbarian t (cat @ '':'' @ child_name prefix key nm) app)"
  | (widget) t where "tok = Inr t" "cat = ''widget''"
      "has (a_widgets_proto app) (a_widgets app) (child_name prefix key nm) = Inr False"
      "registerBarbarianChildren cat prefix ((key, Child nm obj tok) # cs) app =
         registerBarbarianChildren cat prefix cs
           (addKey ''widgets'' (child_name prefix key nm) obj
              (record_barbarian t (cat @ '':'' @ child_name prefix key nm) app))"
  | (plugin) t where "tok = Inr t" "cat \<noteq> ''widget''"
      "has (a_plugins_proto app) (a_plugins app) (child_name prefix key nm) = Inr False"
      "registerBarbarianChildren cat prefix ((key, Child nm obj tok) # cs) app =
         registerBarbarianChildren cat prefix cs
           (addKey ''plugins'' (child_name prefix key nm) obj
              (record_barbarian t (cat @ '':'' @ child_name prefix key nm) app))"
proof (cases tok)
  case (Inl e)
  then show ?thesis using notoken by simp
next
  case (Inr t)
  let ?h = "has (category_proto cat app) (category_container cat app) (child_name prefix key nm)"
  show ?thesis
  proof (cases ?h)
    case (Inl e)
    with Inr show ?thesis using threw [of t e]
      by (cases "cat = ''widget''")
         (simp_all add: child_name_def category_proto_def category_container_def hasWidget_def
            hasPlugin_def Let_def)
  next
    case hb: (Inr b)
    show ?thesis
    proof (cases b)
      case True
      with hb Inr show ?thesis using collide [of t]
        by (cases "cat = ''widget''")
           (simp_all add: child_name_def category_proto_def category_container_def hasWidget_def
              hasPlugin_def category_word_def Let_def)
    next
      case False
      show ?thesis
      proof (cases "cat = ''widget''")
        case w: True
        with False hb Inr show ?thesis using widget [of t]
          by (simp add: child_name_def category_proto_def category_container_def hasWidget_def
              Let_def)
      next
        case p: False
        with False hb Inr show ?thesis using plugin [of t]
          by (simp add: child_name_def category_proto_def category_container_def hasPlugin_def
              Let_def)
      qed
    qed
  qed
qed

text \<open>What \<^verbatim>\<open>_registerBarbarianChildren\<close> leaves alone, whether it throws or not.\<close>

lemma registerBarbarianChildren_frame:
  "calls (final_state (registerBarbarianChildren cat prefix cs app)) = calls app \<and>
   console (final_state (registerBarbarianChildren cat prefix cs app)) = console app \<and>
   a_beehive (final_state (registerBarbarianChildren cat prefix cs app)) = a_beehive app \<and>
   a_modules (final_state (registerBarbarianChildren cat prefix cs app)) = a_modules app \<and>
   a_controllers (final_state (registerBarbarianChildren cat prefix cs app)) = a_controllers app \<and>
   a_activated (final_state (registerBarbarianChildren cat prefix cs app)) = a_activated app \<and>
   (cat = ''widget'' \<longrightarrow>
      a_plugins (final_state (registerBarbarianChildren cat prefix cs app)) = a_plugins app \<and>
      a_plugins_proto (final_state (registerBarbarianChildren cat prefix cs app)) = a_plugins_proto app) \<and>
   (cat \<noteq> ''widget'' \<longrightarrow>
      a_widgets (final_state (registerBarbarianChildren cat prefix cs app)) = a_widgets app \<and>
      a_widgets_proto (final_state (registerBarbarianChildren cat prefix cs app)) = a_widgets_proto app)"
proof (induction cs arbitrary: app)
  case Nil
  then show ?case by (simp add: final_state_def)
next
  case (Cons c cs)
  obtain key nm obj tok where c: "c = (key, Child nm obj tok)"
    by (cases c; cases "snd c") auto
  show ?case
  proof (cases rule: registerBarbarianChildren_step
           [where tok = tok and cat = cat and prefix = prefix and key = key and nm = nm
              and obj = obj and cs = cs and app = app])
    case (notoken e)
    show ?thesis unfolding c notoken(2) by (simp add: final_state_def)
  next
    case (threw t e)
    show ?thesis unfolding c threw(3) by (simp add: final_state_def)
  next
    case (collide t)
    show ?thesis unfolding c collide(3) by (simp add: final_state_def)
  next
    case (widget t)
    from Cons.IH [of "addKey ''widgets'' (child_name prefix key nm) obj
              (record_barbarian t (cat @ '':'' @ child_name prefix key nm) app)"] widget(2)
    show ?thesis unfolding c widget(4) by simp
  next
    case (plugin t)
    from Cons.IH [of "addKey ''plugins'' (child_name prefix key nm) obj
              (record_barbarian t (cat @ '':'' @ child_name prefix key nm) app)"] plugin(2)
    show ?thesis unfolding c plugin(4) by simp
  qed
qed

text \<open>In the usual case the two Containers stay as they are in kind, and only grow.\<close>

lemma registerBarbarianChildren_plain:
  "plain_barbarians app \<Longrightarrow>
   plain_barbarians (final_state (registerBarbarianChildren cat prefix cs app)) \<and>
   grows (a_plugins app) (a_plugins (final_state (registerBarbarianChildren cat prefix cs app))) \<and>
   grows (a_widgets app) (a_widgets (final_state (registerBarbarianChildren cat prefix cs app)))"
proof (induction cs arbitrary: app)
  case Nil
  then show ?case by (simp add: final_state_def)
next
  case (Cons c cs)
  obtain key nm obj tok where c: "c = (key, Child nm obj tok)"
    by (cases c; cases "snd c") auto
  let ?name = "child_name prefix key nm"
  have on: "ordinary_name ?name" unfolding child_name_def by (rule child_name_ordinary)
  from Cons.prems have pw: "plain (a_widgets_proto app) (a_widgets app)"
    and pp: "plain (a_plugins_proto app) (a_plugins app)"
    by (simp_all add: plain_barbarians_def)
  show ?case
  proof (cases rule: registerBarbarianChildren_step
           [where tok = tok and cat = cat and prefix = prefix and key = key and nm = nm
              and obj = obj and cs = cs and app = app])
    case (notoken e)
    from Cons.prems show ?thesis unfolding c notoken(2) by (simp add: final_state_def)
  next
    case (threw t e)
    from Cons.prems show ?thesis
      unfolding c threw(3) by (simp add: final_state_def plain_barbarians_def)
  next
    case (collide t)
    from Cons.prems show ?thesis
      unfolding c collide(3) by (simp add: final_state_def plain_barbarians_def)
  next
    case (widget t)
    let ?app2 = "addKey ''widgets'' ?name obj (record_barbarian t (cat @ '':'' @ ?name) app)"
    from widget(3) pw have absent: "map_of (a_widgets app) ?name = None"
      by (simp add: has_plain)
    from plain_add [of "(a_widgets_proto app, a_widgets app)" ?name obj] pw on
    have ad: "add ?name obj (a_widgets_proto app, a_widgets app) =
                (a_widgets_proto app, put ?name obj (a_widgets app))"
      and pl: "plain (a_widgets_proto app) (put ?name obj (a_widgets app))"
      by simp_all
    from ad pl pp have p2: "plain_barbarians ?app2"
      by (simp add: plain_barbarians_def)
    from ad absent have g2: "grows (a_widgets app) (a_widgets ?app2)" "grows (a_plugins app) (a_plugins ?app2)"
      by (simp_all add: grows_put)
    from Cons.IH [OF p2] g2 show ?thesis
      unfolding c widget(4) by (blast intro: grows_trans)
  next
    case (plugin t)
    let ?app2 = "addKey ''plugins'' ?name obj (record_barbarian t (cat @ '':'' @ ?name) app)"
    from plugin(3) pp have absent: "map_of (a_plugins app) ?name = None"
      by (simp add: has_plain)
    from plain_add [of "(a_plugins_proto app, a_plugins app)" ?name obj] pp on
    have ad: "add ?name obj (a_plugins_proto app, a_plugins app) =
                (a_plugins_proto app, put ?name obj (a_plugins app))"
      and pl: "plain (a_plugins_proto app) (put ?name obj (a_plugins app))"
      by simp_all
    from ad pl pw have p2: "plain_barbarians ?app2"
      by (simp add: plain_barbarians_def)
    from ad absent have g2: "grows (a_widgets app) (a_widgets ?app2)" "grows (a_plugins app) (a_plugins ?app2)"
      by (simp_all add: grows_put)
    from Cons.IH [OF p2] g2 show ?thesis
      unfolding c plugin(4) by (blast intro: grows_trans)
  qed
qed

subsection \<open>Plugins and widgets\<close>

text \<open>The ways through the body of the loop.\<close>

lemma activate_barbarian_cases:
  obtains
    (skip) "in_activate (snd el) = Inr False" "activate_barbarian cat el app = app"
  | (typeerror) e where "in_activate (snd el) = Inl e"
      "activate_barbarian cat el app = log_activation_error (fst el) e app"
  | (notfun) "in_activate (snd el) = Inr True" "activate_method (snd el) = None"
      "activate_barbarian cat el app =
         log_activation_error (fst el) TypeError (getHardenedInstance app)"
  | (threw) e where "in_activate (snd el) = Inr True" "activate_method (snd el) = Some (Inl e)"
      "activate_barbarian cat el app =
         log_activation_error (fst el) e
           (did (Activate cat (fst el) (Hardened (issued (a_beehive app)))) (getHardenedInstance app))"
  | (notoken) ch e where "in_activate (snd el) = Inr True"
      "activate_method (snd el) = Some (Inr ch)"
      "pubsub_id (a_beehive app) (issued (a_beehive app)) = Inl e"
      "activate_barbarian cat el app =
         log_activation_error (fst el) e
           (did (Activate cat (fst el) (Hardened (issued (a_beehive app)))) (getHardenedInstance app))"
  | (recorded) ch token where "in_activate (snd el) = Inr True"
      "activate_method (snd el) = Some (Inr ch)"
      "pubsub_id (a_beehive app) (issued (a_beehive app)) = Inr token"
      "activate_barbarian cat el app =
         (case ch of
            NoChildren \<Rightarrow> with_children cat (fst el) token app
          | Children cs \<Rightarrow>
              (case registerBarbarianChildren cat (fst el) cs (with_children cat (fst el) token app) of
                 Inl x \<Rightarrow> log_activation_error (fst el) (fst x) (snd x)
               | Inr app4 \<Rightarrow> app4))"
proof (cases "snd el" rule: failure_cases)
  case skip
  then show ?thesis using that(1) by (simp add: activate_barbarian_def)
next
  case (typeerror e)
  then show ?thesis using that(2) by (simp add: activate_barbarian_def)
next
  case notfun
  then show ?thesis using that(3) by (simp add: activate_barbarian_def Let_def)
next
  case (threw e)
  then show ?thesis using that(4) by (simp add: activate_barbarian_def Let_def)
next
  case (returned ch)
  show ?thesis
  proof (cases "pubsub_id (a_beehive app) (issued (a_beehive app))")
    case (Inl e)
    with returned show ?thesis using that(5) [of ch e]
      by (simp add: activate_barbarian_def Let_def)
  next
    case (Inr token)
    have "activate_barbarian cat el app =
         (case ch of
            NoChildren \<Rightarrow> with_children cat (fst el) token app
          | Children cs \<Rightarrow>
              (case registerBarbarianChildren cat (fst el) cs (with_children cat (fst el) token app) of
                 Inl x \<Rightarrow> log_activation_error (fst el) (fst x) (snd x)
               | Inr app4 \<Rightarrow> app4))"
      using returned Inr
      by (cases ch) (simp_all add: activate_barbarian_def Let_def with_children_def)
    then show ?thesis by (rule that(6) [OF returned(1,2) Inr])
  qed
qed

lemma with_children_simps [simp]:
  "calls (with_children cat name token app) =
     calls app @ [GetHardenedInstance (issued (a_beehive app)),
                  Activate cat name (Hardened (issued (a_beehive app)))]"
  "console (with_children cat name token app) = console app"
  "a_beehive (with_children cat name token app) =
     (a_beehive app)\<lparr>issued := Suc (issued (a_beehive app))\<rparr>"
  "a_modules (with_children cat name token app) = a_modules app"
  "a_controllers (with_children cat name token app) = a_controllers app"
  "a_widgets (with_children cat name token app) = a_widgets app"
  "a_plugins (with_children cat name token app) = a_plugins app"
  "a_widgets_proto (with_children cat name token app) = a_widgets_proto app"
  "a_plugins_proto (with_children cat name token app) = a_plugins_proto app"
  "a_activated (with_children cat name token app) = a_activated app"
  by (simp_all add: with_children_def)

lemma with_children_registry [simp]:
  "a_barbarianRegistry (with_children cat name token app) k =
     (if token = k \<and> token \<noteq> ''__proto__'' then Some (cat @ '':'' @ name)
      else a_barbarianRegistry app k)"
  by (auto simp: with_children_def)

lemma activate_barbarian_frame:
  "calls (activate_barbarian cat el app) =
     calls app @ barbarian_calls cat (issued (a_beehive app)) [el] \<and>
   a_beehive (activate_barbarian cat el app) =
     (a_beehive app)\<lparr>issued := issued (a_beehive app) + views_for [el]\<rparr> \<and>
   a_modules (activate_barbarian cat el app) = a_modules app \<and>
   a_controllers (activate_barbarian cat el app) = a_controllers app \<and>
   a_activated (activate_barbarian cat el app) = a_activated app \<and>
   (cat = ''widget'' \<longrightarrow> a_plugins (activate_barbarian cat el app) = a_plugins app \<and>
      a_plugins_proto (activate_barbarian cat el app) = a_plugins_proto app) \<and>
   (cat \<noteq> ''widget'' \<longrightarrow> a_widgets (activate_barbarian cat el app) = a_widgets app \<and>
      a_widgets_proto (activate_barbarian cat el app) = a_widgets_proto app) \<and>
   set (console app) \<subseteq> set (console (activate_barbarian cat el app)) \<and>
   (\<forall>e. failure (snd el) = Some e \<longrightarrow>
      Err (''Error activating:'' @ fst el) \<in> set (console (activate_barbarian cat el app)) \<and>
      ErrExn e \<in> set (console (activate_barbarian cat el app)))"
proof (cases cat el app rule: activate_barbarian_cases)
  case skip
  from skip(1) show ?thesis unfolding skip(2) by (simp add: views_for_def failure_def)
next
  case (typeerror e)
  from typeerror(1) show ?thesis unfolding typeerror(2) by (auto simp: views_for_def failure_def)
next
  case notfun
  from notfun(1,2) show ?thesis unfolding notfun(3) by (auto simp: views_for_def failure_def)
next
  case (threw e)
  from threw(1,2) show ?thesis unfolding threw(3) by (auto simp: views_for_def failure_def)
next
  case (notoken ch e)
  from notoken(1,2) show ?thesis unfolding notoken(4) by (auto simp: views_for_def failure_def)
next
  case (recorded ch token)
  let ?app3 = "with_children cat (fst el) token app"
  have f: "failure (snd el) = None"
    using recorded by (simp add: failure_def)
  show ?thesis
  proof (cases ch)
    case NoChildren
    with recorded have eq: "activate_barbarian cat el app = ?app3"
      by simp
    from recorded(1,2) f show ?thesis
      unfolding eq by (simp add: views_for_def)
  next
    case (Children cs)
    note fr = registerBarbarianChildren_frame [of cat "fst el" cs ?app3]
    show ?thesis
    proof (cases "registerBarbarianChildren cat (fst el) cs ?app3")
      case (Inl x)
      with recorded Children
      have eq: "activate_barbarian cat el app = log_activation_error (fst el) (fst x) (snd x)"
        by simp
      from Inl have fs: "final_state (registerBarbarianChildren cat (fst el) cs ?app3) = snd x"
        by (simp add: final_state_def)
      from fr recorded(1,2) f show ?thesis
        unfolding eq fs by (auto simp: views_for_def)
    next
      case (Inr app4)
      with recorded Children
      have eq: "activate_barbarian cat el app = app4"
        by simp
      from Inr have fs: "final_state (registerBarbarianChildren cat (fst el) cs ?app3) = app4"
        by (simp add: final_state_def)
      from fr recorded(1,2) f show ?thesis
        unfolding eq fs by (auto simp: views_for_def)
    qed
  qed
qed

lemma activate_barbarian_plain:
  assumes "plain_barbarians app"
  shows "plain_barbarians (activate_barbarian cat el app) \<and>
         grows (a_plugins app) (a_plugins (activate_barbarian cat el app)) \<and>
         grows (a_widgets app) (a_widgets (activate_barbarian cat el app))"
proof (cases cat el app rule: activate_barbarian_cases)
  case skip
  from assms show ?thesis unfolding skip(2) by simp
next
  case (typeerror e)
  from assms show ?thesis unfolding typeerror(2) by (simp add: plain_barbarians_def)
next
  case notfun
  from assms show ?thesis unfolding notfun(3) by (simp add: plain_barbarians_def)
next
  case (threw e)
  from assms show ?thesis unfolding threw(3) by (simp add: plain_barbarians_def)
next
  case (notoken ch e)
  from assms show ?thesis unfolding notoken(4) by (simp add: plain_barbarians_def)
next
  case (recorded ch token)
  let ?app3 = "with_children cat (fst el) token app"
  from assms have p3: "plain_barbarians ?app3" by (simp add: plain_barbarians_def)
  show ?thesis
  proof (cases ch)
    case NoChildren
    with recorded have eq: "activate_barbarian cat el app = ?app3"
      by simp
    from p3 show ?thesis unfolding eq by simp
  next
    case (Children cs)
    note pl = registerBarbarianChildren_plain [OF p3, of cat "fst el" cs]
    show ?thesis
    proof (cases "registerBarbarianChildren cat (fst el) cs ?app3")
      case (Inl x)
      with recorded Children
      have eq: "activate_barbarian cat el app = log_activation_error (fst el) (fst x) (snd x)"
        by simp
      from Inl have fs: "final_state (registerBarbarianChildren cat (fst el) cs ?app3) = snd x"
        by (simp add: final_state_def)
      from pl show ?thesis
        unfolding eq fs by (simp add: plain_barbarians_def)
    next
      case (Inr app4)
      with recorded Children
      have eq: "activate_barbarian cat el app = app4"
        by simp
      from Inr have fs: "final_state (registerBarbarianChildren cat (fst el) cs ?app3) = app4"
        by (simp add: final_state_def)
      from pl show ?thesis
        unfolding eq fs by simp
    qed
  qed
qed

lemma views_for_append [simp]: "views_for (xs @ ys) = views_for xs + views_for ys"
  by (simp add: views_for_def)

lemma views_for_Cons: "views_for (el # els) = views_for [el] + views_for els"
  by (simp add: views_for_def)

lemma barbarian_calls_Cons:
  "barbarian_calls cat n (el # els) =
     barbarian_calls cat n [el] @ barbarian_calls cat (n + views_for [el]) els"
  by (simp add: views_for_def)

lemma barbarian_calls_append:
  "barbarian_calls cat n (xs @ ys) =
     barbarian_calls cat n xs @ barbarian_calls cat (n + views_for xs) ys"
  by (induction xs arbitrary: n) (simp_all add: views_for_def)

lemma fold_activate_barbarian_frame:
  "calls (fold (activate_barbarian cat) els app) =
     calls app @ barbarian_calls cat (issued (a_beehive app)) els \<and>
   a_beehive (fold (activate_barbarian cat) els app) =
     (a_beehive app)\<lparr>issued := issued (a_beehive app) + views_for els\<rparr> \<and>
   a_modules (fold (activate_barbarian cat) els app) = a_modules app \<and>
   a_controllers (fold (activate_barbarian cat) els app) = a_controllers app \<and>
   a_activated (fold (activate_barbarian cat) els app) = a_activated app \<and>
   (cat = ''widget'' \<longrightarrow> a_plugins (fold (activate_barbarian cat) els app) = a_plugins app \<and>
      a_plugins_proto (fold (activate_barbarian cat) els app) = a_plugins_proto app) \<and>
   (cat \<noteq> ''widget'' \<longrightarrow> a_widgets (fold (activate_barbarian cat) els app) = a_widgets app \<and>
      a_widgets_proto (fold (activate_barbarian cat) els app) = a_widgets_proto app) \<and>
   set (console app) \<subseteq> set (console (fold (activate_barbarian cat) els app))"
proof (induction els arbitrary: app)
  case Nil
  then show ?case by (simp add: views_for_def)
next
  case (Cons el els)
  let ?app1 = "activate_barbarian cat el app"
  note st = activate_barbarian_frame [of cat el app]
  note ih = Cons.IH [of ?app1]
  have f: "fold (activate_barbarian cat) (el # els) app = fold (activate_barbarian cat) els ?app1"
    by simp
  from st have i: "issued (a_beehive ?app1) = issued (a_beehive app) + views_for [el]"
    by simp
  have c: "calls (fold (activate_barbarian cat) els ?app1) =
           calls app @ barbarian_calls cat (issued (a_beehive app)) (el # els)"
    using ih st i barbarian_calls_Cons [of cat "issued (a_beehive app)" el els] by simp
  have b: "a_beehive (fold (activate_barbarian cat) els ?app1) =
           (a_beehive app)\<lparr>issued := issued (a_beehive app) + views_for (el # els)\<rparr>"
    using ih st views_for_Cons [of el els] by simp
  from ih st have s: "set (console app) \<subseteq> set (console (fold (activate_barbarian cat) els ?app1))"
    by blast
  from ih st c b s show ?case
    unfolding f by simp
qed

lemma fold_activate_barbarian_plain:
  "plain_barbarians app \<Longrightarrow>
   plain_barbarians (fold (activate_barbarian cat) els app) \<and>
   grows (a_plugins app) (a_plugins (fold (activate_barbarian cat) els app)) \<and>
   grows (a_widgets app) (a_widgets (fold (activate_barbarian cat) els app))"
proof (induction els arbitrary: app)
  case Nil
  then show ?case by simp
next
  case (Cons el els)
  note st = activate_barbarian_plain [OF Cons.prems, of cat el]
  from st have "plain_barbarians (activate_barbarian cat el app)" by simp
  from Cons.IH [OF this] st show ?case
    by (auto intro: grows_trans)
qed

subsection \<open>The cascade\<close>

lemma activate_aborts_in_registry:
  "on_activate (a_beehive app) = Some e \<Longrightarrow>
   activate app = Inl (e, app\<lparr>calls := calls app @ [BeehiveActivate]\<rparr>)"
  by (simp add: activate_def Let_def did_def)

lemma activate_aborts_in_controllers:
  assumes "on_activate (a_beehive app) = None"
    and "a_controllers app = pre @ el # post"
    and "list_all (\<lambda>el. failure (snd el) = None) pre" and "failure (snd el) = Some e"
  shows "activate app =
           Inl (e, app\<lparr>calls := calls app @ BeehiveActivate # controller_calls (pre @ [el])\<rparr>)"
proof -
  from activate_controllers_fails [OF assms(3,4), of post "did BeehiveActivate app"] assms(1,2)
  show ?thesis
    by (simp add: activate_def Let_def getAllControllers_def did_def)
qed

lemma activate_completes:
  assumes "on_activate (a_beehive app) = None"
    and "list_all (\<lambda>el. failure (snd el) = None) (a_controllers app)"
  shows "activate app =
           Inr ((fold (activate_barbarian ''widget'') (a_widgets app)
                  (fold (activate_barbarian ''plugin'') (a_plugins app)
                    (fold activate_module (a_modules app)
                      (app\<lparr>calls := calls app @ BeehiveActivate # controller_calls (a_controllers app)\<rparr>))))
                \<lparr>a_activated := True\<rparr>)"
proof -
  let ?app1 = "app\<lparr>calls := calls app @ BeehiveActivate # controller_calls (a_controllers app)\<rparr>"
  let ?app2 = "fold activate_module (a_modules app) ?app1"
  let ?app3 = "fold (activate_barbarian ''plugin'') (a_plugins app) ?app2"
  have c: "activate_controllers (a_controllers app) (did BeehiveActivate app) = Inr ?app1"
    using activate_controllers_ok [OF assms(2), of "did BeehiveActivate app"]
    by (simp add: did_def)
  have m: "a_modules ?app1 = a_modules app" by simp
  have p: "a_plugins ?app2 = a_plugins app"
    by (simp add: fold_activate_module)
  have "a_widgets ?app3 = a_widgets ?app2"
    using fold_activate_barbarian_frame [of "''plugin''" "a_plugins app" ?app2] by simp
  then have w: "a_widgets ?app3 = a_widgets app"
    by (simp add: fold_activate_module)
  from assms(1) c m p w show ?thesis
    by (simp add: activate_def Let_def getAllControllers_def getAllModules_def
        getAllPlugins_def getAllWidgets_def)
qed

text \<open>The calls of a completed cascade, and what it logs.\<close>

lemma activate_completes_calls:
  assumes "on_activate (a_beehive app) = None"
    and "list_all (\<lambda>el. failure (snd el) = None) (a_controllers app)"
  shows "\<exists>app'. activate app = Inr app' \<and> a_activated app' \<and>
           calls app' =
             calls app @ BeehiveActivate # controller_calls (a_controllers app) @
               module_calls (a_modules app) @
               barbarian_calls ''plugin'' (issued (a_beehive app)) (a_plugins app) @
               barbarian_calls ''widget'' (issued (a_beehive app) + views_for (a_plugins app))
                 (a_widgets app) \<and>
           issued (a_beehive app') =
             issued (a_beehive app) + views_for (a_plugins app) + views_for (a_widgets app) \<and>
           a_controllers app' = a_controllers app \<and> a_modules app' = a_modules app \<and>
           set (console app) \<union> set (activation_errors (a_modules app)) \<subseteq> set (console app')"
proof -
  let ?app1 = "app\<lparr>calls := calls app @ BeehiveActivate # controller_calls (a_controllers app)\<rparr>"
  let ?app2 = "fold activate_module (a_modules app) ?app1"
  let ?app3 = "fold (activate_barbarian ''plugin'') (a_plugins app) ?app2"
  let ?app4 = "fold (activate_barbarian ''widget'') (a_widgets app) ?app3"
  note a = activate_completes [OF assms]
  note f3 = fold_activate_barbarian_frame [of "''plugin''" "a_plugins app" ?app2]
  note f4 = fold_activate_barbarian_frame [of "''widget''" "a_widgets app" ?app3]
  have c2: "calls ?app2 = calls app @ BeehiveActivate # controller_calls (a_controllers app) @
               module_calls (a_modules app)"
    by (simp add: fold_activate_module)
  have b2: "a_beehive ?app2 = a_beehive app"
    by (simp add: fold_activate_module)
  have k2: "console ?app2 = console app @ activation_errors (a_modules app)"
    by (simp add: fold_activate_module)
  have o2: "a_controllers ?app2 = a_controllers app" "a_modules ?app2 = a_modules app"
    "a_plugins ?app2 = a_plugins app" "a_widgets ?app2 = a_widgets app"
    by (simp_all add: fold_activate_module)
  from f3 b2 have i3: "issued (a_beehive ?app3) = issued (a_beehive app) + views_for (a_plugins app)"
    by simp
  from f3 c2 b2 have c3: "calls ?app3 = calls app @ BeehiveActivate #
      controller_calls (a_controllers app) @ module_calls (a_modules app) @
      barbarian_calls ''plugin'' (issued (a_beehive app)) (a_plugins app)"
    by simp
  from f4 c3 i3 have c4: "calls ?app4 = calls app @ BeehiveActivate #
      controller_calls (a_controllers app) @ module_calls (a_modules app) @
      barbarian_calls ''plugin'' (issued (a_beehive app)) (a_plugins app) @
      barbarian_calls ''widget'' (issued (a_beehive app) + views_for (a_plugins app)) (a_widgets app)"
    by simp
  from f4 i3 have i4: "issued (a_beehive ?app4) =
      issued (a_beehive app) + views_for (a_plugins app) + views_for (a_widgets app)"
    by simp
  from f3 f4 o2 have o4: "a_controllers ?app4 = a_controllers app" "a_modules ?app4 = a_modules app"
    by simp_all
  from f3 f4 k2 have k4: "set (console app) \<union> set (activation_errors (a_modules app)) \<subseteq> set (console ?app4)"
    by auto
  from a c4 i4 o4 k4 show ?thesis by simp
qed

lemma hardened_calls_Nil [simp]: "hardened_calls cat n [] = []"
  by (simp add: hardened_calls_def)

lemma hardened_calls_Cons:
  "hardened_calls cat n (x # xs) =
     GetHardenedInstance n # Activate cat x (Hardened n) # hardened_calls cat (Suc n) xs"
proof -
  have "n < n + length (x # xs)" by simp
  then have "[n ..< n + length (x # xs)] = n # [Suc n ..< n + length (x # xs)]"
    by (rule upt_conv_Cons)
  then have "[n ..< n + length (x # xs)] = n # [Suc n ..< Suc n + length xs]"
    by simp
  then show ?thesis by (simp add: hardened_calls_def)
qed

lemma succeeding_invoked:
  "failure v = None \<Longrightarrow> invoked v = (in_activate v = Inr True)"
  by (cases v rule: failure_cases) simp_all

lemma controller_calls_succeeding:
  "list_all (\<lambda>el. failure (snd el) = None) els \<Longrightarrow>
   controller_calls els = map (\<lambda>n. Activate ''controller'' n ElevatedAndApp) (activating els)"
  by (induction els) (simp_all add: controller_calls_def activating_def succeeding_invoked)

lemma module_calls_succeeding:
  "list_all (\<lambda>el. failure (snd el) = None) els \<Longrightarrow>
   module_calls els = map (\<lambda>n. Activate ''module'' n Elevated) (activating els)"
  by (induction els) (simp_all add: module_calls_def activating_def succeeding_invoked)

lemma barbarian_calls_succeeding:
  "list_all (\<lambda>el. failure (snd el) = None) els \<Longrightarrow>
   barbarian_calls cat n els = hardened_calls cat n (activating els)"
proof (induction els arbitrary: n)
  case Nil
  then show ?case by (simp add: activating_def)
next
  case (Cons el els)
  then have ok: "failure (snd el) = None" and rest: "list_all (\<lambda>el. failure (snd el) = None) els"
    by simp_all
  show ?case
  proof (cases "in_activate (snd el) = Inr True")
    case True
    with ok have "activate_method (snd el) \<noteq> None"
      using succeeding_invoked [of "snd el"] by (simp add: invoked_def)
    with True Cons.IH [OF rest] show ?thesis
      by (simp add: activating_def hardened_calls_Cons)
  next
    case False
    with Cons.IH [OF rest] show ?thesis by (simp add: activating_def)
  qed
qed

lemma views_for_activating: "views_for els = length (activating els)"
  by (simp add: views_for_def activating_def)

text \<open>
  Claim C4. In a run of \<^verbatim>\<open>activate\<close> in which the registry's own \<^verbatim>\<open>activate\<close> and that of
  every controller, module, plugin and widget succeeds, the calls are made one after
  the other in this order: the registry's \<^verbatim>\<open>activate\<close>; \<^verbatim>\<open>activate(beehive, app)\<close> of every
  controller that has one; \<^verbatim>\<open>activate(beehive)\<close> of every module that has one; for every
  plugin that has one, a call of \<^verbatim>\<open>getHardenedInstance\<close> and then its \<^verbatim>\<open>activate\<close> with
  the view just created; the same for every widget, after all plugins. No two of them
  receive the same view: the views are numbered consecutively. The call then returns
  with the activation flag set; the flag is set nowhere else.
\<close>

theorem activation_order:
  assumes "on_activate (a_beehive app) = None"
    and "list_all (\<lambda>el. failure (snd el) = None)
           (a_controllers app @ a_modules app @ a_plugins app @ a_widgets app)"
  shows "\<exists>app'. activate app = Inr app' \<and> isActivated app' \<and>
           calls app' =
             calls app @ BeehiveActivate #
               map (\<lambda>n. Activate ''controller'' n ElevatedAndApp) (activating (a_controllers app)) @
               map (\<lambda>n. Activate ''module'' n Elevated) (activating (a_modules app)) @
               hardened_calls ''plugin'' (issued (a_beehive app)) (activating (a_plugins app)) @
               hardened_calls ''widget''
                 (issued (a_beehive app) + length (activating (a_plugins app)))
                 (activating (a_widgets app))"
proof -
  from assms(2) have c: "list_all (\<lambda>el. failure (snd el) = None) (a_controllers app)"
    and m: "list_all (\<lambda>el. failure (snd el) = None) (a_modules app)"
    and p: "list_all (\<lambda>el. failure (snd el) = None) (a_plugins app)"
    and w: "list_all (\<lambda>el. failure (snd el) = None) (a_widgets app)"
    by simp_all
  from activate_completes_calls [OF assms(1) c] show ?thesis
    by (auto simp: isActivated_def controller_calls_succeeding [OF c] module_calls_succeeding [OF m]
        barbarian_calls_succeeding [OF p] barbarian_calls_succeeding [OF w] views_for_activating)
qed

lemma example_failures [simp]:
  "failure (quiet i) = None" "failure inert = None" "failure (throwing i) = Some Thrown"
  "failure (spawning i cs) = None"
  "in_activate (quiet i) = Inr True" "in_activate inert = Inr False"
  "in_activate (throwing i) = Inr True" "in_activate (spawning i cs) = Inr True"
  "invoked (quiet i)" "\<not> invoked inert" "invoked (throwing i)" "invoked (spawning i cs)"
  "activate_method (quiet i) = Some (Inr NoChildren)"
  "activate_method (throwing i) = Some (Inl Thrown)"
  "activate_method (spawning i cs) = Some (Inr (Children cs))"
  by (simp_all add: failure_def invoked_def activate_method_def found_def quiet_def inert_def
      throwing_def spawning_def activate_function_def)

theorem activation_order_witness:
  "on_activate (a_beehive all_quiet) = None \<and>
   list_all (\<lambda>el. failure (snd el) = None)
     (a_controllers all_quiet @ a_modules all_quiet @ a_plugins all_quiet @ a_widgets all_quiet) \<and>
   isActivated (projr (activate all_quiet)) \<and>
   calls (projr (activate all_quiet)) =
     [BeehiveActivate, Activate ''controller'' ''QueryMediator'' ElevatedAndApp,
      Activate ''module'' ''A'' Elevated,
      GetHardenedInstance 0, Activate ''plugin'' ''P'' (Hardened 0),
      GetHardenedInstance 1, Activate ''widget'' ''W'' (Hardened 1),
      GetHardenedInstance 2, Activate ''widget'' ''Y'' (Hardened 2)]"
proof -
  have b: "on_activate (a_beehive all_quiet) = None"
    by (simp add: all_quiet_def initialize_def new_BeeHive_def)
  have ok: "list_all (\<lambda>el. failure (snd el) = None)
     (a_controllers all_quiet @ a_modules all_quiet @ a_plugins all_quiet @ a_widgets all_quiet)"
    by (simp add: all_quiet_def initialize_def)
  from activation_order [OF b ok] obtain app' where
    r: "activate all_quiet = Inr app'" and a: "isActivated app'" and
    c: "calls app' =
             calls all_quiet @ BeehiveActivate #
               map (\<lambda>n. Activate ''controller'' n ElevatedAndApp) (activating (a_controllers all_quiet)) @
               map (\<lambda>n. Activate ''module'' n Elevated) (activating (a_modules all_quiet)) @
               hardened_calls ''plugin'' (issued (a_beehive all_quiet)) (activating (a_plugins all_quiet)) @
               hardened_calls ''widget''
                 (issued (a_beehive all_quiet) + length (activating (a_plugins all_quiet)))
                 (activating (a_widgets all_quiet))"
    by blast
  from c have "calls app' =
     [BeehiveActivate, Activate ''controller'' ''QueryMediator'' ElevatedAndApp,
      Activate ''module'' ''A'' Elevated,
      GetHardenedInstance 0, Activate ''plugin'' ''P'' (Hardened 0),
      GetHardenedInstance 1, Activate ''widget'' ''W'' (Hardened 1),
      GetHardenedInstance 2, Activate ''widget'' ''Y'' (Hardened 2)]"
    by (simp add: all_quiet_def initialize_def new_BeeHive_def activating_def hardened_calls_Cons)
  with b ok r a show ?thesis by simp
qed

lemma module_calls_member:
  "el \<in> set els \<Longrightarrow> invoked (snd el) \<Longrightarrow>
   Activate ''module'' (fst el) Elevated \<in> set (module_calls els)"
  by (auto simp: module_calls_def)

lemma activation_errors_member:
  "el \<in> set els \<Longrightarrow> failure (snd el) = Some e \<Longrightarrow>
   Err (''Error activating:'' @ fst el) \<in> set (activation_errors els) \<and>
   ErrExn e \<in> set (activation_errors els)"
  by (force simp: activation_errors_def)

lemma barbarian_calls_member:
  "el \<in> set els \<Longrightarrow> invoked (snd el) \<Longrightarrow>
   \<exists>k. Activate cat (fst el) (Hardened k) \<in> set (barbarian_calls cat n els)"
proof (induction els arbitrary: n)
  case Nil
  then show ?case by simp
next
  case (Cons x xs)
  show ?case
  proof (cases "el = x")
    case True
    with Cons.prems(2) show ?thesis by (auto simp: invoked_def)
  next
    case False
    with Cons.prems have "el \<in> set xs" by simp
    from Cons.IH [OF this Cons.prems(2)] show ?thesis
      by (cases "in_activate (snd x) = Inr True") auto
  qed
qed

lemma barbarian_calls_Activate:
  "Activate c name arg \<in> set (barbarian_calls cat n els) \<Longrightarrow>
   c = cat \<and> (\<exists>v. (name, v) \<in> set els \<and> invoked v)"
proof (induction els arbitrary: n)
  case Nil
  then show ?case by simp
next
  case (Cons x xs)
  show ?case
  proof (cases "in_activate (snd x) = Inr True")
    case True
    show ?thesis
    proof (cases "activate_method (snd x) \<noteq> None")
      case m: True
      from Cons.prems True m
      have "(c = cat \<and> name = fst x) \<or> Activate c name arg \<in> set (barbarian_calls cat (Suc n) xs)"
        by auto
      then show ?thesis
      proof
        assume "c = cat \<and> name = fst x"
        moreover from True m have "invoked (snd x)" by (simp add: invoked_def)
        ultimately show ?thesis by (cases x) auto
      next
        assume "Activate c name arg \<in> set (barbarian_calls cat (Suc n) xs)"
        from Cons.IH [OF this] show ?thesis by auto
      qed
    next
      case False
      with Cons.prems True
      have "Activate c name arg \<in> set (barbarian_calls cat (Suc n) xs)" by auto
      from Cons.IH [OF this] show ?thesis by auto
    qed
  next
    case False
    with Cons.prems have "Activate c name arg \<in> set (barbarian_calls cat n xs)" by auto
    from Cons.IH [OF this] show ?thesis by auto
  qed
qed

lemma fold_activate_barbarian_logs:
  "el \<in> set els \<Longrightarrow> failure (snd el) = Some e \<Longrightarrow>
   Err (''Error activating:'' @ fst el) \<in> set (console (fold (activate_barbarian cat) els app)) \<and>
   ErrExn e \<in> set (console (fold (activate_barbarian cat) els app))"
proof (induction els arbitrary: app)
  case Nil
  then show ?case by simp
next
  case (Cons x xs)
  show ?case
  proof (cases "el = x")
    case True
    from activate_barbarian_frame [of cat el app] Cons.prems(2)
    have "Err (''Error activating:'' @ fst el) \<in> set (console (activate_barbarian cat el app)) \<and>
          ErrExn e \<in> set (console (activate_barbarian cat el app))"
      by blast
    moreover from fold_activate_barbarian_frame [of cat xs "activate_barbarian cat el app"]
    have "set (console (activate_barbarian cat el app)) \<subseteq>
          set (console (fold (activate_barbarian cat) xs (activate_barbarian cat el app)))"
      by blast
    ultimately show ?thesis using True by auto
  next
    case False
    with Cons.prems have "el \<in> set xs" by simp
    from Cons.IH [OF this Cons.prems(2), of "activate_barbarian cat x app"] show ?thesis
      by simp
  qed
qed

lemma activate_completes_logs:
  assumes "on_activate (a_beehive app) = None"
    and "list_all (\<lambda>el. failure (snd el) = None) (a_controllers app)"
    and "activate app = Inr app'"
    and "el \<in> set (a_modules app) \<union> set (a_plugins app) \<union> set (a_widgets app)"
    and "failure (snd el) = Some e"
  shows "Err (''Error activating:'' @ fst el) \<in> set (console app') \<and> ErrExn e \<in> set (console app')"
proof -
  let ?app1 = "app\<lparr>calls := calls app @ BeehiveActivate # controller_calls (a_controllers app)\<rparr>"
  let ?app2 = "fold activate_module (a_modules app) ?app1"
  let ?app3 = "fold (activate_barbarian ''plugin'') (a_plugins app) ?app2"
  let ?app4 = "fold (activate_barbarian ''widget'') (a_widgets app) ?app3"
  from activate_completes [OF assms(1,2)] assms(3) have k: "console app' = console ?app4"
    by auto
  note f3 = fold_activate_barbarian_frame [of "''plugin''" "a_plugins app" ?app2]
  note f4 = fold_activate_barbarian_frame [of "''widget''" "a_widgets app" ?app3]
  have k2: "console ?app2 = console app @ activation_errors (a_modules app)"
    by (simp add: fold_activate_module)
  from assms(4) consider "el \<in> set (a_modules app)" | "el \<in> set (a_plugins app)"
    | "el \<in> set (a_widgets app)" by blast
  then show ?thesis
  proof cases
    case 1
    from activation_errors_member [OF 1 assms(5)] k2 f3 f4 show ?thesis
      unfolding k by auto
  next
    case 2
    from fold_activate_barbarian_logs [OF 2 assms(5), of "''plugin''" ?app2] f4 show ?thesis
      unfolding k by blast
  next
    case 3
    from fold_activate_barbarian_logs [OF 3 assms(5), of "''widget''" ?app3] show ?thesis
      unfolding k by blast
  qed
qed

text \<open>
  Claim C3. When the registry's own \<^verbatim>\<open>activate\<close> has gone through: a throw from the
  \<^verbatim>\<open>activate\<close> of a controller leaves \<^verbatim>\<open>activate\<close> with that exception, after the calls
  of the controllers up to the one that threw and of nothing else (no later controller,
  no module, no plugin, no widget), and with the activation flag as it was. When no
  controller throws, the cascade completes whatever the modules, plugins and widgets
  do: \<^verbatim>\<open>isActivated()\<close> is true, every module, plugin and widget with an \<^verbatim>\<open>activate\<close> to
  call has had it called, and for each of them that threw the error is logged.
\<close>

theorem activation_failure_isolation:
  assumes "on_activate (a_beehive app) = None"
  shows "(\<forall>pre el post e.
            a_controllers app = pre @ el # post \<and>
            list_all (\<lambda>c. failure (snd c) = None) pre \<and>
            in_activate (snd el) = Inr True \<and> activate_method (snd el) = Some (Inl e) \<longrightarrow>
            activate app =
              Inl (e, app\<lparr>calls := calls app @ BeehiveActivate # controller_calls (pre @ [el])\<rparr>)) \<and>
         (list_all (\<lambda>c. failure (snd c) = None) (a_controllers app) \<longrightarrow>
            (\<exists>app'. activate app = Inr app' \<and> isActivated app' \<and>
               (\<forall>el \<in> set (a_modules app). invoked (snd el) \<longrightarrow>
                  Activate ''module'' (fst el) Elevated \<in> set (calls app')) \<and>
               (\<forall>el \<in> set (a_plugins app). invoked (snd el) \<longrightarrow>
                  (\<exists>k. Activate ''plugin'' (fst el) (Hardened k) \<in> set (calls app'))) \<and>
               (\<forall>el \<in> set (a_widgets app). invoked (snd el) \<longrightarrow>
                  (\<exists>k. Activate ''widget'' (fst el) (Hardened k) \<in> set (calls app'))) \<and>
               (\<forall>el e. el \<in> set (a_modules app) \<union> set (a_plugins app) \<union> set (a_widgets app) \<and>
                        failure (snd el) = Some e \<longrightarrow>
                  Err (''Error activating:'' @ fst el) \<in> set (console app') \<and>
                  ErrExn e \<in> set (console app'))))"
proof (intro conjI allI impI)
  fix pre el post e
  assume a: "a_controllers app = pre @ el # post \<and>
            list_all (\<lambda>c. failure (snd c) = None) pre \<and>
            in_activate (snd el) = Inr True \<and> activate_method (snd el) = Some (Inl e)"
  then have "failure (snd el) = Some e" by (simp add: failure_def)
  with a activate_aborts_in_controllers [OF assms, of pre el post e]
  show "activate app =
          Inl (e, app\<lparr>calls := calls app @ BeehiveActivate # controller_calls (pre @ [el])\<rparr>)"
    by simp
next
  assume c: "list_all (\<lambda>c. failure (snd c) = None) (a_controllers app)"
  from activate_completes_calls [OF assms c] obtain app' where
    r: "activate app = Inr app'" and act: "a_activated app'" and
    cs: "calls app' =
             calls app @ BeehiveActivate # controller_calls (a_controllers app) @
               module_calls (a_modules app) @
               barbarian_calls ''plugin'' (issued (a_beehive app)) (a_plugins app) @
               barbarian_calls ''widget'' (issued (a_beehive app) + views_for (a_plugins app))
                 (a_widgets app)"
    by blast
  have m: "\<forall>el \<in> set (a_modules app). invoked (snd el) \<longrightarrow>
                  Activate ''module'' (fst el) Elevated \<in> set (calls app')"
    using module_calls_member cs by auto
  have p: "\<forall>el \<in> set (a_plugins app). invoked (snd el) \<longrightarrow>
                  (\<exists>k. Activate ''plugin'' (fst el) (Hardened k) \<in> set (calls app'))"
  proof (intro ballI impI)
    fix el assume "el \<in> set (a_plugins app)" "invoked (snd el)"
    from barbarian_calls_member [OF this, of "''plugin''" "issued (a_beehive app)"] cs
    show "\<exists>k. Activate ''plugin'' (fst el) (Hardened k) \<in> set (calls app')" by auto
  qed
  have w: "\<forall>el \<in> set (a_widgets app). invoked (snd el) \<longrightarrow>
                  (\<exists>k. Activate ''widget'' (fst el) (Hardened k) \<in> set (calls app'))"
  proof (intro ballI impI)
    fix el assume "el \<in> set (a_widgets app)" "invoked (snd el)"
    from barbarian_calls_member [OF this, of "''widget''"
           "issued (a_beehive app) + views_for (a_plugins app)"] cs
    show "\<exists>k. Activate ''widget'' (fst el) (Hardened k) \<in> set (calls app')" by auto
  qed
  have l: "\<forall>el e. el \<in> set (a_modules app) \<union> set (a_plugins app) \<union> set (a_widgets app) \<and>
                        failure (snd el) = Some e \<longrightarrow>
                  Err (''Error activating:'' @ fst el) \<in> set (console app') \<and>
                  ErrExn e \<in> set (console app')"
    using activate_completes_logs [OF assms c r] by blast
  from r act m p w l
  show "\<exists>app'. activate app = Inr app' \<and> isActivated app' \<and>
               (\<forall>el \<in> set (a_modules app). invoked (snd el) \<longrightarrow>
                  Activate ''module'' (fst el) Elevated \<in> set (calls app')) \<and>
               (\<forall>el \<in> set (a_plugins app). invoked (snd el) \<longrightarrow>
                  (\<exists>k. Activate ''plugin'' (fst el) (Hardened k) \<in> set (calls app'))) \<and>
               (\<forall>el \<in> set (a_widgets app). invoked (snd el) \<longrightarrow>
                  (\<exists>k. Activate ''widget'' (fst el) (Hardened k) \<in> set (calls app'))) \<and>
               (\<forall>el e. el \<in> set (a_modules app) \<union> set (a_plugins app) \<union> set (a_widgets app) \<and>
                        failure (snd el) = Some e \<longrightarrow>
                  Err (''Error activating:'' @ fst el) \<in> set (console app') \<and>
                  ErrExn e \<in> set (console app'))"
    unfolding isActivated_def by blast
qed

theorem activation_failure_isolation_witness:
  "on_activate (a_beehive controller_throws) = None \<and>
   on_activate (a_beehive loaded) = None \<and>
   activate controller_throws =
     Inl (Thrown, controller_throws
            \<lparr>calls := [BeehiveActivate, Activate ''controller'' ''X'' ElevatedAndApp,
                       Activate ''controller'' ''Z'' ElevatedAndApp]\<rparr>) \<and>
   \<not> isl (activate loaded) \<and> isActivated (projr (activate loaded)) \<and>
   Activate ''module'' ''C'' Elevated \<in> set (calls (projr (activate loaded))) \<and>
   Err ''Error activating:B'' \<in> set (console (projr (activate loaded))) \<and>
   Err ''Error activating:W'' \<in> set (console (projr (activate loaded)))"
proof -
  have b1: "on_activate (a_beehive controller_throws) = None"
    by (simp add: controller_throws_def loaded_def initialize_def new_BeeHive_def)
  have b2: "on_activate (a_beehive loaded) = None"
    by (simp add: loaded_def initialize_def new_BeeHive_def)
  have "a_controllers controller_throws = [(''X'', quiet 0)] @ (''Z'', throwing 1) # [(''U'', quiet 2)] \<and>
        list_all (\<lambda>c. failure (snd c) = None) [(''X'', quiet 0)] \<and>
        in_activate (snd (''Z'', throwing 1)) = Inr True \<and>
        activate_method (snd (''Z'', throwing 1)) = Some (Inl Thrown)"
    by (simp add: controller_throws_def)
  with activation_failure_isolation [OF b1]
  have "activate controller_throws =
          Inl (Thrown, controller_throws\<lparr>calls := calls controller_throws @ BeehiveActivate #
                 controller_calls ([(''X'', quiet 0)] @ [(''Z'', throwing 1)])\<rparr>)"
    by blast
  then have 1: "activate controller_throws =
     Inl (Thrown, controller_throws
            \<lparr>calls := [BeehiveActivate, Activate ''controller'' ''X'' ElevatedAndApp,
                       Activate ''controller'' ''Z'' ElevatedAndApp]\<rparr>)"
    by (simp add: controller_calls_def controller_throws_def loaded_def initialize_def)
  have c: "list_all (\<lambda>c. failure (snd c) = None) (a_controllers loaded)"
    by (simp add: loaded_def initialize_def)
  with activation_failure_isolation [OF b2] obtain app' where
    r: "activate loaded = Inr app'" and a: "isActivated app'" and
    m: "\<forall>el \<in> set (a_modules loaded). invoked (snd el) \<longrightarrow>
                  Activate ''module'' (fst el) Elevated \<in> set (calls app')" and
    l: "\<forall>el e. el \<in> set (a_modules loaded) \<union> set (a_plugins loaded) \<union> set (a_widgets loaded) \<and>
                        failure (snd el) = Some e \<longrightarrow>
                  Err (''Error activating:'' @ fst el) \<in> set (console app') \<and>
                  ErrExn e \<in> set (console app')"
    by blast
  have "(''C'', quiet 4) \<in> set (a_modules loaded)" by (simp add: loaded_def initialize_def)
  with m have 2: "Activate ''module'' ''C'' Elevated \<in> set (calls app')" by force
  have "(''B'', throwing 3) \<in> set (a_modules loaded) \<union> set (a_plugins loaded) \<union> set (a_widgets loaded)"
    by (simp add: loaded_def initialize_def)
  with l have 3: "Err ''Error activating:B'' \<in> set (console app')" by force
  have "(''W'', throwing 7) \<in> set (a_modules loaded) \<union> set (a_plugins loaded) \<union> set (a_widgets loaded)"
    by (simp add: loaded_def initialize_def)
  with l have 4: "Err ''Error activating:W'' \<in> set (console app')" by force
  from b1 b2 1 r a 2 3 4 show ?thesis by simp
qed

text \<open>
  Claim C10. A plugin or widget without an \<^verbatim>\<open>activate\<close> property is passed over: its
  round of the loop leaves the application exactly as it was, so no view is created
  for it, no entry of the barbarian registry is written for it and nothing is
  registered from it. The cascade, which reaches the plugins once the registry and the
  controllers have been activated without a throw, still completes with
  \<^verbatim>\<open>isActivated()\<close> true, and among its calls there is no \<^verbatim>\<open>activate\<close> of that name in
  the tier of the entry.
\<close>

theorem inert_barbarian_skipped:
  assumes "in_activate v = Inr False"
  shows "activate_barbarian ''plugin'' (name, v) app = app \<and>
         activate_barbarian ''widget'' (name, v) app = app \<and>
         (on_activate (a_beehive app) = None \<and>
          list_all (\<lambda>c. failure (snd c) = None) (a_controllers app) \<longrightarrow>
          (\<exists>app'. activate app = Inr app' \<and> isActivated app' \<and>
             ((name, v) \<in> set (a_plugins app) \<and> distinct (map fst (a_plugins app)) \<longrightarrow>
                (\<forall>arg. Activate ''plugin'' name arg \<notin> set (drop (length (calls app)) (calls app')))) \<and>
             ((name, v) \<in> set (a_widgets app) \<and> distinct (map fst (a_widgets app)) \<longrightarrow>
                (\<forall>arg. Activate ''widget'' name arg \<notin> set (drop (length (calls app)) (calls app'))))))"
proof (intro conjI impI)
  from assms show "activate_barbarian ''plugin'' (name, v) app = app"
    by (simp add: activate_barbarian_def)
  from assms show "activate_barbarian ''widget'' (name, v) app = app"
    by (simp add: activate_barbarian_def)
next
  assume h: "on_activate (a_beehive app) = None \<and>
             list_all (\<lambda>c. failure (snd c) = None) (a_controllers app)"
  from assms have ni: "\<not> invoked v" by (simp add: invoked_def)
  from h activate_completes_calls [of app] obtain app' where
    r: "activate app = Inr app'" and act: "a_activated app'" and
    cs: "calls app' =
             calls app @ BeehiveActivate # controller_calls (a_controllers app) @
               module_calls (a_modules app) @
               barbarian_calls ''plugin'' (issued (a_beehive app)) (a_plugins app) @
               barbarian_calls ''widget'' (issued (a_beehive app) + views_for (a_plugins app))
                 (a_widgets app)"
    by blast
  let ?new = "BeehiveActivate # controller_calls (a_controllers app) @
               module_calls (a_modules app) @
               barbarian_calls ''plugin'' (issued (a_beehive app)) (a_plugins app) @
               barbarian_calls ''widget'' (issued (a_beehive app) + views_for (a_plugins app))
                 (a_widgets app)"
  from cs have d: "drop (length (calls app)) (calls app') = ?new" by simp
  have p: "(name, v) \<in> set (a_plugins app) \<and> distinct (map fst (a_plugins app)) \<longrightarrow>
           (\<forall>arg. Activate ''plugin'' name arg \<notin> set (drop (length (calls app)) (calls app')))"
  proof (intro impI allI notI)
    fix arg
    assume m: "(name, v) \<in> set (a_plugins app) \<and> distinct (map fst (a_plugins app))"
    assume "Activate ''plugin'' name arg \<in> set (drop (length (calls app)) (calls app'))"
    then have "Activate ''plugin'' name arg \<in> set ?new" unfolding d .
    then have "Activate ''plugin'' name arg
                 \<in> set (barbarian_calls ''plugin'' (issued (a_beehive app)) (a_plugins app)) \<or>
               Activate ''plugin'' name arg
                 \<in> set (barbarian_calls ''widget'' (issued (a_beehive app) + views_for (a_plugins app))
                          (a_widgets app))"
      by (auto simp: controller_calls_def module_calls_def)
    then show False
    proof
      assume "Activate ''plugin'' name arg
                 \<in> set (barbarian_calls ''plugin'' (issued (a_beehive app)) (a_plugins app))"
      from barbarian_calls_Activate [OF this] obtain v' where
        "(name, v') \<in> set (a_plugins app)" "invoked v'" by blast
      with m ni show False by (auto dest: eq_key_imp_eq_value)
    next
      assume "Activate ''plugin'' name arg
                 \<in> set (barbarian_calls ''widget'' (issued (a_beehive app) + views_for (a_plugins app))
                          (a_widgets app))"
      from barbarian_calls_Activate [OF this] show False by simp
    qed
  qed
  have w: "(name, v) \<in> set (a_widgets app) \<and> distinct (map fst (a_widgets app)) \<longrightarrow>
           (\<forall>arg. Activate ''widget'' name arg \<notin> set (drop (length (calls app)) (calls app')))"
  proof (intro impI allI notI)
    fix arg
    assume m: "(name, v) \<in> set (a_widgets app) \<and> distinct (map fst (a_widgets app))"
    assume "Activate ''widget'' name arg \<in> set (drop (length (calls app)) (calls app'))"
    then have "Activate ''widget'' name arg \<in> set ?new" unfolding d .
    then have "Activate ''widget'' name arg
                 \<in> set (barbarian_calls ''plugin'' (issued (a_beehive app)) (a_plugins app)) \<or>
               Activate ''widget'' name arg
                 \<in> set (barbarian_calls ''widget'' (issued (a_beehive app) + views_for (a_plugins app))
                          (a_widgets app))"
      by (auto simp: controller_calls_def module_calls_def)
    then show False
    proof
      assume "Activate ''widget'' name arg
                 \<in> set (barbarian_calls ''plugin'' (issued (a_beehive app)) (a_plugins app))"
      from barbarian_calls_Activate [OF this] show False by simp
    next
      assume "Activate ''widget'' name arg
                 \<in> set (barbarian_calls ''widget'' (issued (a_beehive app) + views_for (a_plugins app))
                          (a_widgets app))"
      from barbarian_calls_Activate [OF this] obtain v' where
        "(name, v') \<in> set (a_widgets app)" "invoked v'" by blast
      with m ni show False by (auto dest: eq_key_imp_eq_value)
    qed
  qed
  from r act p w
  show "\<exists>app'. activate app = Inr app' \<and> isActivated app' \<and>
             ((name, v) \<in> set (a_plugins app) \<and> distinct (map fst (a_plugins app)) \<longrightarrow>
                (\<forall>arg. Activate ''plugin'' name arg \<notin> set (drop (length (calls app)) (calls app')))) \<and>
             ((name, v) \<in> set (a_widgets app) \<and> distinct (map fst (a_widgets app)) \<longrightarrow>
                (\<forall>arg. Activate ''widget'' name arg \<notin> set (drop (length (calls app)) (calls app'))))"
    unfolding isActivated_def by blast
qed

theorem inert_barbarian_skipped_witness:
  "in_activate inert = Inr False \<and>
   activate_barbarian ''plugin'' (''Q'', inert) loaded = loaded \<and>
   on_activate (a_beehive loaded) = None \<and>
   list_all (\<lambda>c. failure (snd c) = None) (a_controllers loaded) \<and>
   (''Q'', inert) \<in> set (a_plugins loaded) \<and> distinct (map fst (a_plugins loaded)) \<and>
   \<not> isl (activate loaded) \<and> isActivated (projr (activate loaded)) \<and>
   Activate ''plugin'' ''Q'' (Hardened 1) \<notin> set (calls (projr (activate loaded)))"
proof -
  have i: "in_activate inert = Inr False" by simp
  note t = inert_barbarian_skipped [OF i, of "''Q''" loaded]
  have b: "on_activate (a_beehive loaded) = None"
    by (simp add: loaded_def initialize_def new_BeeHive_def)
  have c: "list_all (\<lambda>c. failure (snd c) = None) (a_controllers loaded)"
    by (simp add: loaded_def initialize_def)
  have q: "(''Q'', inert) \<in> set (a_plugins loaded)" "distinct (map fst (a_plugins loaded))"
    by (simp_all add: loaded_def initialize_def)
  have e: "calls loaded = []" by (simp add: loaded_def initialize_def)
  from t b c q obtain app' where
    r: "activate loaded = Inr app'" and a: "isActivated app'" and
    n: "\<forall>arg. Activate ''plugin'' ''Q'' arg \<notin> set (drop (length (calls loaded)) (calls app'))"
    by blast
  from n e have "Activate ''plugin'' ''Q'' (Hardened 1) \<notin> set (calls app')" by simp
  with t i b c q r a show ?thesis by simp
qed

subsection \<open>A child whose name is taken\<close>

lemma registerBarbarianChildren_append:
  "registerBarbarianChildren cat prefix (pre @ cs) app =
     (case registerBarbarianChildren cat prefix pre app of
        Inl x \<Rightarrow> Inl x
      | Inr app1 \<Rightarrow> registerBarbarianChildren cat prefix cs app1)"
proof (induction pre arbitrary: app)
  case Nil
  then show ?case by simp
next
  case (Cons c pre)
  obtain key nm obj tok where c: "c = (key, Child nm obj tok)"
    by (cases c; cases "snd c") auto
  show ?case
  proof (cases rule: registerBarbarianChildren_step
           [where tok = tok and cat = cat and prefix = prefix and key = key and nm = nm
              and obj = obj and cs = "pre @ cs" and app = app])
    case (notoken e)
    then show ?thesis unfolding c by simp
  next
    case (threw t e)
    then show ?thesis
      unfolding c
      by (cases "cat = ''widget''")
         (simp_all add: child_name_def category_proto_def category_container_def hasWidget_def
            hasPlugin_def Let_def)
  next
    case (collide t)
    then show ?thesis
      unfolding c
      by (cases "cat = ''widget''")
         (simp_all add: child_name_def category_proto_def category_container_def hasWidget_def
            hasPlugin_def Let_def)
  next
    case (widget t)
    from widget(1,2,3) Cons.IH show ?thesis
      unfolding c
      by (simp add: child_name_def hasWidget_def Let_def)
  next
    case (plugin t)
    from plugin(1,2,3) Cons.IH show ?thesis
      unfolding c
      by (simp add: child_name_def hasPlugin_def Let_def)
  qed
qed

lemma registerBarbarianChildren_collision:
  assumes "has (category_proto cat app) (category_container cat app) (child_name prefix key nm) = Inr True"
  shows "registerBarbarianChildren cat prefix ((key, Child nm obj (Inr t)) # cs) app =
           Inl (Error (''There already exists a '' @ category_word cat @ '' with name: '' @
                       child_name prefix key nm),
                record_barbarian t (cat @ '':'' @ child_name prefix key nm) app)"
  using assms
  by (cases "cat = ''widget''")
     (simp_all add: category_container_def category_proto_def category_word_def child_name_def
        hasWidget_def hasPlugin_def Let_def)

text \<open>Whatever \<^verbatim>\<open>_registerBarbarianChildren\<close> throws in the round of a plugin or widget
  is caught there and logged.\<close>

lemma activate_barbarian_catches:
  assumes "in_activate (snd el) = Inr True"
    and "activate_method (snd el) = Some (Inr (Children cs))"
    and "pubsub_id (a_beehive app) (issued (a_beehive app)) = Inr token"
    and "registerBarbarianChildren cat (fst el) cs (with_children cat (fst el) token app) = Inl (e, s)"
  shows "activate_barbarian cat el app = log_activation_error (fst el) e s"
proof (cases cat el app rule: activate_barbarian_cases)
  case skip
  with assms(1) show ?thesis by simp
next
  case (typeerror e)
  with assms(1) show ?thesis by simp
next
  case notfun
  with assms(2) show ?thesis by simp
next
  case (threw e)
  with assms(2) show ?thesis by simp
next
  case (notoken ch e)
  with assms(3) show ?thesis by simp
next
  case (recorded ch token')
  from recorded(2) assms(2) have ch: "ch = Children cs" by simp
  from recorded(3) assms(3) have tk: "token' = token" by simp
  show ?thesis
    unfolding recorded(4) ch tk children.case assms(4) by simp
qed

lemma fold_console_grows:
  "set (console app) \<subseteq> set (console (fold (activate_barbarian cat) els app))"
  using fold_activate_barbarian_frame [of cat els app] by blast

lemma cascade_keeps_log:
  assumes b: "on_activate (a_beehive app) = None"
    and c: "list_all (\<lambda>c. failure (snd c) = None) (a_controllers app)"
    and k: "cat = ''plugin'' \<or> cat = ''widget''"
    and els: "category_container cat app = before @ el # rest"
    and m: "m \<in> set (console (activate_barbarian cat el (reached cat app before)))"
  shows "\<exists>app'. activate app = Inr app' \<and> isActivated app' \<and> m \<in> set (console app')"
proof -
  let ?app1 = "app\<lparr>calls := calls app @ BeehiveActivate # controller_calls (a_controllers app)\<rparr>"
  let ?app2 = "fold activate_module (a_modules app) ?app1"
  let ?app3 = "fold (activate_barbarian ''plugin'') (a_plugins app) ?app2"
  let ?app4 = "fold (activate_barbarian ''widget'') (a_widgets app) ?app3"
  note a = activate_completes [OF b c]
  have "m \<in> set (console ?app4)"
  proof (cases "cat = ''widget''")
    case True
    with els have w: "a_widgets app = before @ el # rest" by (simp add: category_container_def)
    from True have r: "reached cat app before = fold (activate_barbarian ''widget'') before ?app3"
      by (simp add: reached_def Let_def)
    have "?app4 = fold (activate_barbarian ''widget'') rest
                    (activate_barbarian ''widget'' el (fold (activate_barbarian ''widget'') before ?app3))"
      unfolding w by simp
    with m r True fold_console_grows [of "activate_barbarian ''widget'' el
        (fold (activate_barbarian ''widget'') before ?app3)" "''widget''" rest]
    show ?thesis by auto
  next
    case False
    with k have cp: "cat = ''plugin''" by simp
    with els have p: "a_plugins app = before @ el # rest" by (simp add: category_container_def)
    from cp have r: "reached cat app before = fold (activate_barbarian ''plugin'') before ?app2"
      by (simp add: reached_def Let_def)
    have "?app3 = fold (activate_barbarian ''plugin'') rest
                    (activate_barbarian ''plugin'' el (fold (activate_barbarian ''plugin'') before ?app2))"
      unfolding p by simp
    with m r cp fold_console_grows [of "activate_barbarian ''plugin'' el
        (fold (activate_barbarian ''plugin'') before ?app2)" "''plugin''" rest]
    have "m \<in> set (console ?app3)" by auto
    with fold_console_grows [of ?app3 "''widget''" "a_widgets app"] show ?thesis by blast
  qed
  with a show ?thesis by (simp add: isActivated_def)
qed

text \<open>
  Claim C2, as amended. When the name derived for a child, the parent's name, a dash and
  the child's name or else its key, is one that the Container of the category reports as
  held at the moment the child is reached, the children before it having been
  registered, and the child reports its token, \<^verbatim>\<open>_registerBarbarianChildren\<close> throws the
  collision error at that child: the application is left as the children before it made
  it, up to the registry entry of the child, so neither the child nor the children after
  it are registered. Inside \<^verbatim>\<open>activate\<close> the error does not reach the caller: the call
  stands in the \<^verbatim>\<open>try\<close> of the plugin's or widget's round, so, in a cascade that gets
  that far (the registry and the controllers do not throw; the parent's view reports
  its token), the error is caught and logged as a failure to activate the parent, and
  the cascade goes on and completes with the activation flag set.
\<close>

theorem child_collision_thrown_then_caught:
  assumes "registerBarbarianChildren cat prefix pre s = Inr s'"
    and "has (category_proto cat s') (category_container cat s') (child_name prefix key nm) = Inr True"
  shows "registerBarbarianChildren cat prefix (pre @ (key, Child nm obj (Inr t)) # post) s =
           Inl (Error (''There already exists a '' @ category_word cat @ '' with name: '' @
                       child_name prefix key nm),
                record_barbarian t (cat @ '':'' @ child_name prefix key nm) s') \<and>
         ((cat = ''plugin'' \<or> cat = ''widget'') \<and>
          on_activate (a_beehive app) = None \<and>
          list_all (\<lambda>c. failure (snd c) = None) (a_controllers app) \<and>
          category_container cat app = before @ el # rest \<and> prefix = fst el \<and>
          in_activate (snd el) = Inr True \<and>
          activate_method (snd el) =
            Some (Inr (Children (pre @ (key, Child nm obj (Inr t)) # post))) \<and>
          pubsub_id (a_beehive (reached cat app before))
            (issued (a_beehive (reached cat app before))) = Inr token \<and>
          s = with_children cat (fst el) token (reached cat app before) \<longrightarrow>
          (\<exists>app'. activate app = Inr app' \<and> isActivated app' \<and>
             Err (''Error activating:'' @ fst el) \<in> set (console app') \<and>
             ErrExn (Error (''There already exists a '' @ category_word cat @ '' with name: '' @
                            child_name prefix key nm)) \<in> set (console app')))"
proof (intro conjI impI)
  let ?E = "Error (''There already exists a '' @ category_word cat @ '' with name: '' @
                       child_name prefix key nm)"
  let ?s = "record_barbarian t (cat @ '':'' @ child_name prefix key nm) s'"
  show thrown: "registerBarbarianChildren cat prefix (pre @ (key, Child nm obj (Inr t)) # post) s =
           Inl (?E, ?s)"
    unfolding registerBarbarianChildren_append assms(1)
    using registerBarbarianChildren_collision [OF assms(2), of obj t post] by simp
  assume h: "(cat = ''plugin'' \<or> cat = ''widget'') \<and>
          on_activate (a_beehive app) = None \<and>
          list_all (\<lambda>c. failure (snd c) = None) (a_controllers app) \<and>
          category_container cat app = before @ el # rest \<and> prefix = fst el \<and>
          in_activate (snd el) = Inr True \<and>
          activate_method (snd el) =
            Some (Inr (Children (pre @ (key, Child nm obj (Inr t)) # post))) \<and>
          pubsub_id (a_beehive (reached cat app before))
            (issued (a_beehive (reached cat app before))) = Inr token \<and>
          s = with_children cat (fst el) token (reached cat app before)"
  then have k: "cat = ''plugin'' \<or> cat = ''widget''"
    and b: "on_activate (a_beehive app) = None"
    and c: "list_all (\<lambda>c. failure (snd c) = None) (a_controllers app)"
    and els: "category_container cat app = before @ el # rest"
    and pf: "prefix = fst el"
    and i: "in_activate (snd el) = Inr True"
    and m: "activate_method (snd el) =
              Some (Inr (Children (pre @ (key, Child nm obj (Inr t)) # post)))"
    and tk: "pubsub_id (a_beehive (reached cat app before))
               (issued (a_beehive (reached cat app before))) = Inr token"
    and s: "s = with_children cat (fst el) token (reached cat app before)"
    by simp_all
  from thrown pf s
  have "registerBarbarianChildren cat (fst el) (pre @ (key, Child nm obj (Inr t)) # post)
          (with_children cat (fst el) token (reached cat app before)) = Inl (?E, ?s)"
    by simp
  from activate_barbarian_catches [OF i m tk this]
  have r: "activate_barbarian cat el (reached cat app before) = log_activation_error (fst el) ?E ?s" .
  have 1: "Err (''Error activating:'' @ fst el)
             \<in> set (console (activate_barbarian cat el (reached cat app before)))"
    and 2: "ErrExn ?E \<in> set (console (activate_barbarian cat el (reached cat app before)))"
    unfolding r by simp_all
  from cascade_keeps_log [OF b c k els 1] cascade_keeps_log [OF b c k els 2]
  show "\<exists>app'. activate app = Inr app' \<and> isActivated app' \<and>
             Err (''Error activating:'' @ fst el) \<in> set (console app') \<and>
             ErrExn ?E \<in> set (console app')"
    by auto
qed

lemma with_twins_reached:
  "reached ''plugin'' with_twins [(''Q'', quiet 1)] =
     with_children ''plugin'' ''Q'' ''key'' (with_twins\<lparr>calls := [BeehiveActivate]\<rparr>)"
  by (simp add: reached_def Let_def with_twins_def initialize_def new_BeeHive_def
      controller_calls_def module_calls_def activation_errors_def activate_barbarian_def
      with_children_def)

lemma with_twins_facts:
  "on_activate (a_beehive with_twins) = None"
  "list_all (\<lambda>c. failure (snd c) = None) (a_controllers with_twins)"
  "category_container ''plugin'' with_twins = [(''Q'', quiet 1)] @ (''P'', spawning 5 twins) # []"
  "pubsub_id (a_beehive (reached ''plugin'' with_twins [(''Q'', quiet 1)]))
     (issued (a_beehive (reached ''plugin'' with_twins [(''Q'', quiet 1)]))) = Inr ''key+''"
  "a_plugins (reached ''plugin'' with_twins [(''Q'', quiet 1)]) =
     [(''Q'', quiet 1), (''P'', spawning 5 twins)]"
  "a_plugins_proto (reached ''plugin'' with_twins [(''Q'', quiet 1)]) = ObjectPrototype"
  unfolding with_twins_reached
  by (simp_all add: with_twins_def initialize_def new_BeeHive_def category_container_def)

theorem child_collision_thrown_then_caught_witness:
  "registerBarbarianChildren ''plugin'' ''P''
     [(''x'', Child None (Obj [(''id'', Num 6)]) (Inr ''child-x''))]
     (with_children ''plugin'' ''P'' ''key+'' (reached ''plugin'' with_twins [(''Q'', quiet 1)])) =
     Inr (addKey ''plugins'' ''P-x'' (Obj [(''id'', Num 6)])
            (record_barbarian ''child-x'' ''plugin:P-x''
               (with_children ''plugin'' ''P'' ''key+''
                  (reached ''plugin'' with_twins [(''Q'', quiet 1)])))) \<and>
   child_name ''P'' ''y'' (Some ''x'') = ''P-x'' \<and>
   hasPlugin
     (addKey ''plugins'' ''P-x'' (Obj [(''id'', Num 6)])
        (record_barbarian ''child-x'' ''plugin:P-x''
           (with_children ''plugin'' ''P'' ''key+''
              (reached ''plugin'' with_twins [(''Q'', quiet 1)])))) ''P-x'' = Inr True \<and>
   registerBarbarianChildren ''plugin'' ''P'' twins
     (with_children ''plugin'' ''P'' ''key+'' (reached ''plugin'' with_twins [(''Q'', quiet 1)])) =
     Inl (Error ''There already exists a plugin with name: P-x'',
          record_barbarian ''child-y'' ''plugin:P-x''
            (addKey ''plugins'' ''P-x'' (Obj [(''id'', Num 6)])
               (record_barbarian ''child-x'' ''plugin:P-x''
                  (with_children ''plugin'' ''P'' ''key+''
                     (reached ''plugin'' with_twins [(''Q'', quiet 1)]))))) \<and>
   \<not> isl (activate with_twins) \<and> isActivated (projr (activate with_twins)) \<and>
   Err ''Error activating:P'' \<in> set (console (projr (activate with_twins))) \<and>
   ErrExn (Error ''There already exists a plugin with name: P-x'')
     \<in> set (console (projr (activate with_twins)))"
proof -
  let ?r = "reached ''plugin'' with_twins [(''Q'', quiet 1)]"
  let ?s = "with_children ''plugin'' ''P'' ''key+'' ?r"
  let ?s' = "addKey ''plugins'' ''P-x'' (Obj [(''id'', Num 6)])
               (record_barbarian ''child-x'' ''plugin:P-x'' ?s)"
  let ?el = "(''P'', spawning 5 twins)"
  have pre: "registerBarbarianChildren ''plugin'' ''P''
               [(''x'', Child None (Obj [(''id'', Num 6)]) (Inr ''child-x''))] ?s = Inr ?s'"
    by (simp add: Let_def hasPlugin_def with_twins_facts container_eval)
  have n: "child_name ''P'' ''y'' (Some ''x'') = ''P-x''" by (simp add: child_name_def)
  have held: "has (category_proto ''plugin'' ?s') (category_container ''plugin'' ?s')
                (child_name ''P'' ''y'' (Some ''x'')) = Inr True"
    unfolding n
    by (simp add: category_proto_def category_container_def with_twins_facts container_eval)
  then have hp: "hasPlugin ?s' ''P-x'' = Inr True"
    unfolding n by (simp add: hasPlugin_def category_proto_def category_container_def)
  note t = child_collision_thrown_then_caught
             [OF pre held, where obj = "Obj [(''id'', Num 7)]" and t = "''child-y''"
                and post = "[(''z'', Child None (Obj [(''id'', Num 8)]) (Inr ''child-z''))]"
                and app = with_twins and before = "[(''Q'', quiet 1)]" and el = ?el
                and rest = "[]" and token = "''key+''"]
  have tw: "[(''x'', Child None (Obj [(''id'', Num 6)]) (Inr ''child-x''))] @
            (''y'', Child (Some ''x'') (Obj [(''id'', Num 7)]) (Inr ''child-y'')) #
            [(''z'', Child None (Obj [(''id'', Num 8)]) (Inr ''child-z''))] = twins"
    by (simp add: twins_def)
  from t have 1: "registerBarbarianChildren ''plugin'' ''P'' twins ?s =
     Inl (Error ''There already exists a plugin with name: P-x'',
          record_barbarian ''child-y'' ''plugin:P-x'' ?s')"
    unfolding tw n by (simp add: category_word_def)
  have h: "(''plugin'' = ''plugin'' \<or> ''plugin'' = ''widget'') \<and>
          on_activate (a_beehive with_twins) = None \<and>
          list_all (\<lambda>c. failure (snd c) = None) (a_controllers with_twins) \<and>
          category_container ''plugin'' with_twins = [(''Q'', quiet 1)] @ ?el # [] \<and>
          ''P'' = fst ?el \<and>
          in_activate (snd ?el) = Inr True \<and>
          activate_method (snd ?el) = Some (Inr (Children twins)) \<and>
          pubsub_id (a_beehive ?r) (issued (a_beehive ?r)) = Inr ''key+'' \<and>
          ?s = with_children ''plugin'' (fst ?el) ''key+'' ?r"
    using with_twins_facts(1-4) by simp
  from t h obtain app' where
    "activate with_twins = Inr app'" "isActivated app'"
    "Err (''Error activating:'' @ fst ?el) \<in> set (console app')"
    "ErrExn (Error (''There already exists a '' @ category_word ''plugin'' @ '' with name: '' @
                    child_name ''P'' ''y'' (Some ''x''))) \<in> set (console app')"
    unfolding tw by blast
  then have 2: "\<not> isl (activate with_twins)" "isActivated (projr (activate with_twins))"
    "Err ''Error activating:P'' \<in> set (console (projr (activate with_twins)))"
    "ErrExn (Error ''There already exists a plugin with name: P-x'')
       \<in> set (console (projr (activate with_twins)))"
    unfolding n by (simp_all add: category_word_def)
  from pre n hp 1 2 show ?thesis by simp
qed

lemmas activation_eval =
  activate_def Let_def getAllControllers_def getAllModules_def getAllPlugins_def
  getAllWidgets_def activate_controller_def activate_module_def activate_barbarian_def
  log_activation_error_def record_barbarian_def hasPlugin_def hasWidget_def addKey_def
  section_set_def section_proto_def section_container_def did_def say_def
  getHardenedInstance_def

text \<open>
  Claim C2 as stated fails: the plugin \<open>P\<close> returns the child \<open>x\<close> while a plugin \<open>P-x\<close>
  is registered. \<^verbatim>\<open>activate\<close> does not throw: it returns, with the activation flag set,
  and the widgets after the plugin have been activated.
\<close>

theorem collision_swallowed_by_cascade:
  "hasPlugin collides ''P-x'' = Inr True \<and>
   \<not> isl (activate collides) \<and> isActivated (projr (activate collides)) \<and>
   Activate ''widget'' ''Y'' (Hardened 2) \<in> set (calls (projr (activate collides)))"
  by (simp add: activation_eval container_eval collides_def loaded_def initialize_def
      new_BeeHive_def isActivated_def)

section \<open>Properties: lookup by token\<close>

lemma split_colon_not_Nil [simp]: "split_colon s \<noteq> []"
  by (induction s) simp_all

lemma hd_split_colon: "hd (split_colon s) = takeWhile (\<lambda>c. c \<noteq> CHR '':'') s"
  by (induction s) simp_all

lemma split_colon_prefix:
  "CHR '':'' \<notin> set a \<Longrightarrow> split_colon (a @ CHR '':'' # b) = a # split_colon b"
  by (induction a) auto

lemma key1_qualified:
  assumes "CHR '':'' \<notin> set cat"
  shows "key1 (cat @ '':'' @ n) = takeWhile (\<lambda>c. c \<noteq> CHR '':'') n"
proof -
  from assms have "split_colon (cat @ '':'' @ n) = cat # split_colon n"
    using split_colon_prefix [of cat n] by simp
  moreover obtain b rest where "split_colon n = b # rest"
    by (cases "split_colon n") auto
  ultimately show ?thesis
    using hd_split_colon [of n] by (simp add: key1_def)
qed

lemma key1_plain:
  assumes "CHR '':'' \<notin> set cat" and "CHR '':'' \<notin> set n"
  shows "key1 (cat @ '':'' @ n) = n"
proof -
  from assms(2) have "takeWhile (\<lambda>c. c \<noteq> CHR '':'') n = n"
    by (induction n) auto
  with key1_qualified [OF assms(1), of n] show ?thesis by simp
qed

text \<open>What the registry answers to a token, and what the lookup makes of it.\<close>

lemma name_no_entry:
  "a_barbarianRegistry app token = None \<Longrightarrow> token \<notin> set object_prototype_names \<Longrightarrow>
   getPluginOrWidgetName app token = Undefined"
  by (simp add: getPluginOrWidgetName_def object_inherited_def)

lemma name_inherited:
  "a_barbarianRegistry app token = None \<Longrightarrow> token \<in> set object_prototype_names \<Longrightarrow>
   getPluginOrWidgetName app token = Builtin ''Object'' token"
  by (simp add: getPluginOrWidgetName_def object_inherited_def)

lemma name_entry:
  "a_barbarianRegistry app token = Some (cat @ '':'' @ n) \<Longrightarrow>
   getPluginOrWidgetName app token = Str (cat @ '':'' @ n)"
  by (simp add: getPluginOrWidgetName_def)

lemma lookup_no_entry:
  "a_barbarianRegistry app token = None \<Longrightarrow> token \<notin> set object_prototype_names \<Longrightarrow>
   getPluginOrWidgetByPubSubKey app token = Inr Undefined"
  by (simp add: getPluginOrWidgetByPubSubKey_def name_no_entry)

text \<open>A token that names something every object inherits, with no entry of its own:
  the registry answers with that built-in value, which has no \<^verbatim>\<open>split\<close>.\<close>

lemma lookup_inherited:
  "a_barbarianRegistry app token = None \<Longrightarrow> token \<in> set object_prototype_names \<Longrightarrow>
   getPluginOrWidgetByPubSubKey app token = Inl TypeError"
  by (simp add: getPluginOrWidgetByPubSubKey_def name_inherited)

lemma lookup_name_plain:
  assumes "plain_barbarians app"
  shows "lookup_name app token n =
           (case map_of (a_widgets app) n of
              Some w \<Rightarrow> Inr w
            | None \<Rightarrow>
                (case map_of (a_plugins app) n of
                   Some p \<Rightarrow> Inr p
                 | None \<Rightarrow>
                     Inl (Error (''Eeeek, thisis unexpectEED bEhAvjor! Cant find barbarian with ID: '' @ token))))"
proof -
  from assms have w: "has (a_widgets_proto app) (a_widgets app) n = Inr (map_of (a_widgets app) n \<noteq> None)"
    and p: "has (a_plugins_proto app) (a_plugins app) n = Inr (map_of (a_plugins app) n \<noteq> None)"
    by (simp_all add: plain_barbarians_def has_plain)
  show ?thesis
  proof (cases "map_of (a_widgets app) n")
    case (Some x)
    with w show ?thesis by (simp add: lookup_name_def get_own)
  next
    case None
    show ?thesis
    proof (cases "map_of (a_plugins app) n")
      case (Some x)
      with None w p show ?thesis by (simp add: lookup_name_def get_own)
    next
      case n: None
      with None w p show ?thesis by (simp add: lookup_name_def)
    qed
  qed
qed

lemma lookup_entry:
  assumes "a_barbarianRegistry app token = Some (cat @ '':'' @ n)"
    and "CHR '':'' \<notin> set cat" and "CHR '':'' \<notin> set n" and "plain_barbarians app"
  shows "getPluginOrWidgetByPubSubKey app token =
           (case map_of (a_widgets app) n of
              Some w \<Rightarrow> Inr w
            | None \<Rightarrow>
                (case map_of (a_plugins app) n of
                   Some p \<Rightarrow> Inr p
                 | None \<Rightarrow>
                     Inl (Error (''Eeeek, thisis unexpectEED bEhAvjor! Cant find barbarian with ID: '' @ token))))"
proof -
  from name_entry [OF assms(1)] key1_plain [OF assms(2,3)]
  have "getPluginOrWidgetByPubSubKey app token = lookup_name app token n"
    by (simp add: getPluginOrWidgetByPubSubKey_def)
  with lookup_name_plain [OF assms(4)] show ?thesis by simp
qed

text \<open>
  For a name without a colon the lookup does not read the category of an entry
  \<open>plugin:N\<close>: a widget held under \<open>N\<close> is what it returns, whatever the plugins
  hold (Containers in the usual case).
\<close>

lemma lookup_prefers_widget:
  assumes "a_barbarianRegistry app token = Some (''plugin:'' @ N)"
    and "CHR '':'' \<notin> set N" and "plain_barbarians app"
    and "map_of (a_widgets app) N = Some w"
  shows "getPluginOrWidgetByPubSubKey app token = Inr w"
proof -
  have c: "CHR '':'' \<notin> set ''plugin''" by simp
  from assms(1) have e: "a_barbarianRegistry app token = Some (''plugin'' @ '':'' @ N)" by simp
  from lookup_entry [OF e c assms(2,3)] assms(4) show ?thesis by simp
qed

lemma same_name_activated:
  "activate same_name =
     Inr (same_name
       \<lparr>a_beehive := new_BeeHive\<lparr>issued := 2\<rparr>,
        a_barbarianRegistry := [''key'' \<mapsto> ''plugin:N'', ''key+'' \<mapsto> ''widget:N''],
        a_activated := True,
        calls := [BeehiveActivate, GetHardenedInstance 0, Activate ''plugin'' ''N'' (Hardened 0),
                  GetHardenedInstance 1, Activate ''widget'' ''N'' (Hardened 1)]\<rparr>)"
  by (simp add: activation_eval same_name_def initialize_def new_BeeHive_def numeral_2_eq_2)

lemma colon_name_activated:
  "activate colon_name =
     Inr (colon_name
       \<lparr>a_beehive := new_BeeHive\<lparr>issued := 2\<rparr>,
        a_barbarianRegistry := [''key'' \<mapsto> ''plugin:a:b'', ''key+'' \<mapsto> ''widget:a:b''],
        a_activated := True,
        calls := [BeehiveActivate, GetHardenedInstance 0, Activate ''plugin'' ''a:b'' (Hardened 0),
                  GetHardenedInstance 1, Activate ''widget'' ''a:b'' (Hardened 1)]\<rparr>)"
  by (simp add: activation_eval colon_name_def initialize_def new_BeeHive_def numeral_2_eq_2)

text \<open>
  Claim C9: for a token whose entry is \<open>plugin:N\<close>, the lookup ignores the category
  and asks the widgets first, so a widget registered under \<open>N\<close> is what it returns.
  The source departs from this when \<open>N\<close> has a colon in it. The plugin \<open>a:b\<close> and the
  widget \<open>a:b\<close> are activated; the cascade records \<open>plugin:a:b\<close> for the token \<open>key\<close>
  of the plugin; the widgets hold \<open>a:b\<close>. But the lookup splits the entry at every
  colon and takes the second piece, \<open>a\<close>, for the name: it finds neither a widget nor a
  plugin under it and throws its inconsistency error instead of returning the widget.
\<close>

theorem lookup_cuts_name_at_colon:
  "a_barbarianRegistry (projr (activate colon_name)) ''key'' = Some ''plugin:a:b'' \<and>
   hasWidget (projr (activate colon_name)) ''a:b'' = Inr True \<and>
   getWidget (projr (activate colon_name)) ''a:b'' = Inr (quiet 2) \<and>
   key1 ''plugin:a:b'' = ''a'' \<and>
   getPluginOrWidgetByPubSubKey (projr (activate colon_name)) ''key'' =
     Inl (Error ''Eeeek, thisis unexpectEED bEhAvjor! Cant find barbarian with ID: key'')"
  unfolding colon_name_activated
  by (simp add: colon_name_def initialize_def getPluginOrWidgetByPubSubKey_def
      getPluginOrWidgetName_def lookup_name_def key1_def hasWidget_def getWidget_def
      container_eval)

subsection \<open>What the cascade writes into the barbarian registry\<close>

lemma registerBarbarianChildren_registry:
  "t \<notin> set (tokens_of cs) \<Longrightarrow>
   a_barbarianRegistry (final_state (registerBarbarianChildren cat prefix cs app)) t =
     a_barbarianRegistry app t"
proof (induction cs arbitrary: app)
  case Nil
  then show ?case by (simp add: final_state_def)
next
  case (Cons c cs)
  obtain key nm obj tok where c: "c = (key, Child nm obj tok)"
    by (cases c; cases "snd c") auto
  from Cons.prems c have rest: "t \<notin> set (tokens_of cs)"
    by (simp add: tokens_of_def)
  from Cons.prems c have ne: "\<And>t'. tok = Inr t' \<Longrightarrow> t' \<noteq> t"
    by (auto simp: tokens_of_def)
  show ?case
  proof (cases rule: registerBarbarianChildren_step
           [where tok = tok and cat = cat and prefix = prefix and key = key and nm = nm
              and obj = obj and cs = cs and app = app])
    case (notoken e)
    show ?thesis unfolding c notoken(2) by (simp add: final_state_def)
  next
    case (threw t' e)
    from ne [OF threw(1)] show ?thesis unfolding c threw(3) by (simp add: final_state_def)
  next
    case (collide t')
    from ne [OF collide(1)] show ?thesis unfolding c collide(3) by (simp add: final_state_def)
  next
    case (widget t')
    from ne [OF widget(1)]
      Cons.IH [OF rest, of "addKey ''widgets'' (child_name prefix key nm) obj
              (record_barbarian t' (cat @ '':'' @ child_name prefix key nm) app)"]
    show ?thesis unfolding c widget(4) by simp
  next
    case (plugin t')
    from ne [OF plugin(1)]
      Cons.IH [OF rest, of "addKey ''plugins'' (child_name prefix key nm) obj
              (record_barbarian t' (cat @ '':'' @ child_name prefix key nm) app)"]
    show ?thesis unfolding c plugin(4) by simp
  qed
qed

lemma activate_barbarian_registry:
  assumes "t \<notin> set (child_tokens (snd el))"
  shows "a_barbarianRegistry (activate_barbarian cat el app) t =
           (if in_activate (snd el) = Inr True \<and>
               (\<exists>ch. activate_method (snd el) = Some (Inr ch)) \<and>
               pubsub_id (a_beehive app) (issued (a_beehive app)) = Inr t \<and> t \<noteq> ''__proto__''
            then Some (cat @ '':'' @ fst el)
            else a_barbarianRegistry app t)"
proof (cases cat el app rule: activate_barbarian_cases)
  case skip
  from skip(1) show ?thesis unfolding skip(2) by simp
next
  case (typeerror e)
  from typeerror(1) show ?thesis unfolding typeerror(2) by simp
next
  case notfun
  from notfun(1,2) show ?thesis unfolding notfun(3) by simp
next
  case (threw e)
  from threw(1,2) show ?thesis unfolding threw(3) by simp
next
  case (notoken ch e)
  from notoken(1,2,3) show ?thesis unfolding notoken(4) by simp
next
  case (recorded ch token)
  let ?app3 = "with_children cat (fst el) token app"
  have r3: "a_barbarianRegistry ?app3 t =
              (if token = t \<and> token \<noteq> ''__proto__'' then Some (cat @ '':'' @ fst el)
               else a_barbarianRegistry app t)"
    by simp
  have "a_barbarianRegistry (activate_barbarian cat el app) t = a_barbarianRegistry ?app3 t"
  proof (cases ch)
    case NoChildren
    with recorded(4) show ?thesis by simp
  next
    case (Children cs)
    with assms recorded(2) have nt: "t \<notin> set (tokens_of cs)"
      by (simp add: child_tokens_def)
    note rr = registerBarbarianChildren_registry [OF nt, of cat "fst el" ?app3]
    show ?thesis
    proof (cases "registerBarbarianChildren cat (fst el) cs ?app3")
      case (Inl x)
      with recorded(4) Children
      have eq: "activate_barbarian cat el app = log_activation_error (fst el) (fst x) (snd x)"
        by simp
      from rr Inl show ?thesis unfolding eq by (simp add: final_state_def)
    next
      case (Inr app4)
      with recorded(4) Children have eq: "activate_barbarian cat el app = app4"
        by simp
      from rr Inr show ?thesis unfolding eq by (simp add: final_state_def)
    qed
  qed
  with r3 recorded(1,2,3) show ?thesis by auto
qed

lemma fold_registry_preserved:
  assumes "\<forall>x \<in> set xs. t \<notin> set (child_tokens (snd x))"
    and "\<forall>n \<ge> issued (a_beehive app). pubsub_id (a_beehive app) n \<noteq> Inr t"
  shows "a_barbarianRegistry (fold (activate_barbarian cat) xs app) t = a_barbarianRegistry app t"
  using assms
proof (induction xs arbitrary: app)
  case Nil
  then show ?case by simp
next
  case (Cons x xs)
  let ?app1 = "activate_barbarian cat x app"
  note st = activate_barbarian_frame [of cat x app]
  from Cons.prems have nt: "t \<notin> set (child_tokens (snd x))"
    and rest: "\<forall>x \<in> set xs. t \<notin> set (child_tokens (snd x))" by simp_all
  from Cons.prems(2) have "pubsub_id (a_beehive app) (issued (a_beehive app)) \<noteq> Inr t" by simp
  with activate_barbarian_registry [OF nt, of cat app]
  have r1: "a_barbarianRegistry ?app1 t = a_barbarianRegistry app t" by simp
  from st Cons.prems(2)
  have "\<forall>n \<ge> issued (a_beehive ?app1). pubsub_id (a_beehive ?app1) n \<noteq> Inr t" by simp
  from Cons.IH [OF rest this] r1 show ?case by simp
qed

lemma fold_registry_recorded:
  assumes "el \<in> set els"
    and "in_activate (snd el) = Inr True" and "activate_method (snd el) = Some (Inr ch)"
    and "\<forall>n. pubsub_id (a_beehive app) n = Inr (tok n)" and "inj tok"
    and "\<forall>n. tok n \<noteq> ''__proto__''"
    and "\<forall>x \<in> set els. \<forall>t \<in> set (child_tokens (snd x)). t \<notin> range tok"
  shows "\<exists>k. Activate cat (fst el) (Hardened k)
                \<in> set (barbarian_calls cat (issued (a_beehive app)) els) \<and>
              k < issued (a_beehive app) + views_for els \<and>
              a_barbarianRegistry (fold (activate_barbarian cat) els app) (tok k) =
                Some (cat @ '':'' @ fst el)"
  using assms(1,4,7)
proof (induction els arbitrary: app)
  case Nil
  then show ?case by simp
next
  case (Cons x xs)
  let ?n = "issued (a_beehive app)"
  let ?app1 = "activate_barbarian cat x app"
  note st = activate_barbarian_frame [of cat x app]
  from st Cons.prems(2) have p1: "\<forall>n. pubsub_id (a_beehive ?app1) n = Inr (tok n)" by simp
  from st have i1: "issued (a_beehive ?app1) = ?n + views_for [x]" by simp
  from Cons.prems(3) have c1: "\<forall>x \<in> set xs. \<forall>t \<in> set (child_tokens (snd x)). t \<notin> range tok"
    by simp
  show ?case
  proof (cases "el = x")
    case True
    from Cons.prems(3) True have nt: "tok ?n \<notin> set (child_tokens (snd el))" by auto
    from activate_barbarian_registry [OF nt, of cat app] assms(2,3,6) Cons.prems(2) True
    have own: "a_barbarianRegistry ?app1 (tok ?n) = Some (cat @ '':'' @ fst el)" by simp
    from True assms(2) have v: "views_for [x] = 1" by (simp add: views_for_def)
    from c1 have r: "\<forall>x \<in> set xs. tok ?n \<notin> set (child_tokens (snd x))" by auto
    from p1 i1 v \<open>inj tok\<close>
    have "\<forall>n \<ge> issued (a_beehive ?app1). pubsub_id (a_beehive ?app1) n \<noteq> Inr (tok ?n)"
      by (auto dest: injD)
    from fold_registry_preserved [OF r this, of cat] own
    have "a_barbarianRegistry (fold (activate_barbarian cat) (x # xs) app) (tok ?n) =
            Some (cat @ '':'' @ fst el)" by simp
    moreover from True assms(2,3)
    have "Activate cat (fst el) (Hardened ?n) \<in> set (barbarian_calls cat ?n (x # xs))"
      by simp
    moreover from v have "?n < ?n + views_for (x # xs)"
      using views_for_Cons [of x xs] by simp
    ultimately show ?thesis by blast
  next
    case False
    with Cons.prems(1) have m: "el \<in> set xs" by simp
    from Cons.IH [OF m p1 c1] obtain k where
      k: "Activate cat (fst el) (Hardened k) \<in> set (barbarian_calls cat (issued (a_beehive ?app1)) xs)"
         "k < issued (a_beehive ?app1) + views_for xs"
         "a_barbarianRegistry (fold (activate_barbarian cat) xs ?app1) (tok k) =
            Some (cat @ '':'' @ fst el)"
      by blast
    from k(1) i1 have "Activate cat (fst el) (Hardened k) \<in> set (barbarian_calls cat ?n (x # xs))"
      using barbarian_calls_Cons [of cat ?n x xs] by simp
    moreover from k(2) i1 have "k < ?n + views_for (x # xs)"
      using views_for_Cons [of x xs] by simp
    moreover from k(3) have "a_barbarianRegistry (fold (activate_barbarian cat) (x # xs) app) (tok k) =
            Some (cat @ '':'' @ fst el)" by simp
    ultimately show ?thesis by blast
  qed
qed

lemma activate_round_trip:
  assumes b: "on_activate (a_beehive app) = None"
    and c: "list_all (\<lambda>c. failure (snd c) = None) (a_controllers app)"
    and tk: "\<forall>n. pubsub_id (a_beehive app) n = Inr (tok n)" and inj: "inj tok"
    and np: "\<forall>n. tok n \<noteq> ''__proto__''"
    and ct: "\<forall>x \<in> set (a_plugins app) \<union> set (a_widgets app).
               \<forall>t \<in> set (child_tokens (snd x)). t \<notin> range tok"
    and dp: "distinct (map fst (a_plugins app))" and dw: "distinct (map fst (a_widgets app))"
    and pl: "plain_barbarians app"
    and nc: "CHR '':'' \<notin> set name"
    and ia: "in_activate v = Inr True" and am: "activate_method v = Some (Inr ch)"
  shows "\<exists>app'. activate app = Inr app' \<and>
           ((name, v) \<in> set (a_widgets app) \<longrightarrow>
              (\<exists>k. Activate ''widget'' name (Hardened k) \<in> set (drop (length (calls app)) (calls app')) \<and>
                   getPluginOrWidgetByPubSubKey app' (tok k) = Inr v)) \<and>
           ((name, v) \<in> set (a_plugins app) \<and> hasWidget app' name = Inr False \<longrightarrow>
              (\<exists>k. Activate ''plugin'' name (Hardened k) \<in> set (drop (length (calls app)) (calls app')) \<and>
                   getPluginOrWidgetByPubSubKey app' (tok k) = Inr v))"
proof -
  let ?app1 = "app\<lparr>calls := calls app @ BeehiveActivate # controller_calls (a_controllers app)\<rparr>"
  let ?app2 = "fold activate_module (a_modules app) ?app1"
  let ?app3 = "fold (activate_barbarian ''plugin'') (a_plugins app) ?app2"
  let ?app4 = "fold (activate_barbarian ''widget'') (a_widgets app) ?app3"
  let ?app' = "?app4\<lparr>a_activated := True\<rparr>"
  let ?n = "issued (a_beehive app)"
  note a = activate_completes [OF b c]
  note f3 = fold_activate_barbarian_frame [of "''plugin''" "a_plugins app" ?app2]
  note f4 = fold_activate_barbarian_frame [of "''widget''" "a_widgets app" ?app3]
  have o2: "a_plugins ?app2 = a_plugins app" "a_widgets ?app2 = a_widgets app"
    "a_beehive ?app2 = a_beehive app" "a_barbarianRegistry ?app2 = a_barbarianRegistry app"
    "a_plugins_proto ?app2 = a_plugins_proto app" "a_widgets_proto ?app2 = a_widgets_proto app"
    by (simp_all add: fold_activate_module)
  from pl o2 have p2: "plain_barbarians ?app2" by (simp add: plain_barbarians_def)
  note g3 = fold_activate_barbarian_plain [OF p2, of "''plugin''" "a_plugins app"]
  from g3 have p3: "plain_barbarians ?app3" by simp
  note g4 = fold_activate_barbarian_plain [OF p3, of "''widget''" "a_widgets app"]
  from g4 have p': "plain_barbarians ?app'" by (simp add: plain_barbarians_def)
  from activate_completes_calls [OF b c] a
  have cs: "drop (length (calls app)) (calls ?app') =
             BeehiveActivate # controller_calls (a_controllers app) @
               module_calls (a_modules app) @
               barbarian_calls ''plugin'' ?n (a_plugins app) @
               barbarian_calls ''widget'' (?n + views_for (a_plugins app)) (a_widgets app)"
    by auto
  from f3 o2 have i3: "issued (a_beehive ?app3) = ?n + views_for (a_plugins app)" by simp
  from o2 tk have t2: "\<forall>n. pubsub_id (a_beehive ?app2) n = Inr (tok n)" by simp
  from f3 o2 tk have t3: "\<forall>n. pubsub_id (a_beehive ?app3) n = Inr (tok n)" by simp
  from g3 g4 o2 have gp: "grows (a_plugins app) (a_plugins ?app')"
    by (auto intro: grows_trans)
  from g3 g4 o2 have gw: "grows (a_widgets app) (a_widgets ?app')"
    by (auto intro: grows_trans)
  have c1: "CHR '':'' \<notin> set ''widget''" "CHR '':'' \<notin> set ''plugin''" by simp_all
  have w: "(name, v) \<in> set (a_widgets app) \<longrightarrow>
              (\<exists>k. Activate ''widget'' name (Hardened k) \<in> set (drop (length (calls app)) (calls ?app')) \<and>
                   getPluginOrWidgetByPubSubKey ?app' (tok k) = Inr v)"
  proof
    assume m: "(name, v) \<in> set (a_widgets app)"
    from ct have ctw: "\<forall>x \<in> set (a_widgets app). \<forall>t \<in> set (child_tokens (snd x)). t \<notin> range tok"
      by blast
    from fold_registry_recorded [of "(name, v)" "a_widgets app" ch ?app3 tok "''widget''"]
      m ia am t3 inj np ctw
    obtain k where
      k: "Activate ''widget'' name (Hardened k)
            \<in> set (barbarian_calls ''widget'' (issued (a_beehive ?app3)) (a_widgets app))"
         "a_barbarianRegistry ?app4 (tok k) = Some (''widget'' @ '':'' @ name)"
      by auto
    from k(1) i3 cs
    have 1: "Activate ''widget'' name (Hardened k) \<in> set (drop (length (calls app)) (calls ?app'))"
      by simp
    from m dw have "map_of (a_widgets app) name = Some v" by simp
    with gw have hw: "map_of (a_widgets ?app') name = Some v" by (simp add: grows_def)
    from k(2) have "a_barbarianRegistry ?app' (tok k) = Some (''widget'' @ '':'' @ name)"
      by simp
    from lookup_entry [OF this c1(1) nc p'] hw
    have "getPluginOrWidgetByPubSubKey ?app' (tok k) = Inr v" by simp
    with 1 show "\<exists>k. Activate ''widget'' name (Hardened k)
                        \<in> set (drop (length (calls app)) (calls ?app')) \<and>
                   getPluginOrWidgetByPubSubKey ?app' (tok k) = Inr v" by blast
  qed
  have p: "(name, v) \<in> set (a_plugins app) \<and> hasWidget ?app' name = Inr False \<longrightarrow>
              (\<exists>k. Activate ''plugin'' name (Hardened k) \<in> set (drop (length (calls app)) (calls ?app')) \<and>
                   getPluginOrWidgetByPubSubKey ?app' (tok k) = Inr v)"
  proof
    assume h: "(name, v) \<in> set (a_plugins app) \<and> hasWidget ?app' name = Inr False"
    then have m: "(name, v) \<in> set (a_plugins app)" and nw: "hasWidget ?app' name = Inr False"
      by simp_all
    from nw p' have nw': "map_of (a_widgets ?app') name = None"
      by (simp add: hasWidget_def plain_barbarians_def has_plain)
    from ct have ctp: "\<forall>x \<in> set (a_plugins app). \<forall>t \<in> set (child_tokens (snd x)). t \<notin> range tok"
      by blast
    from ct have ctw: "\<forall>x \<in> set (a_widgets app). \<forall>t \<in> set (child_tokens (snd x)). t \<notin> range tok"
      by blast
    from fold_registry_recorded [of "(name, v)" "a_plugins app" ch ?app2 tok "''plugin''"]
      m ia am t2 inj np ctp o2
    obtain k where
      k: "Activate ''plugin'' name (Hardened k) \<in> set (barbarian_calls ''plugin'' ?n (a_plugins app))"
         "k < ?n + views_for (a_plugins app)"
         "a_barbarianRegistry ?app3 (tok k) = Some (''plugin'' @ '':'' @ name)"
      by auto
    from k(1) cs
    have 1: "Activate ''plugin'' name (Hardened k) \<in> set (drop (length (calls app)) (calls ?app'))"
      by simp
    from ctw have r: "\<forall>x \<in> set (a_widgets app). tok k \<notin> set (child_tokens (snd x))" by auto
    from t3 i3 k(2) inj
    have "\<forall>n \<ge> issued (a_beehive ?app3). pubsub_id (a_beehive ?app3) n \<noteq> Inr (tok k)"
      by (auto dest: injD)
    from fold_registry_preserved [OF r this, of "''widget''"] k(3)
    have e: "a_barbarianRegistry ?app' (tok k) = Some (''plugin'' @ '':'' @ name)" by simp
    from m dp have "map_of (a_plugins app) name = Some v" by simp
    with gp have hp: "map_of (a_plugins ?app') name = Some v" by (simp add: grows_def)
    from lookup_entry [OF e c1(2) nc p'] hp nw'
    have "getPluginOrWidgetByPubSubKey ?app' (tok k) = Inr v" by simp
    with 1 show "\<exists>k. Activate ''plugin'' name (Hardened k)
                        \<in> set (drop (length (calls app)) (calls ?app')) \<and>
                   getPluginOrWidgetByPubSubKey ?app' (tok k) = Inr v" by blast
  qed
  from a w p show ?thesis by blast
qed

text \<open>
  Claim C7, as amended. \<^verbatim>\<open>getPluginOrWidgetByPubSubKey(token)\<close> returns \<^verbatim>\<open>undefined\<close> when the
  barbarian registry has no entry for the token and the token is not the name of
  something every object inherits (\<^verbatim>\<open>constructor\<close>, \<^verbatim>\<open>toString\<close>, ...). When the entry is
  \<open>plugin:N\<close> or \<open>widget:N\<close>, with no colon in \<open>N\<close>, it returns what the widgets hold
  under \<open>N\<close> if they hold it, else what the plugins hold under \<open>N\<close> if they hold it,
  and throws the inconsistency error when neither does. After an activation whose views
  report pairwise different tokens, none of them \<^verbatim>\<open>__proto__\<close> or reported by a spawned
  child as well, the token of a directly activated widget leads back to that widget, and
  the token of a directly activated plugin leads back to that plugin when no widget is
  held under the plugin's name (names without a colon, unique in their Container). The
  two Containers are taken in the usual case: the wrapped object has its original
  prototype and nothing stored under \<^verbatim>\<open>hasOwnProperty\<close>.
\<close>

theorem lookup_by_token:
  "(a_barbarianRegistry app token = None \<and> token \<notin> set object_prototype_names \<longrightarrow>
      getPluginOrWidgetByPubSubKey app token = Inr Undefined) \<and>
   ((cat = ''plugin'' \<or> cat = ''widget'') \<and>
    a_barbarianRegistry app token = Some (cat @ '':'' @ N) \<and> CHR '':'' \<notin> set N \<and>
    plain_barbarians app \<longrightarrow>
      getPluginOrWidgetByPubSubKey app token =
        (case map_of (a_widgets app) N of
           Some w \<Rightarrow> Inr w
         | None \<Rightarrow>
             (case map_of (a_plugins app) N of
                Some p \<Rightarrow> Inr p
              | None \<Rightarrow>
                  Inl (Error (''Eeeek, thisis unexpectEED bEhAvjor! Cant find barbarian with ID: '' @ token)))) \<and>
      hasWidget app N = Inr (map_of (a_widgets app) N \<noteq> None) \<and>
      hasPlugin app N = Inr (map_of (a_plugins app) N \<noteq> None)) \<and>
   (on_activate (a_beehive app) = None \<and>
    list_all (\<lambda>c. failure (snd c) = None) (a_controllers app) \<and>
    (\<forall>n. pubsub_id (a_beehive app) n = Inr (tok n)) \<and> inj tok \<and>
    (\<forall>n. tok n \<noteq> ''__proto__'') \<and>
    (\<forall>x \<in> set (a_plugins app) \<union> set (a_widgets app).
       \<forall>t \<in> set (child_tokens (snd x)). t \<notin> range tok) \<and>
    distinct (map fst (a_plugins app)) \<and> distinct (map fst (a_widgets app)) \<and>
    plain_barbarians app \<and>
    CHR '':'' \<notin> set name \<and>
    in_activate v = Inr True \<and> activate_method v = Some (Inr ch) \<longrightarrow>
      (\<exists>app'. activate app = Inr app' \<and>
         ((name, v) \<in> set (a_widgets app) \<longrightarrow>
            (\<exists>k. Activate ''widget'' name (Hardened k)
                    \<in> set (drop (length (calls app)) (calls app')) \<and>
                 getPluginOrWidgetByPubSubKey app' (tok k) = Inr v)) \<and>
         ((name, v) \<in> set (a_plugins app) \<and> hasWidget app' name = Inr False \<longrightarrow>
            (\<exists>k. Activate ''plugin'' name (Hardened k)
                    \<in> set (drop (length (calls app)) (calls app')) \<and>
                 getPluginOrWidgetByPubSubKey app' (tok k) = Inr v))))"
proof (intro conjI impI)
  assume "a_barbarianRegistry app token = None \<and> token \<notin> set object_prototype_names"
  then show "getPluginOrWidgetByPubSubKey app token = Inr Undefined"
    by (simp add: lookup_no_entry)
next
  assume h: "(cat = ''plugin'' \<or> cat = ''widget'') \<and>
    a_barbarianRegistry app token = Some (cat @ '':'' @ N) \<and> CHR '':'' \<notin> set N \<and>
    plain_barbarians app"
  then have "CHR '':'' \<notin> set cat" by auto
  with h lookup_entry [of app token cat N]
  show "getPluginOrWidgetByPubSubKey app token =
        (case map_of (a_widgets app) N of
           Some w \<Rightarrow> Inr w
         | None \<Rightarrow>
             (case map_of (a_plugins app) N of
                Some p \<Rightarrow> Inr p
              | None \<Rightarrow>
                  Inl (Error (''Eeeek, thisis unexpectEED bEhAvjor! Cant find barbarian with ID: '' @ token))))"
    by blast
  from h show "hasWidget app N = Inr (map_of (a_widgets app) N \<noteq> None)"
    by (simp add: hasWidget_def plain_barbarians_def has_plain)
  from h show "hasPlugin app N = Inr (map_of (a_plugins app) N \<noteq> None)"
    by (simp add: hasPlugin_def plain_barbarians_def has_plain)
next
  assume h: "on_activate (a_beehive app) = None \<and>
    list_all (\<lambda>c. failure (snd c) = None) (a_controllers app) \<and>
    (\<forall>n. pubsub_id (a_beehive app) n = Inr (tok n)) \<and> inj tok \<and>
    (\<forall>n. tok n \<noteq> ''__proto__'') \<and>
    (\<forall>x \<in> set (a_plugins app) \<union> set (a_widgets app).
       \<forall>t \<in> set (child_tokens (snd x)). t \<notin> range tok) \<and>
    distinct (map fst (a_plugins app)) \<and> distinct (map fst (a_widgets app)) \<and>
    plain_barbarians app \<and>
    CHR '':'' \<notin> set name \<and>
    in_activate v = Inr True \<and> activate_method v = Some (Inr ch)"
  then have b: "on_activate (a_beehive app) = None"
    and c: "list_all (\<lambda>c. failure (snd c) = None) (a_controllers app)"
    and tk: "\<forall>n. pubsub_id (a_beehive app) n = Inr (tok n)" and inj: "inj tok"
    and np: "\<forall>n. tok n \<noteq> ''__proto__''"
    and ct: "\<forall>x \<in> set (a_plugins app) \<union> set (a_widgets app).
               \<forall>t \<in> set (child_tokens (snd x)). t \<notin> range tok"
    and dp: "distinct (map fst (a_plugins app))" and dw: "distinct (map fst (a_widgets app))"
    and pl: "plain_barbarians app"
    and nc: "CHR '':'' \<notin> set name"
    and ia: "in_activate v = Inr True" and am: "activate_method v = Some (Inr ch)"
    by simp_all
  show "\<exists>app'. activate app = Inr app' \<and>
         ((name, v) \<in> set (a_widgets app) \<longrightarrow>
            (\<exists>k. Activate ''widget'' name (Hardened k)
                    \<in> set (drop (length (calls app)) (calls app')) \<and>
                 getPluginOrWidgetByPubSubKey app' (tok k) = Inr v)) \<and>
         ((name, v) \<in> set (a_plugins app) \<and> hasWidget app' name = Inr False \<longrightarrow>
            (\<exists>k. Activate ''plugin'' name (Hardened k)
                    \<in> set (drop (length (calls app)) (calls app')) \<and>
                 getPluginOrWidgetByPubSubKey app' (tok k) = Inr v))"
    by (rule activate_round_trip [OF b c tk inj np ct dp dw pl nc ia am])
qed

lemma all_quiet_activated:
  "activate all_quiet =
     Inr (all_quiet
       \<lparr>a_beehive := new_BeeHive\<lparr>issued := 3\<rparr>,
        a_barbarianRegistry :=
          [''key'' \<mapsto> ''plugin:P'', ''key+'' \<mapsto> ''widget:W'', ''key++'' \<mapsto> ''widget:Y''],
        a_activated := True,
        calls := [BeehiveActivate, Activate ''controller'' ''QueryMediator'' ElevatedAndApp,
                  Activate ''module'' ''A'' Elevated,
                  GetHardenedInstance 0, Activate ''plugin'' ''P'' (Hardened 0),
                  GetHardenedInstance 1, Activate ''widget'' ''W'' (Hardened 1),
                  GetHardenedInstance 2, Activate ''widget'' ''Y'' (Hardened 2)]\<rparr>)"
  by (simp add: activation_eval all_quiet_def initialize_def new_BeeHive_def
      numeral_2_eq_2 numeral_3_eq_3)

lemma example_child_tokens:
  "child_tokens (quiet i) = []" "child_tokens (throwing i) = []" "child_tokens inert = []"
proof -
  show "child_tokens (quiet i) = []" "child_tokens (throwing i) = []"
    by (simp_all add: child_tokens_def)
  show "child_tokens inert = []"
    by (simp add: child_tokens_def activate_method_def found_def inert_def)
qed

theorem lookup_by_token_witness:
  "on_activate (a_beehive all_quiet) = None \<and>
   list_all (\<lambda>c. failure (snd c) = None) (a_controllers all_quiet) \<and>
   inj (\<lambda>n. ''key'' @ replicate n CHR ''+'') \<and>
   plain_barbarians all_quiet \<and> plain_barbarians (projr (activate all_quiet)) \<and>
   (''P'', quiet 5) \<in> set (a_plugins all_quiet) \<and> (''Y'', quiet 8) \<in> set (a_widgets all_quiet) \<and>
   hasWidget (projr (activate all_quiet)) ''P'' = Inr False \<and>
   getPluginOrWidgetByPubSubKey all_quiet ''key'' = Inr Undefined \<and>
   getPluginOrWidgetByPubSubKey (projr (activate all_quiet)) ''key'' = Inr (quiet 5) \<and>
   getPluginOrWidgetByPubSubKey (projr (activate all_quiet)) ''key++'' = Inr (quiet 8)"
proof -
  let ?tok = "\<lambda>n. ''key'' @ replicate n CHR ''+''"
  let ?app' = "projr (activate all_quiet)"
  have b: "on_activate (a_beehive all_quiet) = None"
    and c: "list_all (\<lambda>c. failure (snd c) = None) (a_controllers all_quiet)"
    and tk: "\<forall>n. pubsub_id (a_beehive all_quiet) n = Inr (?tok n)"
    and ct: "\<forall>x \<in> set (a_plugins all_quiet) \<union> set (a_widgets all_quiet).
               \<forall>t \<in> set (child_tokens (snd x)). t \<notin> range ?tok"
    and d: "distinct (map fst (a_plugins all_quiet))" "distinct (map fst (a_widgets all_quiet))"
    and m: "(''P'', quiet 5) \<in> set (a_plugins all_quiet)" "(''Y'', quiet 8) \<in> set (a_widgets all_quiet)"
    and e: "calls all_quiet = []" "a_barbarianRegistry all_quiet ''key'' = None"
    by (simp_all add: all_quiet_def initialize_def new_BeeHive_def example_child_tokens)
  have inj: "inj ?tok" by (simp add: inj_def)
  have np: "\<forall>n. ?tok n \<noteq> ''__proto__''" by simp
  have nk: "''key'' \<notin> set object_prototype_names"
    by (simp add: object_prototype_names_def object_methods_def)
  have nc: "CHR '':'' \<notin> set ''P''" "CHR '':'' \<notin> set ''Y''" by simp_all
  have pl: "plain_barbarians all_quiet"
    by (simp add: plain_barbarians_def plain_def all_quiet_def initialize_def)
  have pl': "plain_barbarians ?app'"
    unfolding all_quiet_activated
    by (simp add: plain_barbarians_def plain_def all_quiet_def initialize_def)
  have nw: "hasWidget ?app' ''P'' = Inr False"
    unfolding all_quiet_activated
    by (simp add: all_quiet_def initialize_def hasWidget_def container_eval)
  have r: "a_barbarianRegistry ?app' ''key'' = Some (''plugin'' @ '':'' @ ''P'')"
    unfolding all_quiet_activated by simp
  have hp: "map_of (a_widgets ?app') ''P'' = None" "map_of (a_plugins ?app') ''P'' = Some (quiet 5)"
    unfolding all_quiet_activated
    by (simp_all add: all_quiet_def initialize_def)
  note t1 = lookup_by_token [where app = all_quiet and token = "''key''"]
  note t2 = lookup_by_token [where app = ?app' and token = "''key''" and cat = "''plugin''"
                              and N = "''P''"]
  note t3 = lookup_by_token [where app = all_quiet and tok = ?tok and name = "''Y''"
                              and v = "quiet 8" and ch = NoChildren]
  from t1 e nk have 1: "getPluginOrWidgetByPubSubKey all_quiet ''key'' = Inr Undefined" by blast
  from t2 r nc pl' hp have 2: "getPluginOrWidgetByPubSubKey ?app' ''key'' = Inr (quiet 5)" by simp
  have ia: "in_activate (quiet 8) = Inr True" "activate_method (quiet 8) = Some (Inr NoChildren)"
    by simp_all
  from t3 [of "''key''" "''plugin''" "''P''"] b c tk inj np ct d pl nc ia
  obtain app' where r3: "activate all_quiet = Inr app'" and
    w3: "(''Y'', quiet 8) \<in> set (a_widgets all_quiet) \<longrightarrow>
            (\<exists>k. Activate ''widget'' ''Y'' (Hardened k)
                    \<in> set (drop (length (calls all_quiet)) (calls app')) \<and>
                 getPluginOrWidgetByPubSubKey app' (?tok k) = Inr (quiet 8))"
    by blast
  from r3 w3 m e obtain k where
    k: "Activate ''widget'' ''Y'' (Hardened k) \<in> set (calls ?app')"
       "getPluginOrWidgetByPubSubKey ?app' (?tok k) = Inr (quiet 8)"
    by auto
  from k(1) have "k = 2"
    unfolding all_quiet_activated by simp
  with k(2) have 3: "getPluginOrWidgetByPubSubKey ?app' ''key++'' = Inr (quiet 8)"
    by (simp add: numeral_2_eq_2)
  from b c inj pl pl' m nw 1 2 3 show ?thesis by blast
qed

text \<open>
  Claim C7 as stated fails: the plugin \<open>N\<close> is activated with the view whose token is
  \<open>key\<close>, and a widget is registered under \<open>N\<close> too. After activation the token of the
  plugin leads to the widget, which is another instance.
\<close>

theorem plugin_token_returns_widget:
  "Activate ''plugin'' ''N'' (Hardened 0) \<in> set (calls (projr (activate same_name))) \<and>
   pubsub_id (a_beehive same_name) 0 = Inr ''key'' \<and>
   getPlugin (projr (activate same_name)) ''N'' = Inr (quiet 1) \<and>
   getPluginOrWidgetByPubSubKey (projr (activate same_name)) ''key'' = Inr (quiet 2) \<and>
   quiet 2 \<noteq> quiet 1"
  unfolding same_name_activated
  by (simp add: same_name_def initialize_def new_BeeHive_def getPlugin_def
      getPluginOrWidgetByPubSubKey_def getPluginOrWidgetName_def lookup_name_def key1_def
      container_eval quiet_def)

end
